theory Spec2Isabelle
  imports Main
begin

section \<open>Data model\<close>

text \<open>
  The programs work on JSON documents decoded into Python dictionaries. The model fixes
  the schema of the repository's records and of the QA reports, and keeps what the code
  tests at run time: whether a key is present (\<open>None\<close> is an absent key) and the value
  the code reads with \<^verbatim>\<open>dict.get(key, default)\<close>. Strings are byte strings.
\<close>

record affiliation =
  aff_id :: "string option"
  aff_name :: "string option"

record person =
  po_type :: "string option"
  po_name :: "string option"

record creator =
  person_or_org :: "person option"
  affiliations :: "affiliation list option"

record rel_ident =
  ri_identifier :: "string option"
  ri_scheme :: "string option"
  ri_relation_type :: "string option"

record meta =
  title :: "string option"
  description :: "string option"
  publication_date :: "string option"
  creators :: "creator list option"
  related_identifiers :: "rel_ident list option"

record custom =
  qa_checked :: "bool option"
  descriptors_cai_text :: "string list option"
  lead_record_id :: "string option"

record inis_record =
  rec_id :: "string option"
  metadata :: "meta option"
  custom_fields :: "custom option"

text \<open>\<^verbatim>\<open>d.get(key, "")\<close> and \<^verbatim>\<open>d.get(key, [])\<close>.\<close>

definition get_str :: "string option \<Rightarrow> string" where
  "get_str v = (case v of None \<Rightarrow> [] | Some s \<Rightarrow> s)"

definition get_list :: "'a list option \<Rightarrow> 'a list" where
  "get_list v = (case v of None \<Rightarrow> [] | Some xs \<Rightarrow> xs)"

definition empty_meta :: meta where
  "empty_meta = \<lparr>title = None, description = None, publication_date = None,
     creators = None, related_identifiers = None\<rparr>"

definition empty_custom :: custom where
  "empty_custom = \<lparr>qa_checked = None, descriptors_cai_text = None, lead_record_id = None\<rparr>"

section \<open>The file-writing corrector: matchers\<close>

text \<open>
  Each matcher mutates the record it is given and returns a boolean; the model returns the
  new record with the boolean. Every matcher's body sits in a \<^verbatim>\<open>try\<close> block that
  turns an exception into \<open>False\<close>; on documents of the schema above no operation of
  the bodies raises, so the handlers have no branch here.
\<close>

definition apply_title_correction :: "inis_record \<Rightarrow> string \<Rightarrow> inis_record \<times> bool" where
  "apply_title_correction record correction =
     (let m = (case metadata record of None \<Rightarrow> empty_meta | Some m \<Rightarrow> m)
      in (record\<lparr>metadata := Some (m\<lparr>title := Some correction\<rparr>)\<rparr>, True))"

definition apply_abstract_correction :: "inis_record \<Rightarrow> string \<Rightarrow> inis_record \<times> bool" where
  "apply_abstract_correction record correction =
     (let m = (case metadata record of None \<Rightarrow> empty_meta | Some m \<Rightarrow> m)
      in (record\<lparr>metadata := Some (m\<lparr>description := Some correction\<rparr>)\<rparr>, True))"

definition apply_date_correction :: "inis_record \<Rightarrow> string \<Rightarrow> inis_record \<times> bool" where
  "apply_date_correction record correction =
     (let m = (case metadata record of None \<Rightarrow> empty_meta | Some m \<Rightarrow> m)
      in (record\<lparr>metadata := Some (m\<lparr>publication_date := Some correction\<rparr>)\<rparr>, True))"

text \<open>
  \<^verbatim>\<open>apply_descriptor_deletions\<close>. Python's \<^verbatim>\<open>str.lower\<close> is a function of the
  language's library, defined by the Unicode character tables; the model takes it as the
  parameter \<open>lower\<close>, so what is proved holds for the library's function whatever it
  does to a string. The list is read with a default of \<open>[]\<close>; an empty
  or absent list returns \<open>False\<close> at once; otherwise the list object is overwritten in place
  (\<^verbatim>\<open>descriptors[:] = ...\<close>) with the entries whose lowercase form is not among the
  lowercased deletions.
\<close>

definition descriptors_of :: "inis_record \<Rightarrow> string list" where
  "descriptors_of record =
     (case custom_fields record of None \<Rightarrow> []
      | Some cf \<Rightarrow> get_list (descriptors_cai_text cf))"

definition apply_descriptor_deletions ::
  "(string \<Rightarrow> string) \<Rightarrow> inis_record \<Rightarrow> string list \<Rightarrow> inis_record \<times> bool" where
  "apply_descriptor_deletions lower record deletions =
     (case custom_fields record of
        None \<Rightarrow> (record, False)
      | Some cf \<Rightarrow>
          (case descriptors_cai_text cf of
             None \<Rightarrow> (record, False)
           | Some descriptors \<Rightarrow>
               if descriptors = [] then (record, False)
               else
                 let original_count = length descriptors;
                     deletions_lower = map lower deletions;
                     kept = filter (\<lambda>d. lower d \<notin> set deletions_lower) descriptors;
                     removed_count = original_count - length kept
                 in (record\<lparr>custom_fields := Some (cf\<lparr>descriptors_cai_text := Some kept\<rparr>)\<rparr>,
                     removed_count > 0)))"

text \<open>
  \<^verbatim>\<open>apply_affiliation_corrections\<close> of the processor: the outer loop runs over the
  corrections and skips a pair whose old or recommended name is empty or absent; the inner
  loops run over every creator and every affiliation entry, compare the entry's name (read
  with a default of the empty string) with the old name, overwrite it and count the match.
  The counter \<^verbatim>\<open>corrections_applied\<close> is threaded through the three loops.
\<close>

record affiliation_correction =
  old_affiliation :: "string option"
  recommended_affiliation :: "string option"

fun match_affiliations ::
  "string \<Rightarrow> string \<Rightarrow> affiliation list \<Rightarrow> nat \<Rightarrow> affiliation list \<times> nat" where
  "match_affiliations old new [] n = ([], n)"
| "match_affiliations old new (a # affs) n =
     (if get_str (aff_name a) = old
      then (let (affs', n') = match_affiliations old new affs (n + 1)
            in (a\<lparr>aff_name := Some new\<rparr> # affs', n'))
      else (let (affs', n') = match_affiliations old new affs n
            in (a # affs', n')))"

fun match_creators ::
  "string \<Rightarrow> string \<Rightarrow> creator list \<Rightarrow> nat \<Rightarrow> creator list \<times> nat" where
  "match_creators old new [] n = ([], n)"
| "match_creators old new (c # cs) n =
     (case affiliations c of
        None \<Rightarrow> (let (cs', n') = match_creators old new cs n in (c # cs', n'))
      | Some affs \<Rightarrow>
          (let (affs', n1) = match_affiliations old new affs n;
               (cs', n2) = match_creators old new cs n1
           in (c\<lparr>affiliations := Some affs'\<rparr> # cs', n2)))"

fun correction_loop ::
  "affiliation_correction list \<Rightarrow> creator list \<Rightarrow> nat \<Rightarrow> creator list \<times> nat" where
  "correction_loop [] cs n = (cs, n)"
| "correction_loop (k # ks) cs n =
     (let old = get_str (old_affiliation k);
          new = get_str (recommended_affiliation k)
      in if old = [] \<or> new = [] then correction_loop ks cs n
         else (let (cs', n') = match_creators old new cs n
               in correction_loop ks cs' n'))"

definition affiliation_corrections_applied ::
  "inis_record \<Rightarrow> affiliation_correction list \<Rightarrow> inis_record \<times> nat" where
  "affiliation_corrections_applied record corrs =
     (case metadata record of
        None \<Rightarrow> (record, 0)
      | Some m \<Rightarrow>
          (case creators m of
             None \<Rightarrow> (record, 0)
           | Some cs \<Rightarrow>
               (let (cs', n) = correction_loop corrs cs 0
                in (record\<lparr>metadata := Some (m\<lparr>creators := Some cs'\<rparr>)\<rparr>, n))))"

definition apply_affiliation_corrections ::
  "inis_record \<Rightarrow> affiliation_correction list \<Rightarrow> inis_record \<times> bool" where
  "apply_affiliation_corrections record corrs =
     (let (record', corrections_applied) = affiliation_corrections_applied record corrs
      in (record', corrections_applied > 0))"

text \<open>The names of all affiliation entries of a record, as the matchers read them.\<close>

definition creator_affiliation_names :: "creator \<Rightarrow> string list" where
  "creator_affiliation_names c = map (\<lambda>a. get_str (aff_name a)) (get_list (affiliations c))"

definition affiliation_names :: "inis_record \<Rightarrow> string list" where
  "affiliation_names record =
     (case metadata record of
        None \<Rightarrow> []
      | Some m \<Rightarrow> concat (map creator_affiliation_names (get_list (creators m))))"

text \<open>
  \<^verbatim>\<open>add_related_identifier\<close>: the metadata is read with \<^verbatim>\<open>record.get("metadata", {})\<close>,
  so on a record without metadata the list is created and extended in a dictionary that
  is not stored in the record, and the function still returns \<open>True\<close>.
\<close>

definition add_related_identifier :: "inis_record \<Rightarrow> rel_ident \<Rightarrow> inis_record \<times> bool" where
  "add_related_identifier record identifier_data =
     (let new_identifier = get_str (ri_identifier identifier_data)
      in case metadata record of
           None \<Rightarrow> (record, new_identifier \<noteq> [])
         | Some m \<Rightarrow>
             (let ris = get_list (related_identifiers m);
                  existing_identifiers = map (\<lambda>ri. get_str (ri_identifier ri)) ris
              in if new_identifier \<noteq> [] \<and> new_identifier \<notin> set existing_identifiers
                 then (record\<lparr>metadata :=
                         Some (m\<lparr>related_identifiers := Some (ris @ [identifier_data])\<rparr>)\<rparr>, True)
                 else (record\<lparr>metadata := Some (m\<lparr>related_identifiers := Some ris\<rparr>)\<rparr>,
                       False)))"

section \<open>QA reports\<close>

text \<open>
  A QA report is the dictionary loaded from a report file. The boolean flags are read with
  \<^verbatim>\<open>qa_data.get(flag)\<close> and tested for truth, so an absent flag is \<open>False\<close>;
  \<open>scope_ok\<close> alone is read with a default of \<open>True\<close>. The value under
  \<^verbatim>\<open>delete_descriptor\<close> is a string or a list of strings, the value under
  \<^verbatim>\<open>related_identifiers\<close> one identifier object or a list of them.
\<close>

record organizational_author_correction =
  old_organizational_author :: "string option"
  recommended_organizational_author :: "string option"

record corrections_map =
  c_title :: "string option"
  c_abstract :: "string option"
  c_delete_descriptor :: "(string + string list) option"
  c_publication_date :: "string option"
  c_related_identifiers :: "(rel_ident + rel_ident list) option"

definition empty_corrections :: corrections_map where
  "empty_corrections = \<lparr>c_title = None, c_abstract = None, c_delete_descriptor = None,
     c_publication_date = None, c_related_identifiers = None\<rparr>"

record qa_report =
  record_id :: "string option"
  title_corrected :: bool
  abstract_corrected :: bool
  descriptor_corrected :: bool
  date_corrected :: bool
  affiliation_correction_recommended :: bool
  scope_ok :: "bool option"
  duplicate_by_title :: bool
  duplicate_by_doi :: bool
  suspicious_content :: bool
  historical_context_required :: bool
  corrections :: "corrections_map option"
  affiliation_corrections :: "affiliation_correction list option"
  organizational_author_corrections :: "organizational_author_correction list option"
  recommendations :: "string list option"

definition get_corrections :: "qa_report \<Rightarrow> corrections_map" where
  "get_corrections qa_data =
     (case corrections qa_data of None \<Rightarrow> empty_corrections | Some c \<Rightarrow> c)"

section \<open>The file-writing corrector: processing one report\<close>

record processor_stats =
  ps_records_processed :: nat
  ps_records_corrected :: nat
  ps_title_corrections :: nat
  ps_affiliation_corrections :: nat
  ps_abstract_corrections :: nat
  ps_descriptor_corrections :: nat
  ps_date_corrections :: nat
  ps_errors :: nat

text \<open>
  The state of the correction phase of \<^verbatim>\<open>process_qa_report\<close>: the record under
  correction, the local counter \<^verbatim>\<open>corrections_applied\<close> and the statistics. Each
  block of the function is one step on this state, in the order of the source.
\<close>

type_synonym pstate = "inis_record \<times> nat \<times> processor_stats"

definition title_step :: "qa_report \<Rightarrow> pstate \<Rightarrow> pstate" where
  "title_step qa_data st =
     (case st of (corrected_record, corrections_applied, stats) \<Rightarrow>
        if title_corrected qa_data then
          (case c_title (get_corrections qa_data) of
             None \<Rightarrow> st
           | Some t \<Rightarrow>
               (case apply_title_correction corrected_record t of
                  (r, ok) \<Rightarrow>
                    if ok then (r, corrections_applied + 1,
                                stats\<lparr>ps_title_corrections := ps_title_corrections stats + 1\<rparr>)
                    else (r, corrections_applied, stats)))
        else st)"

definition abstract_step :: "qa_report \<Rightarrow> pstate \<Rightarrow> pstate" where
  "abstract_step qa_data st =
     (case st of (corrected_record, corrections_applied, stats) \<Rightarrow>
        if abstract_corrected qa_data then
          (case c_abstract (get_corrections qa_data) of
             None \<Rightarrow> st
           | Some t \<Rightarrow>
               (case apply_abstract_correction corrected_record t of
                  (r, ok) \<Rightarrow>
                    if ok then (r, corrections_applied + 1,
                                stats\<lparr>ps_abstract_corrections := ps_abstract_corrections stats + 1\<rparr>)
                    else (r, corrections_applied, stats)))
        else st)"

definition affiliation_step :: "qa_report \<Rightarrow> pstate \<Rightarrow> pstate" where
  "affiliation_step qa_data st =
     (case st of (corrected_record, corrections_applied, stats) \<Rightarrow>
        if affiliation_correction_recommended qa_data then
          (let affiliation_corrections = get_list (affiliation_corrections qa_data)
           in if affiliation_corrections = [] then st
              else
                (case apply_affiliation_corrections corrected_record affiliation_corrections of
                   (r, ok) \<Rightarrow>
                     if ok then (r, corrections_applied + 1,
                                 stats\<lparr>ps_affiliation_corrections :=
                                          ps_affiliation_corrections stats + 1\<rparr>)
                     else (r, corrections_applied, stats)))
        else st)"

definition descriptor_step :: "(string \<Rightarrow> string) \<Rightarrow> qa_report \<Rightarrow> pstate \<Rightarrow> pstate" where
  "descriptor_step lower qa_data st =
     (case st of (corrected_record, corrections_applied, stats) \<Rightarrow>
        if descriptor_corrected qa_data then
          (case c_delete_descriptor (get_corrections qa_data) of
             None \<Rightarrow> st
           | Some v \<Rightarrow>
               (let deletions = (case v of Inl d \<Rightarrow> [d] | Inr ds \<Rightarrow> ds)
                in if deletions = [] then st
                   else
                     (case apply_descriptor_deletions lower corrected_record deletions of
                        (r, ok) \<Rightarrow>
                          if ok then (r, corrections_applied + 1,
                                      stats\<lparr>ps_descriptor_corrections :=
                                               ps_descriptor_corrections stats + 1\<rparr>)
                          else (r, corrections_applied, stats))))
        else st)"

definition date_step :: "qa_report \<Rightarrow> pstate \<Rightarrow> pstate" where
  "date_step qa_data st =
     (case st of (corrected_record, corrections_applied, stats) \<Rightarrow>
        if date_corrected qa_data then
          (case c_publication_date (get_corrections qa_data) of
             None \<Rightarrow> st
           | Some t \<Rightarrow>
               (case apply_date_correction corrected_record t of
                  (r, ok) \<Rightarrow>
                    if ok then (r, corrections_applied + 1,
                                stats\<lparr>ps_date_corrections := ps_date_corrections stats + 1\<rparr>)
                    else (r, corrections_applied, stats)))
        else st)"

fun identifier_loop :: "rel_ident list \<Rightarrow> inis_record \<Rightarrow> nat \<Rightarrow> inis_record \<times> nat" where
  "identifier_loop [] record n = (record, n)"
| "identifier_loop (i # is) record n =
     (case add_related_identifier record i of
        (r, ok) \<Rightarrow> identifier_loop is r (if ok then n + 1 else n))"

definition identifiers_step :: "qa_report \<Rightarrow> pstate \<Rightarrow> pstate" where
  "identifiers_step qa_data st =
     (case st of (corrected_record, corrections_applied, stats) \<Rightarrow>
        (case c_related_identifiers (get_corrections qa_data) of
           None \<Rightarrow> st
         | Some v \<Rightarrow>
             (let identifiers = (case v of Inl i \<Rightarrow> [i] | Inr is \<Rightarrow> is)
              in case identifier_loop identifiers corrected_record corrections_applied of
                   (r, n) \<Rightarrow> (r, n, stats))))"

definition apply_corrections ::
  "(string \<Rightarrow> string) \<Rightarrow> qa_report \<Rightarrow> inis_record \<Rightarrow> processor_stats \<Rightarrow> pstate" where
  "apply_corrections lower qa_data original_record stats =
     identifiers_step qa_data
       (date_step qa_data
         (descriptor_step lower qa_data
           (affiliation_step qa_data
             (abstract_step qa_data
               (title_step qa_data (original_record, 0, stats))))))"

text \<open>
  The whole of \<^verbatim>\<open>process_qa_report\<close>. The report file either loads (\<open>Some\<close>) or
  raises, which the outer handler counts as an error. The repository is the function
  \<open>fetch\<close>: \<open>None\<close> is a failed or empty reply. The returned dictionary is also what
  is written to the file \<^verbatim>\<open><record_id>_corrected.json\<close>.
\<close>

record correction_metadata =
  original_record_id :: string
  correction_date :: string
  corrections_applied :: nat
  qa_report_source :: string
  corrections_summary :: corrections_map

record corrected_data =
  corrected_record :: inis_record
  correction_meta :: correction_metadata
  original_record :: inis_record

definition process_qa_report ::
  "(string \<Rightarrow> string) \<Rightarrow> (string \<Rightarrow> inis_record option) \<Rightarrow> string \<Rightarrow> processor_stats \<Rightarrow> string \<Rightarrow>
   qa_report option \<Rightarrow> processor_stats \<times> corrected_data option" where
  "process_qa_report lower fetch now stats report_path loaded =
     (case loaded of
        None \<Rightarrow> (stats\<lparr>ps_errors := ps_errors stats + 1\<rparr>, None)
      | Some qa_data \<Rightarrow>
          (if get_str (record_id qa_data) = [] then (stats, None)
           else
             (case fetch (get_str (record_id qa_data)) of
                None \<Rightarrow> (stats, None)
              | Some fetched \<Rightarrow>
                  (case apply_corrections lower qa_data fetched stats of
                     (corrected, n, stats') \<Rightarrow>
                       if n > 0 then
                         (stats'\<lparr>ps_records_corrected := ps_records_corrected stats' + 1\<rparr>,
                          Some \<lparr>corrected_record = corrected,
                                correction_meta =
                                  \<lparr>original_record_id = get_str (record_id qa_data),
                                   correction_date = now,
                                   corrections_applied = n,
                                   qa_report_source = report_path,
                                   corrections_summary = get_corrections qa_data\<rparr>,
                                original_record = fetched\<rparr>)
                       else (stats', None)))))"

section \<open>The applier: matchers\<close>

text \<open>
  The applier has its own matchers. Its affiliation matcher runs over the creators and
  their affiliation entries first; for each entry it reads the name once and then runs over
  all corrections, comparing each old name with the name read before the loop.
\<close>

definition applier_apply_title_correction ::
  "inis_record \<Rightarrow> string \<Rightarrow> inis_record \<times> bool" where
  "applier_apply_title_correction record_data new_title =
     (let m = (case metadata record_data of None \<Rightarrow> empty_meta | Some m \<Rightarrow> m)
      in (record_data\<lparr>metadata := Some (m\<lparr>title := Some new_title\<rparr>)\<rparr>, True))"

fun affiliation_scan ::
  "string \<Rightarrow> affiliation_correction list \<Rightarrow> affiliation \<Rightarrow> nat \<Rightarrow> affiliation \<times> nat" where
  "affiliation_scan current_name [] a n = (a, n)"
| "affiliation_scan current_name (k # ks) a n =
     (let old_aff = get_str (old_affiliation k);
          new_aff = get_str (recommended_affiliation k)
      in if current_name = old_aff \<and> new_aff \<noteq> []
         then affiliation_scan current_name ks (a\<lparr>aff_name := Some new_aff\<rparr>) (n + 1)
         else affiliation_scan current_name ks a n)"

fun affiliations_scan ::
  "affiliation_correction list \<Rightarrow> affiliation list \<Rightarrow> nat \<Rightarrow> affiliation list \<times> nat" where
  "affiliations_scan ks [] n = ([], n)"
| "affiliations_scan ks (a # affs) n =
     (let (a', n1) = affiliation_scan (get_str (aff_name a)) ks a n;
          (affs', n2) = affiliations_scan ks affs n1
      in (a' # affs', n2))"

fun creators_scan ::
  "affiliation_correction list \<Rightarrow> creator list \<Rightarrow> nat \<Rightarrow> creator list \<times> nat" where
  "creators_scan ks [] n = ([], n)"
| "creators_scan ks (c # cs) n =
     (case affiliations c of
        None \<Rightarrow> (let (cs', n') = creators_scan ks cs n in (c # cs', n'))
      | Some affs \<Rightarrow>
          (let (affs', n1) = affiliations_scan ks affs n;
               (cs', n2) = creators_scan ks cs n1
           in (c\<lparr>affiliations := Some affs'\<rparr> # cs', n2)))"

definition applier_affiliation_corrections_applied ::
  "inis_record \<Rightarrow> affiliation_correction list \<Rightarrow> inis_record \<times> nat" where
  "applier_affiliation_corrections_applied record_data corrs =
     (case metadata record_data of
        None \<Rightarrow> (record_data, 0)
      | Some m \<Rightarrow>
          (case creators m of
             None \<Rightarrow> (record_data, 0)
           | Some cs \<Rightarrow>
               (let (cs', applied_count) = creators_scan corrs cs 0
                in (record_data\<lparr>metadata := Some (m\<lparr>creators := Some cs'\<rparr>)\<rparr>,
                    applied_count))))"

definition applier_apply_affiliation_corrections ::
  "inis_record \<Rightarrow> affiliation_correction list \<Rightarrow> inis_record \<times> bool" where
  "applier_apply_affiliation_corrections record_data corrs =
     (let (record', applied_count) = applier_affiliation_corrections_applied record_data corrs
      in (record', applied_count > 0))"

text \<open>
  The organizational-author matcher looks only at creators whose
  \<^verbatim>\<open>person_or_org.type\<close> is \<^verbatim>\<open>"organizational"\<close>.
\<close>

fun org_scan ::
  "string \<Rightarrow> organizational_author_correction list \<Rightarrow> person \<Rightarrow> nat \<Rightarrow> person \<times> nat" where
  "org_scan current_name [] p n = (p, n)"
| "org_scan current_name (k # ks) p n =
     (let old_org = get_str (old_organizational_author k);
          new_org = get_str (recommended_organizational_author k)
      in if current_name = old_org \<and> new_org \<noteq> []
         then org_scan current_name ks (p\<lparr>po_name := Some new_org\<rparr>) (n + 1)
         else org_scan current_name ks p n)"

fun org_creators_scan ::
  "organizational_author_correction list \<Rightarrow> creator list \<Rightarrow> nat \<Rightarrow> creator list \<times> nat" where
  "org_creators_scan ks [] n = ([], n)"
| "org_creators_scan ks (c # cs) n =
     (case person_or_org c of
        None \<Rightarrow> (let (cs', n') = org_creators_scan ks cs n in (c # cs', n'))
      | Some p \<Rightarrow>
          if po_type p = Some ''organizational''
          then (let (p', n1) = org_scan (get_str (po_name p)) ks p n;
                    (cs', n2) = org_creators_scan ks cs n1
                in (c\<lparr>person_or_org := Some p'\<rparr> # cs', n2))
          else (let (cs', n') = org_creators_scan ks cs n in (c # cs', n')))"

definition apply_organizational_author_corrections ::
  "inis_record \<Rightarrow> organizational_author_correction list \<Rightarrow> inis_record \<times> bool" where
  "apply_organizational_author_corrections record_data corrs =
     (case metadata record_data of
        None \<Rightarrow> (record_data, False)
      | Some m \<Rightarrow>
          (case creators m of
             None \<Rightarrow> (record_data, False)
           | Some cs \<Rightarrow>
               (let (cs', applied_count) = org_creators_scan corrs cs 0
                in (record_data\<lparr>metadata := Some (m\<lparr>creators := Some cs'\<rparr>)\<rparr>,
                    applied_count > 0))))"

definition mark_qa_checked :: "inis_record \<Rightarrow> inis_record" where
  "mark_qa_checked record_data =
     (let cf = (case custom_fields record_data of None \<Rightarrow> empty_custom | Some cf \<Rightarrow> cf)
      in record_data\<lparr>custom_fields := Some (cf\<lparr>qa_checked := Some True\<rparr>)\<rparr>)"

section \<open>The applier: talking to the live repository\<close>

text \<open>
  Every request the applier sends is appended to a log. The repository's replies are
  functions of the log up to and including the request answered, so a reply may depend
  on everything sent before: whether the reply to the draft creation carries an
  \<^verbatim>\<open>id\<close>, the draft document returned by the read (\<open>None\<close> for an empty or failed
  reply), and whether the reply to the publish action carries an \<^verbatim>\<open>id\<close>.
\<close>

datatype request =
    POST_draft string
  | GET_draft string
  | PUT_draft string inis_record
  | POST_publish string

record repository =
  draft_reply_has_id :: "request list \<Rightarrow> bool"
  draft_document :: "request list \<Rightarrow> inis_record option"
  publish_reply_has_id :: "request list \<Rightarrow> bool"

record applier_stats =
  as_records_processed :: nat
  as_records_updated :: nat
  as_records_qa_checked_only :: nat
  as_title_corrections :: nat
  as_affiliation_corrections :: nat
  as_organizational_author_corrections :: nat
  as_errors :: nat

record applier =
  dry_run :: bool
  stats :: applier_stats
  sent :: "request list"

definition send :: "request \<Rightarrow> applier \<Rightarrow> applier" where
  "send q ap = ap\<lparr>sent := sent ap @ [q]\<rparr>"

definition count_error :: "applier \<Rightarrow> applier" where
  "count_error ap = ap\<lparr>stats := (stats ap)\<lparr>as_errors := as_errors (stats ap) + 1\<rparr>\<rparr>"

text \<open>
  The correction phase of \<^verbatim>\<open>update_record\<close> on the draft: title, affiliations,
  organizational authors, then the QA-checked marker. It returns the draft, the local
  counter and the statistics.
\<close>

definition correct_draft ::
  "qa_report \<Rightarrow> inis_record \<Rightarrow> applier_stats \<Rightarrow> inis_record \<times> nat \<times> applier_stats" where
  "correct_draft corrections_data full_draft st =
     (let (d1, n1, s1) =
            (case c_title (get_corrections corrections_data) of
               None \<Rightarrow> (full_draft, 0, st)
             | Some new_title \<Rightarrow>
                 (case applier_apply_title_correction full_draft new_title of
                    (d, ok) \<Rightarrow>
                      if ok then (d, 1, st\<lparr>as_title_corrections := as_title_corrections st + 1\<rparr>)
                      else (d, 0, st)));
          aff_corrections = get_list (affiliation_corrections corrections_data);
          (d2, n2, s2) =
            (if aff_corrections = [] then (d1, n1, s1)
             else
               (case applier_apply_affiliation_corrections d1 aff_corrections of
                  (d, ok) \<Rightarrow>
                    if ok then (d, n1 + 1, s1\<lparr>as_affiliation_corrections :=
                                                as_affiliation_corrections s1 + 1\<rparr>)
                    else (d, n1, s1)));
          org_corrections = get_list (organizational_author_corrections corrections_data);
          (d3, n3, s3) =
            (if org_corrections = [] then (d2, n2, s2)
             else
               (case apply_organizational_author_corrections d2 org_corrections of
                  (d, ok) \<Rightarrow>
                    if ok then (d, n2 + 1, s2\<lparr>as_organizational_author_corrections :=
                                                as_organizational_author_corrections s2 + 1\<rparr>)
                    else (d, n2, s2)))
      in (mark_qa_checked d3, n3, s3))"

text \<open>
  The tail shared by \<^verbatim>\<open>update_record\<close> and \<^verbatim>\<open>mark_record_as_qa_checked_only\<close>:
  outside dry-run mode the draft is written back and published; in dry-run mode nothing is
  sent. The flag \<open>only\<close> says whether \<^verbatim>\<open>records_qa_checked_only\<close> is counted too.
\<close>

definition count_updated :: "bool \<Rightarrow> applier \<Rightarrow> applier" where
  "count_updated only ap =
     ap\<lparr>stats := (stats ap)\<lparr>
          as_records_updated := as_records_updated (stats ap) + 1,
          as_records_qa_checked_only :=
            (if only then as_records_qa_checked_only (stats ap) + 1
             else as_records_qa_checked_only (stats ap))\<rparr>\<rparr>"

definition store_and_publish ::
  "repository \<Rightarrow> bool \<Rightarrow> string \<Rightarrow> inis_record \<Rightarrow> applier \<Rightarrow> applier \<times> bool" where
  "store_and_publish repo only rid full_draft ap =
     (if \<not> dry_run ap then
        (let ap1 = send (PUT_draft rid full_draft) ap;
             ap2 = send (POST_publish rid) ap1
         in if publish_reply_has_id repo (sent ap2) then (count_updated only ap2, True)
            else (count_error ap2, False))
      else (count_updated only ap, True))"

text \<open>
  Both entry points return the applier, the boolean result and the draft document as it
  is when the function ends (\<open>None\<close> when no draft was obtained).
\<close>

definition open_draft :: "repository \<Rightarrow> string \<Rightarrow> applier \<Rightarrow> applier \<times> inis_record option" where
  "open_draft repo rid ap =
     (let ap0 = ap\<lparr>stats := (stats ap)\<lparr>as_records_processed :=
                                          as_records_processed (stats ap) + 1\<rparr>\<rparr>;
          ap1 = send (POST_draft rid) ap0
      in if \<not> draft_reply_has_id repo (sent ap1) then (count_error ap1, None)
         else
           (let ap2 = send (GET_draft rid) ap1
            in case draft_document repo (sent ap2) of
                 None \<Rightarrow> (count_error ap2, None)
               | Some full_draft \<Rightarrow> (ap2, Some full_draft)))"

definition update_record ::
  "repository \<Rightarrow> string \<Rightarrow> qa_report \<Rightarrow> applier \<Rightarrow> applier \<times> bool \<times> inis_record option" where
  "update_record repo rid corrections_data ap =
     (case open_draft repo rid ap of
        (ap1, None) \<Rightarrow> (ap1, False, None)
      | (ap1, Some full_draft) \<Rightarrow>
          (case correct_draft corrections_data full_draft (stats ap1) of
             (d, applied, st) \<Rightarrow>
               (case store_and_publish repo False rid d (ap1\<lparr>stats := st\<rparr>) of
                  (ap2, ok) \<Rightarrow> (ap2, ok, Some d))))"

definition mark_record_as_qa_checked_only ::
  "repository \<Rightarrow> string \<Rightarrow> applier \<Rightarrow> applier \<times> bool \<times> inis_record option" where
  "mark_record_as_qa_checked_only repo rid ap =
     (case open_draft repo rid ap of
        (ap1, None) \<Rightarrow> (ap1, False, None)
      | (ap1, Some full_draft) \<Rightarrow>
          (case store_and_publish repo True rid (mark_qa_checked full_draft) ap1 of
             (ap2, ok) \<Rightarrow> (ap2, ok, Some (mark_qa_checked full_draft))))"

text \<open>
  The loop body of \<^verbatim>\<open>process_qa_folder\<close> for one file: a file that is not valid
  JSON counts an error, a report without a record id is skipped, and the report goes to
  \<^verbatim>\<open>update_record\<close> when it has a title correction or a non-empty affiliation or
  organizational-author list, to \<^verbatim>\<open>mark_record_as_qa_checked_only\<close> otherwise.
\<close>

definition has_applicable_corrections :: "qa_report \<Rightarrow> bool" where
  "has_applicable_corrections report_data =
     (c_title (get_corrections report_data) \<noteq> None
      \<or> get_list (affiliation_corrections report_data) \<noteq> []
      \<or> get_list (organizational_author_corrections report_data) \<noteq> [])"

definition process_report_file ::
  "repository \<Rightarrow> qa_report option \<Rightarrow> applier \<Rightarrow> applier \<times> inis_record option" where
  "process_report_file repo loaded ap =
     (case loaded of
        None \<Rightarrow> (count_error ap, None)
      | Some report_data \<Rightarrow>
          (let rid = get_str (record_id report_data)
           in if rid = [] then (ap, None)
              else if has_applicable_corrections report_data
              then (case update_record repo rid report_data ap of (ap', ok, d) \<Rightarrow> (ap', d))
              else (case mark_record_as_qa_checked_only repo rid ap of
                      (ap', ok, d) \<Rightarrow> (ap', d))))"

fun process_files :: "repository \<Rightarrow> qa_report option list \<Rightarrow> applier \<Rightarrow> applier" where
  "process_files repo [] ap = ap"
| "process_files repo (f # fs) ap = process_files repo fs (fst (process_report_file repo f ap))"

definition process_qa_folder ::
  "repository \<Rightarrow> qa_report option list option \<Rightarrow> applier \<Rightarrow> applier \<times> bool" where
  "process_qa_folder repo qa_folder ap =
     (case qa_folder of
        None \<Rightarrow> (ap, False)
      | Some json_files \<Rightarrow>
          if json_files = [] then (ap, False)
          else (process_files repo json_files ap, True))"

section \<open>The checker: future publication dates\<close>

text \<open>
  A naive \<^verbatim>\<open>datetime\<close> value; Python compares two of them field by field, from the
  year down to the microsecond.
\<close>

record datetime =
  dt_year :: nat
  dt_month :: nat
  dt_day :: nat
  dt_hour :: nat
  dt_minute :: nat
  dt_second :: nat
  dt_microsecond :: nat

fun lex_less :: "nat list \<Rightarrow> nat list \<Rightarrow> bool" where
  "lex_less (x # xs) (y # ys) = (x < y \<or> (x = y \<and> lex_less xs ys))"
| "lex_less xs ys = False"

definition dt_fields :: "datetime \<Rightarrow> nat list" where
  "dt_fields d = [dt_year d, dt_month d, dt_day d, dt_hour d, dt_minute d, dt_second d,
     dt_microsecond d]"

definition later :: "datetime \<Rightarrow> datetime \<Rightarrow> bool" where
  "later a b = lex_less (dt_fields b) (dt_fields a)"

text \<open>
  The date string handed to \<^verbatim>\<open>datetime.strptime\<close> is a Python \<^verbatim>\<open>str\<close>, a
  sequence of Unicode code points, and is modelled as the list of their numbers:
  the hyphen is 45, the space 32, the digits \<^verbatim>\<open>0\<close> to \<^verbatim>\<open>9\<close> are 48 to 57.
  \<open>ascii\<close> gives the code points of a literal.
\<close>

type_synonym ustring = "nat list"

definition ascii :: "string \<Rightarrow> ustring" where
  "ascii s = map of_char s"

text \<open>
  \<^verbatim>\<open>datetime.strptime\<close> for the two formats the checker uses. The library turns
  each directive into a regular expression and converts the matched text with
  \<^verbatim>\<open>int\<close>:

  \<^item> \<^verbatim>\<open>%Y\<close> is \<^verbatim>\<open>\d\d\d\d\<close>;
  \<^item> \<^verbatim>\<open>%m\<close> is \<^verbatim>\<open>1[0-2]|0[1-9]|[1-9]\<close>;
  \<^item> \<^verbatim>\<open>%d\<close> is \<^verbatim>\<open>3[0-1]|[1-2]\d|0[1-9]|[1-9]| [1-9]\<close>.

  A bracketed class holds ASCII digits only, whereas \<^verbatim>\<open>\d\<close> matches every
  character of the Unicode category of decimal digits, and \<^verbatim>\<open>int\<close> reads each
  such character as its digit value. That table of the Unicode database is the
  parameter \<open>decimal\<close>: \<open>decimal c\<close> is the digit value of the code point \<open>c\<close> when
  it is a decimal digit, and \<open>None\<close> otherwise. The whole string must be consumed,
  the year must be at least 1 and the day must exist in the month; anything else
  raises \<^verbatim>\<open>ValueError\<close>, which is \<open>None\<close> here. The time of day of a parsed date
  is midnight.
\<close>

definition parse_year :: "(nat \<Rightarrow> nat option) \<Rightarrow> ustring \<Rightarrow> nat option" where
  "parse_year decimal tok =
     (case tok of
        [a, b, c, d] \<Rightarrow>
          (case (decimal a, decimal b, decimal c, decimal d) of
             (Some a', Some b', Some c', Some d') \<Rightarrow> Some (1000 * a' + 100 * b' + 10 * c' + d')
           | _ \<Rightarrow> None)
      | _ \<Rightarrow> None)"

definition parse_month :: "ustring \<Rightarrow> nat option" where
  "parse_month tok =
     (case tok of
        [a] \<Rightarrow> if 49 \<le> a \<and> a \<le> 57 then Some (a - 48) else None
      | [a, b] \<Rightarrow>
          if a = 49 \<and> 48 \<le> b \<and> b \<le> 50 then Some (10 + (b - 48))
          else if a = 48 \<and> 49 \<le> b \<and> b \<le> 57 then Some (b - 48)
          else None
      | _ \<Rightarrow> None)"

definition parse_day :: "(nat \<Rightarrow> nat option) \<Rightarrow> ustring \<Rightarrow> nat option" where
  "parse_day decimal tok =
     (case tok of
        [a] \<Rightarrow> if 49 \<le> a \<and> a \<le> 57 then Some (a - 48) else None
      | [a, b] \<Rightarrow>
          if a = 51 \<and> 48 \<le> b \<and> b \<le> 49 then Some (30 + (b - 48))
          else if a = 49 \<or> a = 50
            then (case decimal b of Some v \<Rightarrow> Some (10 * (a - 48) + v) | None \<Rightarrow> None)
          else if (a = 48 \<or> a = 32) \<and> 49 \<le> b \<and> b \<le> 57 then Some (b - 48)
          else None
      | _ \<Rightarrow> None)"

definition is_leap :: "nat \<Rightarrow> bool" where
  "is_leap y = (y mod 4 = 0 \<and> (y mod 100 \<noteq> 0 \<or> y mod 400 = 0))"

definition days_in_month :: "nat \<Rightarrow> nat \<Rightarrow> nat" where
  "days_in_month y m =
     (if m = 2 then (if is_leap y then 29 else 28)
      else if m = 4 \<or> m = 6 \<or> m = 9 \<or> m = 11 then 30 else 31)"

definition midnight :: "nat \<Rightarrow> nat \<Rightarrow> nat \<Rightarrow> datetime" where
  "midnight y m d =
     \<lparr>dt_year = y, dt_month = m, dt_day = d, dt_hour = 0, dt_minute = 0, dt_second = 0,
      dt_microsecond = 0\<rparr>"

definition make_date :: "nat \<Rightarrow> nat \<Rightarrow> nat \<Rightarrow> datetime option" where
  "make_date y m d =
     (if 1 \<le> y \<and> y \<le> 9999 \<and> 1 \<le> m \<and> m \<le> 12 \<and> 1 \<le> d \<and> d \<le> days_in_month y m
      then Some (midnight y m d) else None)"

definition strptime_ym :: "(nat \<Rightarrow> nat option) \<Rightarrow> ustring \<Rightarrow> datetime option" where
  "strptime_ym decimal s =
     (if length s < 5 \<or> s ! 4 \<noteq> 45 then None
      else
        (case parse_year decimal (take 4 s) of
           None \<Rightarrow> None
         | Some y \<Rightarrow>
             (case parse_month (drop 5 s) of
                None \<Rightarrow> None
              | Some m \<Rightarrow> make_date y m 1)))"

definition split_month_day :: "ustring \<Rightarrow> (ustring \<times> ustring) option" where
  "split_month_day rest =
     (if 2 \<le> length rest \<and> rest ! 1 = 45 then Some (take 1 rest, drop 2 rest)
      else if 3 \<le> length rest \<and> rest ! 2 = 45 then Some (take 2 rest, drop 3 rest)
      else None)"

definition strptime_ymd :: "(nat \<Rightarrow> nat option) \<Rightarrow> ustring \<Rightarrow> datetime option" where
  "strptime_ymd decimal s =
     (if length s < 5 \<or> s ! 4 \<noteq> 45 then None
      else
        (case parse_year decimal (take 4 s) of
           None \<Rightarrow> None
         | Some y \<Rightarrow>
             (case split_month_day (drop 5 s) of
                None \<Rightarrow> None
              | Some (mtok, dtok) \<Rightarrow>
                  (case parse_month mtok of
                     None \<Rightarrow> None
                   | Some m \<Rightarrow>
                       (case parse_day decimal dtok of
                          None \<Rightarrow> None
                        | Some d \<Rightarrow> make_date y m d)))))"

text \<open>
  \<^verbatim>\<open>is_future_date\<close>, with the current moment \<^verbatim>\<open>datetime.now()\<close> as the
  argument \<open>now\<close>, and the block of \<^verbatim>\<open>qa_check\<close> that turns it into a
  recommendation; \<open>pub_date\<close> is the value of
  \<^verbatim>\<open>rec.get("metadata", {}).get("publication_date")\<close>, \<open>None\<close> when a key is
  absent.
\<close>

definition is_future_date :: "(nat \<Rightarrow> nat option) \<Rightarrow> datetime \<Rightarrow> ustring \<Rightarrow> bool" where
  "is_future_date decimal now date_str =
     (case strptime_ymd decimal date_str of
        Some d \<Rightarrow> later d now
      | None \<Rightarrow>
          (case strptime_ym decimal date_str of
             Some d \<Rightarrow> later d now
           | None \<Rightarrow> False))"

definition future_date_recommendations ::
  "(nat \<Rightarrow> nat option) \<Rightarrow> datetime \<Rightarrow> ustring option \<Rightarrow> ustring list" where
  "future_date_recommendations decimal now pub_date =
     (case pub_date of
        None \<Rightarrow> []
      | Some p \<Rightarrow>
          if p \<noteq> [] \<and> is_future_date decimal now p
          then [ascii ''Publication date is in the future: '' @ p]
          else [])"

section \<open>The report aggregator\<close>

text \<open>
  \<^verbatim>\<open>create_summary_report\<close> reads every report file of a folder. A file either loads
  as a report, or raises \<^verbatim>\<open>JSONDecodeError\<close>, or raises something else; the two
  failures carry the text of the exception. The dictionaries built with
  \<^verbatim>\<open>defaultdict(list)\<close> are maps in which a missing key reads as the empty list.
\<close>

datatype load_result = Loaded qa_report | JSON_error string | Read_error string

record report_file =
  file_name :: string
  file_content :: load_result

record summary =
  sm_records_checked :: nat
  sm_title_corrections :: nat
  sm_affiliation_corrections :: nat
  sm_organizational_author_corrections :: nat
  sm_abstract_corrections :: nat
  sm_descriptor_corrections :: nat
  sm_date_corrections :: nat
  sm_errors :: nat

record report_data =
  rd_summary :: summary
  rd_duplicates :: "string set"
  rd_out_of_scope :: "string set"
  rd_suspicious_content :: "string set"
  rd_historical_context :: "string set"
  rd_descriptor_deletions :: "string \<rightharpoonup> string list"
  rd_abstract_recommendations :: "string \<rightharpoonup> string"
  rd_general_recommendations :: "string \<rightharpoonup> string list"
  rd_corrections_summary :: "string \<rightharpoonup> string list"
  rd_errors :: "string list"

definition initial_report_data :: report_data where
  "initial_report_data =
     \<lparr>rd_summary = \<lparr>sm_records_checked = 0, sm_title_corrections = 0,
          sm_affiliation_corrections = 0, sm_organizational_author_corrections = 0,
          sm_abstract_corrections = 0, sm_descriptor_corrections = 0,
          sm_date_corrections = 0, sm_errors = 0\<rparr>,
       rd_duplicates = {}, rd_out_of_scope = {}, rd_suspicious_content = {},
       rd_historical_context = {}, rd_descriptor_deletions = Map.empty,
       rd_abstract_recommendations = Map.empty, rd_general_recommendations = Map.empty,
       rd_corrections_summary = Map.empty, rd_errors = []\<rparr>"

definition dd_extend :: "(string \<rightharpoonup> string list) \<Rightarrow> string \<Rightarrow> string list \<Rightarrow> (string \<rightharpoonup> string list)" where
  "dd_extend m k xs = m(k \<mapsto> get_list (m k) @ xs)"

fun dd_append_all :: "(string \<rightharpoonup> string list) \<Rightarrow> string \<Rightarrow> string list \<Rightarrow> (string \<rightharpoonup> string list)" where
  "dd_append_all m k [] = m"
| "dd_append_all m k (x # xs) = dd_append_all (dd_extend m k [x]) k xs"

text \<open>
  \<^verbatim>\<open>filepath.stem.replace("-report", "")\<close>: the files come from the pattern
  \<^verbatim>\<open>*-report.json\<close>, so the stem is the name without its last five characters.
\<close>

fun remove_report :: "string \<Rightarrow> string" where
  "remove_report [] = []"
| "remove_report (c # cs) =
     (if take 7 (c # cs) = ''-report'' then remove_report (drop 6 cs)
      else c # remove_report cs)"

definition stem :: "string \<Rightarrow> string" where
  "stem name = take (length name - 5) name"

text \<open>
  The contribution of one loaded report. The typed corrections mapping keeps neither the
  order of its keys nor how Python prints a value, so the pairs of
  \<^verbatim>\<open>corrections.items()\<close>, each value already printed, are given by the parameter
  \<open>items\<close>.
\<close>

definition bump :: "bool \<Rightarrow> nat \<Rightarrow> nat" where
  "bump b n = (if b then n + 1 else n)"

definition count_corrections :: "qa_report \<Rightarrow> summary \<Rightarrow> summary" where
  "count_corrections data sm =
     sm\<lparr>sm_records_checked := sm_records_checked sm + 1,
        sm_title_corrections := bump (title_corrected data) (sm_title_corrections sm),
        sm_abstract_corrections := bump (abstract_corrected data) (sm_abstract_corrections sm),
        sm_descriptor_corrections :=
          bump (descriptor_corrected data) (sm_descriptor_corrections sm),
        sm_date_corrections := bump (date_corrected data) (sm_date_corrections sm),
        sm_affiliation_corrections :=
          (if affiliation_correction_recommended data
           then sm_affiliation_corrections sm + length (get_list (affiliation_corrections data))
           else sm_affiliation_corrections sm),
        sm_organizational_author_corrections :=
          sm_organizational_author_corrections sm
            + length (get_list (organizational_author_corrections data))\<rparr>"

definition add_report ::
  "(corrections_map \<Rightarrow> (string \<times> string) list) \<Rightarrow> string \<Rightarrow> qa_report \<Rightarrow>
   report_data \<Rightarrow> report_data" where
  "add_report items name data rd =
     (let rid = (case record_id data of None \<Rightarrow> remove_report (stem name) | Some r \<Rightarrow> r);
          corrs = get_corrections data
      in rd\<lparr>rd_summary := count_corrections data (rd_summary rd),
            rd_out_of_scope :=
              (if scope_ok data = Some False then insert rid (rd_out_of_scope rd)
               else rd_out_of_scope rd),
            rd_duplicates :=
              (if duplicate_by_title data \<or> duplicate_by_doi data
               then insert rid (rd_duplicates rd) else rd_duplicates rd),
            rd_suspicious_content :=
              (if suspicious_content data then insert rid (rd_suspicious_content rd)
               else rd_suspicious_content rd),
            rd_historical_context :=
              (if historical_context_required data then insert rid (rd_historical_context rd)
               else rd_historical_context rd),
            rd_descriptor_deletions :=
              (case c_delete_descriptor corrs of
                 None \<Rightarrow> rd_descriptor_deletions rd
               | Some (Inl d) \<Rightarrow> dd_extend (rd_descriptor_deletions rd) rid [d]
               | Some (Inr ds) \<Rightarrow> dd_extend (rd_descriptor_deletions rd) rid ds),
            rd_abstract_recommendations :=
              (case c_abstract corrs of
                 None \<Rightarrow> rd_abstract_recommendations rd
               | Some a \<Rightarrow>
                   if abstract_corrected data then (rd_abstract_recommendations rd)(rid \<mapsto> a)
                   else rd_abstract_recommendations rd),
            rd_general_recommendations :=
              dd_append_all (rd_general_recommendations rd) rid
                (get_list (recommendations data)),
            rd_corrections_summary :=
              dd_append_all (rd_corrections_summary rd) rid
                (map (\<lambda>(key, v). key @ '': '' @ v)
                   (filter (\<lambda>(key, v). key \<noteq> ''delete_descriptor'' \<and> key \<noteq> ''abstract'')
                      (items corrs)))\<rparr>)"

definition add_error :: "string \<Rightarrow> report_data \<Rightarrow> report_data" where
  "add_error msg rd =
     rd\<lparr>rd_errors := rd_errors rd @ [msg],
        rd_summary := (rd_summary rd)\<lparr>sm_errors := sm_errors (rd_summary rd) + 1\<rparr>\<rparr>"

definition scan_file ::
  "(corrections_map \<Rightarrow> (string \<times> string) list) \<Rightarrow> report_file \<Rightarrow> report_data \<Rightarrow> report_data" where
  "scan_file items f rd =
     (case file_content f of
        JSON_error e \<Rightarrow> add_error (''Could not parse '' @ file_name f @ '': '' @ e) rd
      | Read_error e \<Rightarrow> add_error (''Error reading '' @ file_name f @ '': '' @ e) rd
      | Loaded data \<Rightarrow> add_report items (file_name f) data rd)"

fun scan_files ::
  "(corrections_map \<Rightarrow> (string \<times> string) list) \<Rightarrow> report_file list \<Rightarrow> report_data \<Rightarrow> report_data" where
  "scan_files items [] rd = rd"
| "scan_files items (f # fs) rd = scan_files items fs (scan_file items f rd)"

definition create_summary_report ::
  "(corrections_map \<Rightarrow> (string \<times> string) list) \<Rightarrow> report_file list option \<Rightarrow> report_data option" where
  "create_summary_report items qa_folder =
     (case qa_folder of
        None \<Rightarrow> None
      | Some report_files \<Rightarrow> Some (scan_files items report_files initial_report_data))"

section \<open>Observations on documents\<close>

text \<open>
  Functions that read a document the way the code does, used to state what the operations
  change, and small documents to run the operations on.
\<close>

definition rename :: "string \<Rightarrow> string \<Rightarrow> string \<Rightarrow> string" where
  "rename old new x = (if x = old then new else x)"

definition creators_names :: "creator list \<Rightarrow> string list" where
  "creators_names cs = concat (map creator_affiliation_names cs)"

fun scan_name :: "string \<Rightarrow> affiliation_correction list \<Rightarrow> string \<Rightarrow> string" where
  "scan_name cur [] x = x"
| "scan_name cur (k # ks) x =
     (if cur = get_str (old_affiliation k) \<and> get_str (recommended_affiliation k) \<noteq> []
      then scan_name cur ks (get_str (recommended_affiliation k))
      else scan_name cur ks x)"

definition named :: "string \<Rightarrow> affiliation" where
  "named n = \<lparr>aff_id = None, aff_name = Some n\<rparr>"

definition record_of_affiliations :: "string list \<Rightarrow> inis_record" where
  "record_of_affiliations names =
     \<lparr>rec_id = Some ''abcde-12345'',
      metadata = Some (empty_meta\<lparr>creators :=
        Some [\<lparr>person_or_org = None, affiliations = Some (map named names)\<rparr>]\<rparr>),
      custom_fields = None\<rparr>"

definition pair :: "string \<Rightarrow> string \<Rightarrow> affiliation_correction" where
  "pair old new = \<lparr>old_affiliation = Some old, recommended_affiliation = Some new\<rparr>"

definition related_identifiers_of :: "inis_record \<Rightarrow> rel_ident list" where
  "related_identifiers_of record =
     (case metadata record of None \<Rightarrow> [] | Some m \<Rightarrow> get_list (related_identifiers m))"

definition existing_identifiers :: "inis_record \<Rightarrow> string list" where
  "existing_identifiers record =
     map (\<lambda>ri. get_str (ri_identifier ri)) (related_identifiers_of record)"

definition title_of :: "inis_record \<Rightarrow> string option" where
  "title_of r = (case metadata r of None \<Rightarrow> None | Some m \<Rightarrow> title m)"
definition description_of :: "inis_record \<Rightarrow> string option" where
  "description_of r = (case metadata r of None \<Rightarrow> None | Some m \<Rightarrow> description m)"
definition publication_date_of :: "inis_record \<Rightarrow> string option" where
  "publication_date_of r = (case metadata r of None \<Rightarrow> None | Some m \<Rightarrow> publication_date m)"
definition creators_of :: "inis_record \<Rightarrow> creator list option" where
  "creators_of r = (case metadata r of None \<Rightarrow> None | Some m \<Rightarrow> creators m)"

definition has_metadata :: "inis_record \<Rightarrow> bool" where
  "has_metadata r = (metadata r \<noteq> None)"

definition deletion_list :: "string + string list \<Rightarrow> string list" where
  "deletion_list v = (case v of Inl d \<Rightarrow> [d] | Inr ds \<Rightarrow> ds)"

definition identifier_list :: "rel_ident + rel_ident list \<Rightarrow> rel_ident list" where
  "identifier_list v = (case v of Inl i \<Rightarrow> [i] | Inr is \<Rightarrow> is)"

definition record_of_descriptors :: "string list \<Rightarrow> inis_record" where
  "record_of_descriptors ds =
     \<lparr>rec_id = Some ''abcde-12345'', metadata = Some empty_meta,
      custom_fields = Some (empty_custom\<lparr>descriptors_cai_text := Some ds\<rparr>)\<rparr>"

definition doi :: "string \<Rightarrow> rel_ident" where
  "doi x = \<lparr>ri_identifier = Some x, ri_scheme = Some ''doi'', ri_relation_type = None\<rparr>"

definition record_of_identifiers :: "rel_ident list \<Rightarrow> inis_record" where
  "record_of_identifiers ris =
     \<lparr>rec_id = Some ''abcde-12345'',
      metadata = Some (empty_meta\<lparr>related_identifiers := Some ris\<rparr>),
      custom_fields = None\<rparr>"

definition empty_report :: qa_report where
  "empty_report =
     \<lparr>record_id = Some ''abcde-12345'', title_corrected = False, abstract_corrected = False,
      descriptor_corrected = False, date_corrected = False,
      affiliation_correction_recommended = False, scope_ok = None,
      duplicate_by_title = False, duplicate_by_doi = False, suspicious_content = False,
      historical_context_required = False, corrections = None,
      affiliation_corrections = None, organizational_author_corrections = None,
      recommendations = None\<rparr>"

definition zero_stats :: processor_stats where
  "zero_stats =
     \<lparr>ps_records_processed = 0, ps_records_corrected = 0, ps_title_corrections = 0,
      ps_affiliation_corrections = 0, ps_abstract_corrections = 0,
      ps_descriptor_corrections = 0, ps_date_corrections = 0, ps_errors = 0\<rparr>"

definition example_report :: qa_report where
  "example_report =
     empty_report\<lparr>title_corrected := True, affiliation_correction_recommended := True,
       corrections := Some (empty_corrections\<lparr>c_title := Some ''New Title'',
         c_related_identifiers := Some (Inr [doi ''10.1/x'', doi ''10.1/y''])\<rparr>),
       affiliation_corrections := Some [pair ''A'' ''B'']\<rparr>"

definition zero_applier_stats :: applier_stats where
  "zero_applier_stats =
     \<lparr>as_records_processed = 0, as_records_updated = 0, as_records_qa_checked_only = 0,
      as_title_corrections = 0, as_affiliation_corrections = 0,
      as_organizational_author_corrections = 0, as_errors = 0\<rparr>"

definition qa_checked_of :: "inis_record \<Rightarrow> bool option" where
  "qa_checked_of r = (case custom_fields r of None \<Rightarrow> None | Some cf \<Rightarrow> qa_checked cf)"

definition unflagged_report :: qa_report where
  "unflagged_report =
     empty_report\<lparr>corrections := Some (empty_corrections\<lparr>c_title := Some ''New Title'',
         c_related_identifiers := Some (Inr [doi ''10.1/x'', doi ''10.1/y''])\<rparr>),
       affiliation_corrections := Some [pair ''A'' ''B'']\<rparr>"

definition writes_back :: "request \<Rightarrow> bool" where
  "writes_back q = (case q of PUT_draft _ _ \<Rightarrow> True | POST_publish _ \<Rightarrow> True | _ \<Rightarrow> False)"

definition repository_ok :: "inis_record \<Rightarrow> repository" where
  "repository_ok d =
     \<lparr>draft_reply_has_id = (\<lambda>log. True), draft_document = (\<lambda>log. Some d),
      publish_reply_has_id = (\<lambda>log. True)\<rparr>"

definition new_applier :: "bool \<Rightarrow> applier" where
  "new_applier dry = \<lparr>dry_run = dry, stats = zero_applier_stats, sent = []\<rparr>"

definition unchecked_record :: inis_record where
  "unchecked_record =
     \<lparr>rec_id = Some ''abcde-12345'',
      metadata = Some (empty_meta\<lparr>title := Some ''Old Title''\<rparr>),
      custom_fields = Some (empty_custom\<lparr>qa_checked := Some False\<rparr>)\<rparr>"

definition title_report :: qa_report where
  "title_report =
     empty_report\<lparr>title_corrected := True,
       corrections := Some (empty_corrections\<lparr>c_title := Some ''New Title''\<rparr>)\<rparr>"

text \<open>
  The digit table restricted to ASCII, and the property of a digit table that it agrees
  with it on the ASCII range, as the table of the Unicode database does.
\<close>

definition ascii_decimal :: "nat \<Rightarrow> nat option" where
  "ascii_decimal c = (if 48 \<le> c \<and> c \<le> 57 then Some (c - 48) else None)"

definition extends_ascii :: "(nat \<Rightarrow> nat option) \<Rightarrow> bool" where
  "extends_ascii decimal = list_all (\<lambda>c. decimal c = ascii_decimal c) [0..<128]"

text \<open>Dates written out with zero-padded ASCII digits.\<close>

definition digits2 :: "nat \<Rightarrow> ustring" where
  "digits2 n = [48 + n div 10, 48 + n mod 10]"

definition digits4 :: "nat \<Rightarrow> ustring" where
  "digits4 n = digits2 (n div 100) @ digits2 (n mod 100)"

definition iso_date :: "nat \<Rightarrow> nat \<Rightarrow> nat \<Rightarrow> ustring" where
  "iso_date y m d = digits4 y @ [45] @ digits2 m @ [45] @ digits2 d"

definition iso_month :: "nat \<Rightarrow> nat \<Rightarrow> ustring" where
  "iso_month y m = digits4 y @ [45] @ digits2 m"

text \<open>What the constructor \<^verbatim>\<open>datetime(y, m, d)\<close> accepts, at midnight.\<close>

definition valid_date :: "datetime \<Rightarrow> bool" where
  "valid_date d =
     (1 \<le> dt_year d \<and> dt_year d \<le> 9999 \<and> 1 \<le> dt_month d \<and> dt_month d \<le> 12
      \<and> 1 \<le> dt_day d \<and> dt_day d \<le> days_in_month (dt_year d) (dt_month d)
      \<and> dt_hour d = 0 \<and> dt_minute d = 0 \<and> dt_second d = 0 \<and> dt_microsecond d = 0)"

text \<open>
  The ways of writing a month and a day in ASCII that the directives \<^verbatim>\<open>%m\<close> and
  \<^verbatim>\<open>%d\<close> read: two digits, and below ten also the digit alone or, for a day,
  after a space.
\<close>

definition month_forms :: "nat \<Rightarrow> ustring list" where
  "month_forms m = digits2 m # (if m \<le> 9 then [[48 + m]] else [])"

definition day_forms :: "nat \<Rightarrow> ustring list" where
  "day_forms d = digits2 d # (if d \<le> 9 then [[48 + d], [32, 48 + d]] else [])"

text \<open>A string of ASCII characters only.\<close>

definition is_ascii :: "ustring \<Rightarrow> bool" where
  "is_ascii s = list_all (\<lambda>c. c < 128) s"

definition is_loaded :: "report_file \<Rightarrow> bool" where
  "is_loaded f = (case file_content f of Loaded data \<Rightarrow> True | _ \<Rightarrow> False)"

text \<open>Every counter and aggregate of the summary report except the two that record errors.\<close>

definition other_aggregates ::
  "report_data \<Rightarrow>
   (nat \<times> nat \<times> nat \<times> nat \<times> nat \<times> nat \<times> nat) \<times>
   (string set \<times> string set \<times> string set \<times> string set) \<times>
   ((string \<rightharpoonup> string list) \<times> (string \<rightharpoonup> string) \<times>
    (string \<rightharpoonup> string list) \<times> (string \<rightharpoonup> string list))" where
  "other_aggregates rd =
     ((sm_records_checked (rd_summary rd), sm_title_corrections (rd_summary rd),
       sm_affiliation_corrections (rd_summary rd),
       sm_organizational_author_corrections (rd_summary rd),
       sm_abstract_corrections (rd_summary rd), sm_descriptor_corrections (rd_summary rd),
       sm_date_corrections (rd_summary rd)),
      (rd_duplicates rd, rd_out_of_scope rd, rd_suspicious_content rd, rd_historical_context rd),
      (rd_descriptor_deletions rd, rd_abstract_recommendations rd,
       rd_general_recommendations rd, rd_corrections_summary rd))"

definition report_files_example :: "report_file list" where
  "report_files_example =
     [\<lparr>file_name = ''abcde-12345-report.json'', file_content = Loaded title_report\<rparr>,
      \<lparr>file_name = ''broken-report.json'',
       file_content = JSON_error ''Expecting value: line 1 column 1 (char 0)''\<rparr>,
      \<lparr>file_name = ''fghij-67890-report.json'',
       file_content = Loaded (empty_report\<lparr>record_id := None\<rparr>)\<rparr>]"

text \<open>
  A lowercase function to run the matchers on ASCII text: it maps the letters
  \<^verbatim>\<open>A\<close> to \<^verbatim>\<open>Z\<close> to \<^verbatim>\<open>a\<close> to \<^verbatim>\<open>z\<close> and keeps every other character, as
  \<^verbatim>\<open>str.lower\<close> does on strings of ASCII characters. It is used for examples only.
\<close>

definition ascii_lower_char :: "char \<Rightarrow> char" where
  "ascii_lower_char c =
     (if 65 \<le> (of_char c :: nat) \<and> (of_char c :: nat) \<le> 90
      then char_of ((of_char c :: nat) + 32) else c)"

definition ascii_lower :: "string \<Rightarrow> string" where
  "ascii_lower s = map ascii_lower_char s"

definition add_to_list :: "rel_ident list \<Rightarrow> rel_ident \<Rightarrow> rel_ident list" where
  "add_to_list ris x =
     (if get_str (ri_identifier x) \<noteq> []
         \<and> get_str (ri_identifier x) \<notin> set (map (\<lambda>ri. get_str (ri_identifier ri)) ris)
      then ris @ [x] else ris)"

section \<open>Properties of the matchers\<close>

lemma lower_examples: "ascii_lower ''REACTOR'' = ''reactor''" "ascii_lower ''Reactor'' = ''reactor''" "ascii_lower ''Fuel'' = ''fuel''"
  by code_simp+

lemma descriptors_after_deletion:
  "descriptors_of (fst (apply_descriptor_deletions lower record deletions)) =
     filter (\<lambda>d. lower d \<notin> lower ` set deletions) (descriptors_of record)"
  by (simp add: apply_descriptor_deletions_def descriptors_of_def get_list_def Let_def
      split: option.splits)

lemma deletion_result:
  "snd (apply_descriptor_deletions lower record deletions) =
     (length (descriptors_of (fst (apply_descriptor_deletions lower record deletions)))
        < length (descriptors_of record))"
  by (simp add: apply_descriptor_deletions_def descriptors_of_def get_list_def Let_def
      split: option.splits)

lemma deletion_twice:
  "apply_descriptor_deletions lower (fst (apply_descriptor_deletions lower record deletions)) deletions =
     (fst (apply_descriptor_deletions lower record deletions), False)"
  by (auto simp add: apply_descriptor_deletions_def Let_def split: option.splits)

lemma match_affiliations_names:
  "map (\<lambda>a. get_str (aff_name a)) (fst (match_affiliations old new affs n)) =
     map (rename old new) (map (\<lambda>a. get_str (aff_name a)) affs)"
  by (induction affs arbitrary: n) (simp_all add: rename_def get_str_def split_beta)

lemma match_affiliations_count:
  "snd (match_affiliations old new affs n) =
     n + count_list (map (\<lambda>a. get_str (aff_name a)) affs) old"
  by (induction affs arbitrary: n) (simp_all add: split_beta)

lemma match_creators_names:
  "creators_names (fst (match_creators old new cs n)) = map (rename old new) (creators_names cs)"
proof (induction cs arbitrary: n)
  case Nil
  then show ?case by (simp add: creators_names_def)
next
  case (Cons c cs)
  show ?case
  proof (cases "affiliations c")
    case None
    then show ?thesis using Cons.IH [of n]
      by (simp add: creators_names_def creator_affiliation_names_def get_list_def
          split_beta)
  next
    case (Some affs)
    then show ?thesis
      using Cons.IH [of "snd (match_affiliations old new affs n)"]
        match_affiliations_names [of old new affs n]
      by (simp add: creators_names_def creator_affiliation_names_def get_list_def
          split_beta)
  qed
qed

lemma match_creators_count:
  "snd (match_creators old new cs n) = n + count_list (creators_names cs) old"
proof (induction cs arbitrary: n)
  case Nil
  then show ?case by (simp add: creators_names_def)
next
  case (Cons c cs)
  show ?case
  proof (cases "affiliations c")
    case None
    then show ?thesis using Cons.IH [of n]
      by (simp add: creators_names_def creator_affiliation_names_def get_list_def
          split_beta)
  next
    case (Some affs)
    then show ?thesis
      using Cons.IH [of "snd (match_affiliations old new affs n)"]
        match_affiliations_count [of old new affs n]
      by (simp add: creators_names_def creator_affiliation_names_def get_list_def
          split_beta)
  qed
qed

lemma rename_absent: "new \<noteq> old \<Longrightarrow> old \<notin> set (map (rename old new) ns)"
  by (auto simp: rename_def)

lemma rename_keeps_absent: "new \<noteq> nm \<Longrightarrow> nm \<notin> set ns \<Longrightarrow> nm \<notin> set (map (rename old new) ns)"
  by (auto simp: rename_def)

lemma correction_loop_keeps_absent:
  "\<forall>j\<in>set ks. get_str (recommended_affiliation j) \<noteq> nm \<Longrightarrow> nm \<notin> set (creators_names cs)
   \<Longrightarrow> nm \<notin> set (creators_names (fst (correction_loop ks cs n)))"
proof (induction ks arbitrary: cs n)
  case Nil
  then show ?case by simp
next
  case (Cons k ks)
  let ?old = "get_str (old_affiliation k)" and ?new = "get_str (recommended_affiliation k)"
  show ?case
  proof (cases "?old = [] \<or> ?new = []")
    case True
    then show ?thesis using Cons by simp
  next
    case False
    have "nm \<notin> set (creators_names (fst (match_creators ?old ?new cs n)))"
      using Cons.prems rename_keeps_absent [of ?new nm "creators_names cs" ?old]
      by (simp add: match_creators_names)
    then show ?thesis using False Cons.IH Cons.prems(1)
      by (simp add: Let_def split_beta)
  qed
qed

lemma correction_loop_removes:
  "k \<in> set ks \<Longrightarrow> get_str (old_affiliation k) \<noteq> [] \<Longrightarrow> get_str (recommended_affiliation k) \<noteq> []
   \<Longrightarrow> \<forall>j\<in>set ks. get_str (recommended_affiliation j) \<noteq> get_str (old_affiliation k)
   \<Longrightarrow> get_str (old_affiliation k) \<notin> set (creators_names (fst (correction_loop ks cs n)))"
proof (induction ks arbitrary: cs n)
  case Nil
  then show ?case by simp
next
  case (Cons j ks)
  let ?nm = "get_str (old_affiliation k)"
  let ?old = "get_str (old_affiliation j)" and ?new = "get_str (recommended_affiliation j)"
  have rest: "\<forall>i\<in>set ks. get_str (recommended_affiliation i) \<noteq> ?nm"
    using Cons.prems(4) by simp
  show ?case
  proof (cases "j = k")
    case True
    have "?nm \<notin> set (creators_names (fst (match_creators ?old ?new cs n)))"
      using True Cons.prems(4) rename_absent [of ?new ?old "creators_names cs"]
      by (simp add: match_creators_names)
    then have "?nm \<notin> set (creators_names (fst (correction_loop ks
        (fst (match_creators ?old ?new cs n)) (snd (match_creators ?old ?new cs n)))))"
      using rest correction_loop_keeps_absent by blast
    then show ?thesis using True Cons.prems(2,3)
      by (simp add: Let_def split_beta)
  next
    case False
    then have "k \<in> set ks" using Cons.prems(1) by simp
    then show ?thesis using Cons.IH Cons.prems(2,3) rest
      by (simp add: Let_def split_beta)
  qed
qed

lemma affiliation_names_applied:
  "affiliation_names (fst (affiliation_corrections_applied record corrs)) =
     (case metadata record of None \<Rightarrow> []
      | Some m \<Rightarrow> (case creators m of None \<Rightarrow> []
          | Some cs \<Rightarrow> creators_names (fst (correction_loop corrs cs 0))))"
  by (simp add: affiliation_corrections_applied_def affiliation_names_def creators_names_def
      get_list_def split_beta split: option.splits)

lemma affiliation_names_record:
  "affiliation_names record =
     (case metadata record of None \<Rightarrow> []
      | Some m \<Rightarrow> (case creators m of None \<Rightarrow> [] | Some cs \<Rightarrow> creators_names cs))"
  by (simp add: affiliation_names_def creators_names_def get_list_def split: option.splits)

lemma processor_removes:
  "k \<in> set ks \<Longrightarrow> get_str (old_affiliation k) \<noteq> [] \<Longrightarrow> get_str (recommended_affiliation k) \<noteq> []
   \<Longrightarrow> \<forall>j\<in>set ks. get_str (recommended_affiliation j) \<noteq> get_str (old_affiliation k)
   \<Longrightarrow> get_str (old_affiliation k) \<notin> set (affiliation_names (fst (affiliation_corrections_applied record ks)))"
  by (simp add: affiliation_names_applied correction_loop_removes split: option.splits)

lemma processor_single:
  "get_str (old_affiliation k) \<noteq> [] \<Longrightarrow> get_str (recommended_affiliation k) \<noteq> [] \<Longrightarrow>
   affiliation_names (fst (affiliation_corrections_applied record [k])) =
     map (rename (get_str (old_affiliation k)) (get_str (recommended_affiliation k))) (affiliation_names record)
   \<and> snd (affiliation_corrections_applied record [k]) =
       count_list (affiliation_names record) (get_str (old_affiliation k))"
  by (simp add: affiliation_names_applied affiliation_names_record affiliation_corrections_applied_def
      match_creators_names match_creators_count Let_def split_beta split: option.splits)

lemma get_str_simps: "get_str (Some s) = s" "get_str None = []"
  by (simp_all add: get_str_def)

lemma affiliation_scan_name:
  "get_str (aff_name (fst (affiliation_scan cur ks a n))) = scan_name cur ks (get_str (aff_name a))"
proof (induction ks arbitrary: a n)
  case Nil
  then show ?case by simp
next
  case (Cons k ks)
  show ?case
  proof (cases "cur = get_str (old_affiliation k) \<and> get_str (recommended_affiliation k) \<noteq> []")
    case True
    have "affiliation_scan cur (k # ks) a n =
        affiliation_scan cur ks (a\<lparr>aff_name := Some (get_str (recommended_affiliation k))\<rparr>) (n + 1)"
      using True by (simp add: Let_def)
    moreover have "scan_name cur (k # ks) (get_str (aff_name a)) =
        scan_name cur ks (get_str (recommended_affiliation k))"
      using True by simp
    ultimately show ?thesis using Cons.IH by (simp add: get_str_simps)
  next
    case False
    have "affiliation_scan cur (k # ks) a n = affiliation_scan cur ks a n"
      using False by (auto simp add: Let_def)
    moreover have "scan_name cur (k # ks) (get_str (aff_name a)) =
        scan_name cur ks (get_str (aff_name a))"
      using False by auto
    ultimately show ?thesis using Cons.IH by simp
  qed
qed

lemma affiliation_scan_count:
  "snd (affiliation_scan cur ks a n) =
     n + length (filter (\<lambda>k. cur = get_str (old_affiliation k)
                           \<and> get_str (recommended_affiliation k) \<noteq> []) ks)"
proof (induction ks arbitrary: a n)
  case Nil
  then show ?case by simp
next
  case (Cons k ks)
  show ?case
  proof (cases "cur = get_str (old_affiliation k) \<and> get_str (recommended_affiliation k) \<noteq> []")
    case True
    have "affiliation_scan cur (k # ks) a n =
        affiliation_scan cur ks (a\<lparr>aff_name := Some (get_str (recommended_affiliation k))\<rparr>) (n + 1)"
      using True by (simp add: Let_def)
    then show ?thesis using True Cons.IH by simp
  next
    case False
    have "affiliation_scan cur (k # ks) a n = affiliation_scan cur ks a n"
      using False by (auto simp add: Let_def)
    then show ?thesis using False Cons.IH by auto
  qed
qed

lemma affiliations_scan_names:
  "map (\<lambda>a. get_str (aff_name a)) (fst (affiliations_scan ks affs n)) =
     map (\<lambda>x. scan_name x ks x) (map (\<lambda>a. get_str (aff_name a)) affs)"
  by (induction affs arbitrary: n) (simp_all add: split_beta affiliation_scan_name)

lemma creators_scan_names:
  "creators_names (fst (creators_scan ks cs n)) = map (\<lambda>x. scan_name x ks x) (creators_names cs)"
proof (induction cs arbitrary: n)
  case Nil
  then show ?case by (simp add: creators_names_def)
next
  case (Cons c cs)
  show ?case
  proof (cases "affiliations c")
    case None
    then show ?thesis using Cons.IH [of n]
      by (simp add: creators_names_def creator_affiliation_names_def get_list_def split_beta)
  next
    case (Some affs)
    then show ?thesis
      using Cons.IH [of "snd (affiliations_scan ks affs n)"] affiliations_scan_names [of ks affs n]
      by (simp add: creators_names_def creator_affiliation_names_def get_list_def split_beta)
  qed
qed

lemma scan_name_keeps_absent:
  "\<forall>j\<in>set ks. get_str (recommended_affiliation j) \<noteq> nm \<Longrightarrow> x \<noteq> nm \<Longrightarrow> scan_name cur ks x \<noteq> nm"
proof (induction ks arbitrary: x)
  case Nil
  then show ?case by simp
next
  case (Cons k ks)
  have rest: "\<forall>j\<in>set ks. get_str (recommended_affiliation j) \<noteq> nm"
    and here: "get_str (recommended_affiliation k) \<noteq> nm"
    using Cons.prems(1) by simp_all
  show ?case
  proof (cases "cur = get_str (old_affiliation k) \<and> get_str (recommended_affiliation k) \<noteq> []")
    case True
    have "scan_name cur (k # ks) x = scan_name cur ks (get_str (recommended_affiliation k))"
      using True by simp
    then show ?thesis using Cons.IH [OF rest here] by simp
  next
    case False
    have "scan_name cur (k # ks) x = scan_name cur ks x"
      using False by auto
    then show ?thesis using Cons.IH [OF rest Cons.prems(2)] by simp
  qed
qed

lemma scan_name_removes:
  "k \<in> set ks \<Longrightarrow> get_str (recommended_affiliation k) \<noteq> [] \<Longrightarrow>
   \<forall>j\<in>set ks. get_str (recommended_affiliation j) \<noteq> get_str (old_affiliation k) \<Longrightarrow>
   scan_name (get_str (old_affiliation k)) ks x \<noteq> get_str (old_affiliation k)"
proof (induction ks arbitrary: x)
  case Nil
  then show ?case by simp
next
  case (Cons j ks)
  show ?case
  proof (cases "j = k")
    case True
    then show ?thesis using Cons.prems scan_name_keeps_absent by simp
  next
    case False
    then have "k \<in> set ks" using Cons.prems(1) by simp
    then have "\<And>y. scan_name (get_str (old_affiliation k)) ks y \<noteq> get_str (old_affiliation k)"
      using Cons.IH Cons.prems(2,3) by simp
    then show ?thesis by auto
  qed
qed

lemma scan_name_absent:
  assumes "k \<in> set ks" "get_str (recommended_affiliation k) \<noteq> []"
    "\<forall>j\<in>set ks. get_str (recommended_affiliation j) \<noteq> get_str (old_affiliation k)"
  shows "scan_name x ks x \<noteq> get_str (old_affiliation k)"
proof (cases "x = get_str (old_affiliation k)")
  case True
  then show ?thesis using scan_name_removes [OF assms] by simp
next
  case False
  then show ?thesis using scan_name_keeps_absent assms(3) by blast
qed

lemma applier_names_applied:
  "affiliation_names (fst (applier_affiliation_corrections_applied record corrs)) =
     map (\<lambda>x. scan_name x corrs x) (affiliation_names record)"
  by (simp add: applier_affiliation_corrections_applied_def affiliation_names_record
      affiliation_names_def creators_scan_names [unfolded creators_names_def] creators_names_def
      get_list_def split_beta split: option.splits)

lemma applier_removes:
  "k \<in> set ks \<Longrightarrow> get_str (recommended_affiliation k) \<noteq> [] \<Longrightarrow>
   \<forall>j\<in>set ks. get_str (recommended_affiliation j) \<noteq> get_str (old_affiliation k) \<Longrightarrow>
   get_str (old_affiliation k)
     \<notin> set (affiliation_names (fst (applier_affiliation_corrections_applied record ks)))"
proof -
  assume a: "k \<in> set ks" "get_str (recommended_affiliation k) \<noteq> []"
    "\<forall>j\<in>set ks. get_str (recommended_affiliation j) \<noteq> get_str (old_affiliation k)"
  have ne: "\<And>x. scan_name x ks x \<noteq> get_str (old_affiliation k)"
    using scan_name_absent [OF a] .
  show ?thesis
    unfolding applier_names_applied set_map
  proof
    assume "get_str (old_affiliation k) \<in> (\<lambda>x. scan_name x ks x) ` set (affiliation_names record)"
    then obtain x where "get_str (old_affiliation k) = scan_name x ks x" by (rule imageE)
    then show False using ne [of x] by simp
  qed
qed

lemma affiliations_scan_count_single:
  "get_str (recommended_affiliation k) \<noteq> [] \<Longrightarrow>
   snd (affiliations_scan [k] affs n) =
     n + count_list (map (\<lambda>a. get_str (aff_name a)) affs) (get_str (old_affiliation k))"
  by (induction affs arbitrary: n) (simp_all add: split_beta Let_def)

lemma creators_scan_count_single:
  assumes "get_str (recommended_affiliation k) \<noteq> []"
  shows "snd (creators_scan [k] cs n) = n + count_list (creators_names cs) (get_str (old_affiliation k))"
proof (induction cs arbitrary: n)
  case Nil
  then show ?case by (simp add: creators_names_def)
next
  case (Cons c cs)
  show ?case
  proof (cases "affiliations c")
    case None
    then show ?thesis using Cons.IH [of n]
      by (simp add: creators_names_def creator_affiliation_names_def get_list_def split_beta)
  next
    case (Some affs)
    then show ?thesis
      using Cons.IH [of "snd (affiliations_scan [k] affs n)"]
        affiliations_scan_count_single [OF assms, of affs n]
      by (simp add: creators_names_def creator_affiliation_names_def get_list_def split_beta)
  qed
qed

lemma scan_name_single:
  "get_str (recommended_affiliation k) \<noteq> [] \<Longrightarrow>
   scan_name x [k] x = rename (get_str (old_affiliation k)) (get_str (recommended_affiliation k)) x"
  by (auto simp: rename_def)

lemma applier_count_single:
  "get_str (recommended_affiliation k) \<noteq> [] \<Longrightarrow>
   snd (applier_affiliation_corrections_applied record [k]) =
       count_list (affiliation_names record) (get_str (old_affiliation k))"
  by (simp add: affiliation_names_record
      applier_affiliation_corrections_applied_def creators_scan_count_single split_beta
      split: option.splits)

lemma applier_single:
  "get_str (recommended_affiliation k) \<noteq> [] \<Longrightarrow>
   affiliation_names (fst (applier_affiliation_corrections_applied record [k])) =
     map (rename (get_str (old_affiliation k)) (get_str (recommended_affiliation k)))
       (affiliation_names record)
   \<and> snd (applier_affiliation_corrections_applied record [k]) =
       count_list (affiliation_names record) (get_str (old_affiliation k))"
  by (simp add: applier_names_applied applier_count_single rename_def)

lemma add_related_identifier_list:
  "metadata record \<noteq> None \<Longrightarrow> get_str (ri_identifier x) \<noteq> [] \<Longrightarrow>
   related_identifiers_of (fst (add_related_identifier record x)) =
     (if get_str (ri_identifier x) \<in> set (existing_identifiers record)
      then related_identifiers_of record else related_identifiers_of record @ [x])"
  by (auto simp: add_related_identifier_def related_identifiers_of_def existing_identifiers_def
      Let_def get_list_def split: option.splits)

lemma add_related_identifier_result:
  "metadata record \<noteq> None \<Longrightarrow> get_str (ri_identifier x) \<noteq> [] \<Longrightarrow>
   snd (add_related_identifier record x) =
     (get_str (ri_identifier x) \<notin> set (existing_identifiers record))"
  by (auto simp: add_related_identifier_def related_identifiers_of_def existing_identifiers_def
      Let_def get_list_def split: option.splits)

lemma add_related_identifier_present:
  "get_str (ri_identifier x) \<in> set (existing_identifiers record) \<Longrightarrow>
   add_related_identifier record x = (record, False)"
  by (auto simp: add_related_identifier_def related_identifiers_of_def existing_identifiers_def
      Let_def get_list_def split: option.splits)

lemma add_related_identifier_then_present:
  "metadata record \<noteq> None \<Longrightarrow> get_str (ri_identifier x) \<noteq> [] \<Longrightarrow>
   get_str (ri_identifier x) \<in> set (existing_identifiers (fst (add_related_identifier record x)))"
  using add_related_identifier_list [of "record" x]
  by (auto simp: existing_identifiers_def)

lemma add_related_identifier_twice:
  "metadata record \<noteq> None \<Longrightarrow> get_str (ri_identifier x) \<noteq> [] \<Longrightarrow>
   add_related_identifier (fst (add_related_identifier record x)) x =
     (fst (add_related_identifier record x), False)"
  by (simp add: add_related_identifier_present add_related_identifier_then_present)

lemma add_related_identifier_single:
  "metadata record \<noteq> None \<Longrightarrow> get_str (ri_identifier x) \<noteq> [] \<Longrightarrow>
   get_str (ri_identifier x) \<notin> set (existing_identifiers record) \<Longrightarrow>
   count_list (existing_identifiers
       (fst (add_related_identifier (fst (add_related_identifier record x)) x)))
     (get_str (ri_identifier x)) = 1"
  by (simp add: add_related_identifier_twice add_related_identifier_list existing_identifiers_def
      count_list_0_iff [THEN iffD2])

lemma identifiers_step_single:
  "c_related_identifiers (get_corrections qa) = Some (Inl x) \<Longrightarrow>
   c_related_identifiers (get_corrections qa') = Some (Inr [x]) \<Longrightarrow>
   identifiers_step qa st = identifiers_step qa' st"
  by (simp add: identifiers_step_def split: prod.splits)

lemmas view_defs = title_of_def description_of_def publication_date_of_def creators_of_def
  related_identifiers_of_def

lemma title_frame:
  "title_of (fst (apply_title_correction r t)) = Some t"
  "description_of (fst (apply_title_correction r t)) = description_of r"
  "publication_date_of (fst (apply_title_correction r t)) = publication_date_of r"
  "creators_of (fst (apply_title_correction r t)) = creators_of r"
  "related_identifiers_of (fst (apply_title_correction r t)) = related_identifiers_of r"
  "custom_fields (fst (apply_title_correction r t)) = custom_fields r"
  "has_metadata (fst (apply_title_correction r t))"
  "snd (apply_title_correction r t)"
  by (simp_all add: apply_title_correction_def view_defs has_metadata_def empty_meta_def get_list_def Let_def
      split: option.splits)

lemma abstract_frame:
  "title_of (fst (apply_abstract_correction r t)) = title_of r"
  "description_of (fst (apply_abstract_correction r t)) = Some t"
  "publication_date_of (fst (apply_abstract_correction r t)) = publication_date_of r"
  "creators_of (fst (apply_abstract_correction r t)) = creators_of r"
  "related_identifiers_of (fst (apply_abstract_correction r t)) = related_identifiers_of r"
  "custom_fields (fst (apply_abstract_correction r t)) = custom_fields r"
  "has_metadata (fst (apply_abstract_correction r t))"
  "snd (apply_abstract_correction r t)"
  by (simp_all add: apply_abstract_correction_def view_defs has_metadata_def empty_meta_def get_list_def Let_def
      split: option.splits)

lemma date_frame:
  "title_of (fst (apply_date_correction r t)) = title_of r"
  "description_of (fst (apply_date_correction r t)) = description_of r"
  "publication_date_of (fst (apply_date_correction r t)) = Some t"
  "creators_of (fst (apply_date_correction r t)) = creators_of r"
  "related_identifiers_of (fst (apply_date_correction r t)) = related_identifiers_of r"
  "custom_fields (fst (apply_date_correction r t)) = custom_fields r"
  "has_metadata (fst (apply_date_correction r t))"
  "snd (apply_date_correction r t)"
  by (simp_all add: apply_date_correction_def view_defs has_metadata_def empty_meta_def get_list_def Let_def
      split: option.splits)

lemma affiliation_frame:
  "title_of (fst (apply_affiliation_corrections r ks)) = title_of r"
  "description_of (fst (apply_affiliation_corrections r ks)) = description_of r"
  "publication_date_of (fst (apply_affiliation_corrections r ks)) = publication_date_of r"
  "related_identifiers_of (fst (apply_affiliation_corrections r ks)) = related_identifiers_of r"
  "custom_fields (fst (apply_affiliation_corrections r ks)) = custom_fields r"
  "has_metadata (fst (apply_affiliation_corrections r ks)) = has_metadata r"
  by (simp_all add: apply_affiliation_corrections_def affiliation_corrections_applied_def
      view_defs has_metadata_def split_beta split: option.splits)

lemma affiliation_result_depends:
  "creators_of r1 = creators_of r2 \<Longrightarrow>
   snd (apply_affiliation_corrections r1 ks) = snd (apply_affiliation_corrections r2 ks)"
  by (auto simp add: apply_affiliation_corrections_def affiliation_corrections_applied_def
      creators_of_def split_beta split: option.splits)

lemma descriptor_frame:
  "metadata (fst (apply_descriptor_deletions lower r ds)) = metadata r"
  by (simp add: apply_descriptor_deletions_def Let_def split: option.splits)

lemma descriptor_views:
  "title_of (fst (apply_descriptor_deletions lower r ds)) = title_of r"
  "description_of (fst (apply_descriptor_deletions lower r ds)) = description_of r"
  "publication_date_of (fst (apply_descriptor_deletions lower r ds)) = publication_date_of r"
  "creators_of (fst (apply_descriptor_deletions lower r ds)) = creators_of r"
  "related_identifiers_of (fst (apply_descriptor_deletions lower r ds)) = related_identifiers_of r"
  by (simp_all add: view_defs descriptor_frame)

lemma descriptor_result_depends:
  "custom_fields r1 = custom_fields r2 \<Longrightarrow>
   snd (apply_descriptor_deletions lower r1 ds) = snd (apply_descriptor_deletions lower r2 ds)"
  by (simp add: apply_descriptor_deletions_def Let_def split: option.splits)

lemma add_identifier_frame:
  "title_of (fst (add_related_identifier r x)) = title_of r"
  "description_of (fst (add_related_identifier r x)) = description_of r"
  "publication_date_of (fst (add_related_identifier r x)) = publication_date_of r"
  "creators_of (fst (add_related_identifier r x)) = creators_of r"
  "custom_fields (fst (add_related_identifier r x)) = custom_fields r"
  "has_metadata (fst (add_related_identifier r x)) = has_metadata r"
  by (simp_all add: add_related_identifier_def view_defs has_metadata_def Let_def split: option.splits)

lemma add_identifier_list:
  "has_metadata r \<Longrightarrow>
   related_identifiers_of (fst (add_related_identifier r x)) =
     related_identifiers_of r @ (if snd (add_related_identifier r x) then [x] else [])"
  by (auto simp add: add_related_identifier_def view_defs has_metadata_def Let_def get_list_def
      split: option.splits)

lemma add_identifier_absent_key:
  "related_identifiers_of (fst (add_related_identifier r x)) = related_identifiers_of r
   \<or> related_identifiers_of (fst (add_related_identifier r x)) = related_identifiers_of r @ [x]"
  by (auto simp add: add_related_identifier_def view_defs Let_def get_list_def split: option.splits)

lemma identifier_loop_frame:
  "title_of (fst (identifier_loop is r n)) = title_of r
   \<and> description_of (fst (identifier_loop is r n)) = description_of r
   \<and> publication_date_of (fst (identifier_loop is r n)) = publication_date_of r
   \<and> creators_of (fst (identifier_loop is r n)) = creators_of r
   \<and> custom_fields (fst (identifier_loop is r n)) = custom_fields r
   \<and> has_metadata (fst (identifier_loop is r n)) = has_metadata r"
proof (induction "is" arbitrary: r n)
  case Nil
  then show ?case by simp
next
  case (Cons i "is")
  show ?case
    using Cons.IH [of "fst (add_related_identifier r i)"]
    by (simp add: split_beta add_identifier_frame)
qed

lemma identifier_loop_count:
  "has_metadata r \<Longrightarrow>
   length (related_identifiers_of (fst (identifier_loop is r n))) + n =
     snd (identifier_loop is r n) + length (related_identifiers_of r)"
proof (induction "is" arbitrary: r n)
  case Nil
  then show ?case by simp
next
  case (Cons i "is")
  have m: "has_metadata (fst (add_related_identifier r i))"
    using Cons.prems by (simp add: add_identifier_frame)
  show ?case
    using Cons.IH [OF m, of "if snd (add_related_identifier r i) then n + 1 else n"]
      add_identifier_list [OF Cons.prems, of i]
    by (simp add: split_beta split: if_splits)
qed

lemma identifier_loop_empty:
  "identifier_loop [] r n = (r, n)"
  by simp

lemma title_step_views:
  "title_of (fst (title_step qa st)) =
     (if title_corrected qa \<and> c_title (get_corrections qa) \<noteq> None
      then c_title (get_corrections qa) else title_of (fst st))"
  "description_of (fst (title_step qa st)) = description_of (fst st)"
  "publication_date_of (fst (title_step qa st)) = publication_date_of (fst st)"
  "creators_of (fst (title_step qa st)) = creators_of (fst st)"
  "related_identifiers_of (fst (title_step qa st)) = related_identifiers_of (fst st)"
  "custom_fields (fst (title_step qa st)) = custom_fields (fst st)"
  "has_metadata (fst st) \<Longrightarrow> has_metadata (fst (title_step qa st))"
  "fst (snd (title_step qa st)) =
     fst (snd st) + of_bool (title_corrected qa \<and> c_title (get_corrections qa) \<noteq> None)"
  by (simp_all add: title_step_def title_frame split_beta split: option.splits)

lemma abstract_step_views:
  "title_of (fst (abstract_step qa st)) = title_of (fst st)"
  "description_of (fst (abstract_step qa st)) =
     (if abstract_corrected qa \<and> c_abstract (get_corrections qa) \<noteq> None
      then c_abstract (get_corrections qa) else description_of (fst st))"
  "publication_date_of (fst (abstract_step qa st)) = publication_date_of (fst st)"
  "creators_of (fst (abstract_step qa st)) = creators_of (fst st)"
  "related_identifiers_of (fst (abstract_step qa st)) = related_identifiers_of (fst st)"
  "custom_fields (fst (abstract_step qa st)) = custom_fields (fst st)"
  "has_metadata (fst st) \<Longrightarrow> has_metadata (fst (abstract_step qa st))"
  "fst (snd (abstract_step qa st)) =
     fst (snd st) + of_bool (abstract_corrected qa \<and> c_abstract (get_corrections qa) \<noteq> None)"
  by (simp_all add: abstract_step_def abstract_frame split_beta split: option.splits)

lemma date_step_views:
  "title_of (fst (date_step qa st)) = title_of (fst st)"
  "description_of (fst (date_step qa st)) = description_of (fst st)"
  "publication_date_of (fst (date_step qa st)) =
     (if date_corrected qa \<and> c_publication_date (get_corrections qa) \<noteq> None
      then c_publication_date (get_corrections qa) else publication_date_of (fst st))"
  "creators_of (fst (date_step qa st)) = creators_of (fst st)"
  "related_identifiers_of (fst (date_step qa st)) = related_identifiers_of (fst st)"
  "custom_fields (fst (date_step qa st)) = custom_fields (fst st)"
  "has_metadata (fst st) \<Longrightarrow> has_metadata (fst (date_step qa st))"
  "fst (snd (date_step qa st)) =
     fst (snd st) + of_bool (date_corrected qa \<and> c_publication_date (get_corrections qa) \<noteq> None)"
  by (simp_all add: date_step_def date_frame split_beta split: option.splits)

lemma affiliation_step_views:
  "title_of (fst (affiliation_step qa st)) = title_of (fst st)"
  "description_of (fst (affiliation_step qa st)) = description_of (fst st)"
  "publication_date_of (fst (affiliation_step qa st)) = publication_date_of (fst st)"
  "related_identifiers_of (fst (affiliation_step qa st)) = related_identifiers_of (fst st)"
  "custom_fields (fst (affiliation_step qa st)) = custom_fields (fst st)"
  "has_metadata (fst st) \<Longrightarrow> has_metadata (fst (affiliation_step qa st))"
  "\<not> (affiliation_correction_recommended qa \<and> get_list (affiliation_corrections qa) \<noteq> [])
     \<Longrightarrow> affiliation_step qa st = st"
  by (simp_all add: affiliation_step_def affiliation_frame split_beta Let_def)

lemma no_corrections_no_match: "\<not> snd (apply_affiliation_corrections r [])"
  by (simp add: apply_affiliation_corrections_def affiliation_corrections_applied_def
      split_beta split: option.splits)

lemma affiliation_step_count:
  "fst (snd (affiliation_step qa st)) =
     fst (snd st) + of_bool (affiliation_correction_recommended qa
        \<and> snd (apply_affiliation_corrections (fst st) (get_list (affiliation_corrections qa))))"
  by (simp add: affiliation_step_def split_beta Let_def no_corrections_no_match)

lemma no_deletions_no_change: "\<not> snd (apply_descriptor_deletions lower r [])"
  by (simp add: apply_descriptor_deletions_def Let_def split: option.splits)

lemma descriptor_step_views:
  "metadata (fst (descriptor_step lower qa st)) = metadata (fst st)"
  "has_metadata (fst (descriptor_step lower qa st)) = has_metadata (fst st)"
  "\<not> (descriptor_corrected qa \<and> c_delete_descriptor (get_corrections qa) \<noteq> None)
     \<Longrightarrow> descriptor_step lower qa st = st"
  "fst (snd (descriptor_step lower qa st)) =
     fst (snd st) + of_bool (descriptor_corrected qa \<and>
       (case c_delete_descriptor (get_corrections qa) of None \<Rightarrow> False
        | Some v \<Rightarrow> snd (apply_descriptor_deletions lower (fst st) (deletion_list v))))"
  by (simp_all add: descriptor_step_def descriptor_frame has_metadata_def split_beta Let_def
      deletion_list_def no_deletions_no_change split: option.splits sum.splits)

lemma descriptor_step_more:
  "title_of (fst (descriptor_step lower qa st)) = title_of (fst st)"
  "description_of (fst (descriptor_step lower qa st)) = description_of (fst st)"
  "publication_date_of (fst (descriptor_step lower qa st)) = publication_date_of (fst st)"
  "creators_of (fst (descriptor_step lower qa st)) = creators_of (fst st)"
  "related_identifiers_of (fst (descriptor_step lower qa st)) = related_identifiers_of (fst st)"
  by (simp_all add: view_defs descriptor_step_views)

lemma identifiers_step_eq:
  "identifiers_step qa st =
     (case c_related_identifiers (get_corrections qa) of
        None \<Rightarrow> st
      | Some v \<Rightarrow> (fst (identifier_loop (identifier_list v) (fst st) (fst (snd st))),
                   snd (identifier_loop (identifier_list v) (fst st) (fst (snd st))),
                   snd (snd st)))"
  by (simp add: identifiers_step_def identifier_list_def split_beta Let_def
      split: option.splits)

lemma identifiers_step_views:
  "title_of (fst (identifiers_step qa st)) = title_of (fst st)"
  "description_of (fst (identifiers_step qa st)) = description_of (fst st)"
  "publication_date_of (fst (identifiers_step qa st)) = publication_date_of (fst st)"
  "creators_of (fst (identifiers_step qa st)) = creators_of (fst st)"
  "custom_fields (fst (identifiers_step qa st)) = custom_fields (fst st)"
  "c_related_identifiers (get_corrections qa) = None \<Longrightarrow> identifiers_step qa st = st"
  by (simp_all add: identifiers_step_eq identifier_loop_frame split: option.splits)

lemma identifiers_step_count:
  "has_metadata (fst st) \<Longrightarrow>
   length (related_identifiers_of (fst (identifiers_step qa st))) + fst (snd st) =
     fst (snd (identifiers_step qa st)) + length (related_identifiers_of (fst st))"
  by (simp add: identifiers_step_eq identifier_loop_count split: option.splits)

lemma count_list_pos: "(0 < count_list xs x) = (x \<in> set xs)"
  by (induction xs) auto

lemma ex_names: "affiliation_names (record_of_affiliations ns) = ns"
  by (simp add: affiliation_names_def record_of_affiliations_def empty_meta_def get_list_def
      creator_affiliation_names_def named_def get_str_def comp_def)

lemma apply_corrections_views:
  "title_of (fst (apply_corrections lower qa r s)) =
     (if title_corrected qa \<and> c_title (get_corrections qa) \<noteq> None
      then c_title (get_corrections qa) else title_of r)"
  "description_of (fst (apply_corrections lower qa r s)) =
     (if abstract_corrected qa \<and> c_abstract (get_corrections qa) \<noteq> None
      then c_abstract (get_corrections qa) else description_of r)"
  "publication_date_of (fst (apply_corrections lower qa r s)) =
     (if date_corrected qa \<and> c_publication_date (get_corrections qa) \<noteq> None
      then c_publication_date (get_corrections qa) else publication_date_of r)"
  by (auto simp add: apply_corrections_def title_step_views abstract_step_views date_step_views
      affiliation_step_views descriptor_step_more identifiers_step_views)

lemma apply_corrections_custom:
  "\<not> (descriptor_corrected qa \<and> c_delete_descriptor (get_corrections qa) \<noteq> None) \<Longrightarrow>
   custom_fields (fst (apply_corrections lower qa r s)) = custom_fields r"
  by (simp add: apply_corrections_def title_step_views abstract_step_views date_step_views
      affiliation_step_views descriptor_step_views identifiers_step_views)

lemma apply_corrections_creators:
  "\<not> (affiliation_correction_recommended qa \<and> get_list (affiliation_corrections qa) \<noteq> []) \<Longrightarrow>
   creators_of (fst (apply_corrections lower qa r s)) = creators_of r"
  by (simp add: apply_corrections_def title_step_views abstract_step_views date_step_views
      affiliation_step_views descriptor_step_more identifiers_step_views)

lemma apply_corrections_identifiers:
  "c_related_identifiers (get_corrections qa) = None \<Longrightarrow>
   related_identifiers_of (fst (apply_corrections lower qa r s)) = related_identifiers_of r"
  by (simp add: apply_corrections_def title_step_views abstract_step_views date_step_views
      affiliation_step_views descriptor_step_more identifiers_step_views)

lemma unflagged_steps:
  "\<not> title_corrected qa \<Longrightarrow> title_step qa st = st"
  "\<not> abstract_corrected qa \<Longrightarrow> abstract_step qa st = st"
  "\<not> date_corrected qa \<Longrightarrow> date_step qa st = st"
  by (simp_all add: title_step_def abstract_step_def date_step_def split_beta)

lemma unflagged_corrections:
  assumes "\<not> title_corrected qa" "\<not> abstract_corrected qa"
    "\<not> affiliation_correction_recommended qa" "\<not> descriptor_corrected qa" "\<not> date_corrected qa"
    and "c_related_identifiers (get_corrections qa) = Some v"
  shows "fst (apply_corrections lower qa r s) = fst (identifier_loop (identifier_list v) r 0)"
  using assms
  by (simp add: apply_corrections_def unflagged_steps affiliation_step_views
      descriptor_step_views identifiers_step_eq)

lemma processor_ignores_organizational:
  "apply_corrections lower (qa\<lparr>organizational_author_corrections := x\<rparr>) r s = apply_corrections lower qa r s"
proof -
  let ?qa = "qa\<lparr>organizational_author_corrections := x\<rparr>"
  have "title_step ?qa = title_step qa" "abstract_step ?qa = abstract_step qa"
    "affiliation_step ?qa = affiliation_step qa" "descriptor_step lower ?qa = descriptor_step lower qa"
    "date_step ?qa = date_step qa" "identifiers_step ?qa = identifiers_step qa"
    by (simp_all add: fun_eq_iff title_step_def abstract_step_def affiliation_step_def
        descriptor_step_def date_step_def identifiers_step_def get_corrections_def)
  then show ?thesis by (simp add: apply_corrections_def)
qed

lemma mark_qa_checked_views:
  "metadata (mark_qa_checked d) = metadata d"
  "qa_checked_of (mark_qa_checked d) = Some True"
  "title_of (mark_qa_checked d) = title_of d"
  "creators_of (mark_qa_checked d) = creators_of d"
  by (simp_all add: mark_qa_checked_def qa_checked_of_def view_defs Let_def)

lemma applier_title_frame:
  "title_of (fst (applier_apply_title_correction d t)) = Some t"
  "creators_of (fst (applier_apply_title_correction d t)) = creators_of d"
  "snd (applier_apply_title_correction d t)"
  by (simp_all add: applier_apply_title_correction_def view_defs empty_meta_def Let_def
      split: option.splits)

lemma applier_affiliation_frame:
  "title_of (fst (applier_apply_affiliation_corrections d ks)) = title_of d"
  by (simp add: applier_apply_affiliation_corrections_def
      applier_affiliation_corrections_applied_def view_defs split_beta split: option.splits)

lemma organizational_frame:
  "title_of (fst (apply_organizational_author_corrections d ks)) = title_of d"
  by (simp add: apply_organizational_author_corrections_def view_defs split_beta
      split: option.splits)

lemma correct_draft_title:
  "title_of (fst (correct_draft qa d st)) =
     (case c_title (get_corrections qa) of None \<Rightarrow> title_of d | Some t \<Rightarrow> Some t)"
  by (simp add: correct_draft_def split_beta Let_def mark_qa_checked_views
      applier_title_frame applier_affiliation_frame organizational_frame split: option.splits)

lemma correct_draft_creators:
  "get_list (affiliation_corrections qa) = [] \<Longrightarrow>
   get_list (organizational_author_corrections qa) = [] \<Longrightarrow>
   creators_of (fst (correct_draft qa d st)) = creators_of d"
  by (simp add: correct_draft_def split_beta Let_def mark_qa_checked_views
      applier_title_frame split: option.splits)

lemma correct_draft_flags:
  "correct_draft (qa\<lparr>title_corrected := b1, abstract_corrected := b2,
      descriptor_corrected := b3, date_corrected := b4,
      affiliation_correction_recommended := b5\<rparr>) d st = correct_draft qa d st"
  by (simp add: correct_draft_def get_corrections_def)

lemma correct_draft_checked:
  "qa_checked_of (fst (correct_draft qa d st)) = Some True"
  by (simp add: correct_draft_def split_beta Let_def mark_qa_checked_views)

lemma unflagged_report_fields:
  "\<not> title_corrected unflagged_report" "\<not> abstract_corrected unflagged_report"
  "\<not> descriptor_corrected unflagged_report" "\<not> date_corrected unflagged_report"
  "\<not> affiliation_correction_recommended unflagged_report"
  "c_title (get_corrections unflagged_report) = Some ''New Title''"
  "c_related_identifiers (get_corrections unflagged_report) =
     Some (Inr [doi ''10.1/x'', doi ''10.1/y''])"
  "get_list (affiliation_corrections unflagged_report) = [pair ''A'' ''B'']"
  by (simp_all add: unflagged_report_def empty_report_def empty_corrections_def
      get_corrections_def get_list_def)

lemma open_draft_sent:
  "sent (fst (open_draft repo rid ap)) =
     sent ap @ (if draft_reply_has_id repo (sent ap @ [POST_draft rid])
                then [POST_draft rid, GET_draft rid] else [POST_draft rid])"
  "dry_run (fst (open_draft repo rid ap)) = dry_run ap"
  "snd (open_draft repo rid ap) =
     (if draft_reply_has_id repo (sent ap @ [POST_draft rid])
      then draft_document repo (sent ap @ [POST_draft rid, GET_draft rid]) else None)"
  by (simp_all add: open_draft_def send_def count_error_def Let_def split: option.splits)

lemma store_and_publish_sent:
  "sent (fst (store_and_publish repo only rid d ap)) =
     sent ap @ (if dry_run ap then [] else [PUT_draft rid d, POST_publish rid])"
  "dry_run (fst (store_and_publish repo only rid d ap)) = dry_run ap"
  by (simp_all add: store_and_publish_def send_def count_error_def count_updated_def Let_def)

lemma update_record_draft:
  "snd (snd (update_record repo rid qa ap)) =
     map_option (\<lambda>d. fst (correct_draft qa d (stats (fst (open_draft repo rid ap)))))
       (snd (open_draft repo rid ap))"
  by (simp add: update_record_def split_beta split: option.splits prod.splits)

lemma update_record_sent:
  "sent (fst (update_record repo rid qa ap)) =
     sent (fst (open_draft repo rid ap)) @
       (case snd (snd (update_record repo rid qa ap)) of
          None \<Rightarrow> []
        | Some d \<Rightarrow> if dry_run ap then [] else [PUT_draft rid d, POST_publish rid])"
  "dry_run (fst (update_record repo rid qa ap)) = dry_run ap"
  by (simp_all add: update_record_def split_beta store_and_publish_sent open_draft_sent
      split: option.splits prod.splits)

lemma mark_only_draft:
  "snd (snd (mark_record_as_qa_checked_only repo rid ap)) =
     map_option mark_qa_checked (snd (open_draft repo rid ap))"
  by (simp add: mark_record_as_qa_checked_only_def split_beta split: option.splits prod.splits)

lemma mark_only_sent:
  "sent (fst (mark_record_as_qa_checked_only repo rid ap)) =
     sent (fst (open_draft repo rid ap)) @
       (case snd (snd (mark_record_as_qa_checked_only repo rid ap)) of
          None \<Rightarrow> []
        | Some d \<Rightarrow> if dry_run ap then [] else [PUT_draft rid d, POST_publish rid])"
  "dry_run (fst (mark_record_as_qa_checked_only repo rid ap)) = dry_run ap"
  by (simp_all add: mark_record_as_qa_checked_only_def split_beta store_and_publish_sent
      open_draft_sent split: option.splits prod.splits)

lemma update_record_checked:
  "snd (snd (update_record repo rid qa ap)) = Some d \<Longrightarrow> qa_checked_of d = Some True"
  by (auto simp add: update_record_draft correct_draft_checked)

lemma mark_only_checked:
  "snd (snd (mark_record_as_qa_checked_only repo rid ap)) = Some d \<Longrightarrow> qa_checked_of d = Some True"
  by (auto simp add: mark_only_draft mark_qa_checked_views)

lemma process_report_file_checked:
  "snd (process_report_file repo loaded ap) = Some d \<Longrightarrow> qa_checked_of d = Some True"
  using update_record_checked mark_only_checked
  by (auto simp add: process_report_file_def Let_def split_beta
      split: option.splits if_splits)

lemma writes_back_simps:
  "\<not> writes_back (POST_draft rid)" "\<not> writes_back (GET_draft rid)"
  "writes_back (PUT_draft rid d)" "writes_back (POST_publish rid)"
  by (simp_all add: writes_back_def)

lemma update_record_dry:
  "dry_run ap \<Longrightarrow>
   sent (fst (update_record repo rid qa ap)) =
     sent ap @ (if draft_reply_has_id repo (sent ap @ [POST_draft rid])
                then [POST_draft rid, GET_draft rid] else [POST_draft rid])"
  by (simp add: update_record_sent open_draft_sent split: option.splits)

lemma mark_only_dry:
  "dry_run ap \<Longrightarrow>
   sent (fst (mark_record_as_qa_checked_only repo rid ap)) =
     sent ap @ (if draft_reply_has_id repo (sent ap @ [POST_draft rid])
                then [POST_draft rid, GET_draft rid] else [POST_draft rid])"
  by (simp add: mark_only_sent open_draft_sent split: option.splits)

lemma process_report_file_dry:
  assumes "dry_run ap"
  shows "filter writes_back (sent (fst (process_report_file repo loaded ap))) =
           filter writes_back (sent ap)"
    and "dry_run (fst (process_report_file repo loaded ap))"
  using assms update_record_dry [OF assms] mark_only_dry [OF assms]
  by (simp_all add: process_report_file_def Let_def split_beta count_error_def
      writes_back_simps update_record_sent mark_only_sent split: option.splits)

lemma process_files_dry:
  "dry_run ap \<Longrightarrow>
   filter writes_back (sent (process_files repo fs ap)) = filter writes_back (sent ap)
   \<and> dry_run (process_files repo fs ap)"
proof (induction fs arbitrary: ap)
  case Nil
  then show ?case by simp
next
  case (Cons f fs)
  show ?case
    using Cons.IH [OF process_report_file_dry(2) [OF Cons.prems]]
      process_report_file_dry(1) [OF Cons.prems]
    by simp
qed

lemma process_qa_folder_dry:
  "dry_run ap \<Longrightarrow>
   filter writes_back (sent (fst (process_qa_folder repo folder ap))) = filter writes_back (sent ap)"
  by (simp add: process_qa_folder_def process_files_dry split: option.splits)

lemma update_record_live:
  "\<not> dry_run ap \<Longrightarrow> snd (snd (update_record repo rid qa ap)) = Some d \<Longrightarrow>
   sent (fst (update_record repo rid qa ap)) =
     sent ap @ [POST_draft rid, GET_draft rid, PUT_draft rid d, POST_publish rid]"
  by (auto simp add: update_record_sent update_record_draft open_draft_sent split: if_splits)

lemma update_record_obtained:
  "(snd (snd (update_record repo rid qa ap)) \<noteq> None) =
     (draft_reply_has_id repo (sent ap @ [POST_draft rid])
      \<and> draft_document repo (sent ap @ [POST_draft rid, GET_draft rid]) \<noteq> None)"
  by (simp add: update_record_draft open_draft_sent)

lemma descriptor_checked:
  "qa_checked_of (fst (apply_descriptor_deletions lower r ds)) = qa_checked_of r"
  by (simp add: apply_descriptor_deletions_def qa_checked_of_def Let_def split: option.splits)

lemma descriptor_step_checked:
  "qa_checked_of (fst (descriptor_step lower qa st)) = qa_checked_of (fst st)"
  by (simp add: descriptor_step_def split_beta Let_def descriptor_checked
      split: option.splits sum.splits)

lemma qa_checked_of_custom: "custom_fields a = custom_fields b \<Longrightarrow> qa_checked_of a = qa_checked_of b"
  by (simp add: qa_checked_of_def)

lemma apply_corrections_checked:
  "qa_checked_of (fst (apply_corrections lower qa r s)) = qa_checked_of r"
proof -
  have "qa_checked_of (fst (apply_corrections lower qa r s)) =
      qa_checked_of (fst (descriptor_step lower qa (affiliation_step qa
        (abstract_step qa (title_step qa (r, 0, s))))))"
    unfolding apply_corrections_def
    by (rule qa_checked_of_custom) (simp add: identifiers_step_views date_step_views)
  also have "\<dots> = qa_checked_of (fst (affiliation_step qa (abstract_step qa (title_step qa (r, 0, s)))))"
    by (rule descriptor_step_checked)
  also have "\<dots> = qa_checked_of r"
    by (rule qa_checked_of_custom)
      (simp add: affiliation_step_views abstract_step_views title_step_views)
  finally show ?thesis .
qed

lemma extends_asciiD: "extends_ascii decimal \<Longrightarrow> c < 128 \<Longrightarrow> decimal c = ascii_decimal c"
  by (simp add: extends_ascii_def list_all_iff)

lemma decimal_digit: "extends_ascii decimal \<Longrightarrow> k \<le> 9 \<Longrightarrow> decimal (48 + k) = Some k"
  using extends_asciiD [of decimal "48 + k"] by (simp add: ascii_decimal_def)

lemma parse_year_digits4:
  assumes e: "extends_ascii decimal" and y: "y \<le> 9999"
  shows "parse_year decimal (digits4 y) = Some y"
proof -
  let ?h = "y div 100" and ?l = "y mod 100"
  have "?h \<le> 9999 div 100" using y by (rule div_le_mono)
  then have "?h div 10 \<le> 99 div 10" by (intro div_le_mono) simp
  then have h: "?h div 10 \<le> 9" by simp
  have d: "decimal (48 + ?h div 10) = Some (?h div 10)"
    "decimal (48 + ?h mod 10) = Some (?h mod 10)"
    "decimal (48 + ?l div 10) = Some (?l div 10)"
    "decimal (48 + ?l mod 10) = Some (?l mod 10)"
    using decimal_digit [OF e] h by simp_all
  have "1000 * (?h div 10) + 100 * (?h mod 10) + 10 * (?l div 10) + ?l mod 10 = y"
    using mult_div_mod_eq [of 10 ?h] mult_div_mod_eq [of 10 ?l] mult_div_mod_eq [of 100 y]
    by linarith
  then show ?thesis
    by (simp add: parse_year_def digits4_def digits2_def d)
qed

lemma parse_month_pair:
  "u \<le> 9 \<Longrightarrow> parse_month [48 + t, 48 + u] =
     (if t = 1 \<and> u \<le> 2 then Some (10 + u) else if t = 0 \<and> 1 \<le> u then Some u else None)"
  by (simp add: parse_month_def)

lemma parse_month_digits2:
  "1 \<le> m \<Longrightarrow> m \<le> 12 \<Longrightarrow> parse_month (digits2 m) = Some m"
proof -
  assume m: "1 \<le> m" "m \<le> 12"
  have u: "m mod 10 \<le> 9" by simp
  have "(m div 10 = 1 \<and> m mod 10 \<le> 2 \<and> 10 + m mod 10 = m)
      \<or> (m div 10 = 0 \<and> 1 \<le> m mod 10 \<and> m mod 10 = m)"
    using m by presburger
  then show ?thesis
    unfolding digits2_def parse_month_pair [OF u] by auto
qed

lemma parse_day_pair:
  "extends_ascii decimal \<Longrightarrow> u \<le> 9 \<Longrightarrow> parse_day decimal [48 + t, 48 + u] =
     (if t = 3 \<and> u \<le> 1 then Some (30 + u)
      else if t = 1 \<or> t = 2 then Some (10 * t + u)
      else if t = 0 \<and> 1 \<le> u then Some u else None)"
  using decimal_digit [of decimal u]
  by (simp add: parse_day_def)

lemma parse_day_digits2:
  assumes e: "extends_ascii decimal" and d: "1 \<le> d" "d \<le> 31"
  shows "parse_day decimal (digits2 d) = Some d"
proof -
  have u: "d mod 10 \<le> 9" by simp
  have "(d div 10 = 3 \<and> d mod 10 \<le> 1 \<and> 30 + d mod 10 = d)
      \<or> ((d div 10 = 1 \<or> d div 10 = 2) \<and> 10 * (d div 10) + d mod 10 = d)
      \<or> (d div 10 = 0 \<and> 1 \<le> d mod 10 \<and> d mod 10 = d)"
    using d by presburger
  then show ?thesis
    unfolding digits2_def parse_day_pair [OF e u] by auto
qed

lemma days_in_month_le: "days_in_month y m \<le> 31"
  by (simp add: days_in_month_def)

lemma strptime_ymd_iso_date:
  assumes e: "extends_ascii decimal"
    and v: "1 \<le> y" "y \<le> 9999" "1 \<le> m" "m \<le> 12" "1 \<le> d" "d \<le> days_in_month y m"
  shows "strptime_ymd decimal (iso_date y m d) = Some (midnight y m d)"
proof -
  have d31: "d \<le> 31" using v(6) days_in_month_le [of y m] by linarith
  have s: "iso_date y m d = digits4 y @ 45 # digits2 m @ 45 # digits2 d"
    by (simp add: iso_date_def)
  have l4: "length (digits4 y) = 4" and l2: "length (digits2 n) = 2" for n
    by (simp_all add: digits4_def digits2_def)
  have a: "length (iso_date y m d) = 10" "iso_date y m d ! 4 = 45"
    "take 4 (iso_date y m d) = digits4 y" "drop 5 (iso_date y m d) = digits2 m @ 45 # digits2 d"
    by (simp_all add: s l4 l2 nth_append)
  have sp: "split_month_day (digits2 m @ 45 # digits2 d) = Some (digits2 m, digits2 d)"
    by (simp add: split_month_day_def digits2_def)
  show ?thesis
    using parse_year_digits4 [OF e v(2)] parse_month_digits2 [OF v(3,4)]
      parse_day_digits2 [OF e v(5) d31] v
    by (simp add: strptime_ymd_def a sp make_date_def)
qed

lemma strptime_ym_iso_month:
  assumes e: "extends_ascii decimal" and v: "1 \<le> y" "y \<le> 9999" "1 \<le> m" "m \<le> 12"
  shows "strptime_ym decimal (iso_month y m) = Some (midnight y m 1)"
    and "strptime_ymd decimal (iso_month y m) = None"
proof -
  have l4: "length (digits4 y) = 4" and l2: "length (digits2 n) = 2" for n
    by (simp_all add: digits4_def digits2_def)
  have s: "iso_month y m = digits4 y @ 45 # digits2 m"
    by (simp add: iso_month_def)
  have a: "length (iso_month y m) = 7" "iso_month y m ! 4 = 45"
    "take 4 (iso_month y m) = digits4 y" "drop 5 (iso_month y m) = digits2 m"
    by (simp_all add: s l4 l2 nth_append)
  have dm: "1 \<le> days_in_month y m" by (simp add: days_in_month_def)
  show "strptime_ym decimal (iso_month y m) = Some (midnight y m 1)"
    using parse_year_digits4 [OF e v(2)] parse_month_digits2 [OF v(3,4)] v dm
    by (simp add: strptime_ym_def a make_date_def)
  have "split_month_day (digits2 m) = None"
    by (simp add: split_month_day_def digits2_def)
  then show "strptime_ymd decimal (iso_month y m) = None"
    by (simp add: strptime_ymd_def a split: option.splits)
qed

lemma make_date_valid: "make_date y m d = Some dt \<Longrightarrow> valid_date dt \<and> dt = midnight y m d"
  by (auto simp add: make_date_def valid_date_def midnight_def split: if_splits)


lemma parse_month_Some:
  "parse_month tok = Some m \<Longrightarrow> (length tok = 1 \<or> length tok = 2) \<and> 1 \<le> m \<and> m \<le> 12"
  by (auto simp add: parse_month_def split: list.splits if_splits)

lemma parse_day_Some:
  "parse_day decimal tok = Some d \<Longrightarrow> length tok = 1 \<or> length tok = 2"
  by (auto simp add: parse_day_def split: list.splits if_splits)

lemma split_month_day_Some:
  "split_month_day rest = Some (mtok, dtok) \<Longrightarrow>
   length rest = length mtok + 1 + length dtok \<and> (length mtok = 1 \<or> length mtok = 2)"
  by (auto simp add: split_month_day_def split: if_splits)

lemma strptime_ymd_Some:
  assumes "strptime_ymd decimal s = Some dt"
  shows "valid_date dt \<and> s ! 4 = 45 \<and> 8 \<le> length s \<and> length s \<le> 10"
proof -
  from assms obtain y mtok dtok m d where
    s: "5 \<le> length s" "s ! 4 = 45" and sp: "split_month_day (drop 5 s) = Some (mtok, dtok)"
    and pm: "parse_month mtok = Some m" and pd: "parse_day decimal dtok = Some d"
    and md: "make_date y m d = Some dt"
    by (auto simp add: strptime_ymd_def split: if_splits option.splits)
  have "length s - 5 = length mtok + 1 + length dtok"
    using split_month_day_Some [OF sp] by simp
  then have "8 \<le> length s \<and> length s \<le> 10"
    using parse_month_Some [OF pm] parse_day_Some [OF pd] s(1) by linarith
  moreover have "valid_date dt" using make_date_valid [OF md] by blast
  ultimately show ?thesis using s(2) by blast
qed

lemma strptime_ym_Some:
  assumes "strptime_ym decimal s = Some dt"
  shows "valid_date dt \<and> dt_day dt = 1 \<and> s ! 4 = 45 \<and> 6 \<le> length s \<and> length s \<le> 7"
proof -
  from assms obtain y m where
    s: "5 \<le> length s" "s ! 4 = 45" and pm: "parse_month (drop 5 s) = Some m"
    and md: "make_date y m 1 = Some dt"
    by (auto simp add: strptime_ym_def split: if_splits option.splits)
  have "6 \<le> length s \<and> length s \<le> 7"
    using parse_month_Some [OF pm] s(1) by auto
  moreover have "valid_date dt" "dt_day dt = 1"
    using make_date_valid [OF md] by (auto simp add: midnight_def)
  ultimately show ?thesis using s(2) by blast
qed

lemma lex_less_irrefl: "\<not> lex_less xs xs"
  by (induction xs) simp_all

lemma lex_less_trans: "lex_less xs ys \<Longrightarrow> lex_less ys zs \<Longrightarrow> lex_less xs zs"
proof (induction xs ys arbitrary: zs rule: lex_less.induct)
  case (1 x xs y ys)
  then show ?case by (cases zs) auto
qed simp_all

lemma lex_less_total:
  "length xs = length ys \<Longrightarrow> xs \<noteq> ys \<Longrightarrow> lex_less xs ys \<or> lex_less ys xs"
proof (induction xs ys rule: list_induct2)
  case Nil
  then show ?case by simp
next
  case (Cons x xs y ys)
  then show ?case by (cases "x = y") auto
qed

lemma later_eq:
  "later a b =
     (dt_year b < dt_year a \<or> (dt_year b = dt_year a \<and>
     (dt_month b < dt_month a \<or> (dt_month b = dt_month a \<and>
     (dt_day b < dt_day a \<or> (dt_day b = dt_day a \<and>
     (dt_hour b < dt_hour a \<or> (dt_hour b = dt_hour a \<and>
     (dt_minute b < dt_minute a \<or> (dt_minute b = dt_minute a \<and>
     (dt_second b < dt_second a \<or> (dt_second b = dt_second a \<and>
      dt_microsecond b < dt_microsecond a))))))))))))"
  by (simp add: later_def dt_fields_def)

lemma later_irrefl: "\<not> later d d"
  by (simp add: later_def lex_less_irrefl)

lemma later_trans: "later a b \<Longrightarrow> later b c \<Longrightarrow> later a c"
  unfolding later_def using lex_less_trans by blast

lemma later_total: "a \<noteq> b \<Longrightarrow> later a b \<or> later b a"
proof -
  assume "a \<noteq> b"
  then have "dt_fields a \<noteq> dt_fields b"
    by (auto simp add: dt_fields_def datetime.equality)
  moreover have "length (dt_fields b) = length (dt_fields a)"
    by (simp add: dt_fields_def)
  ultimately show ?thesis
    unfolding later_def using lex_less_total [of "dt_fields b" "dt_fields a"] by auto
qed

lemma ascii_examples:
  "ascii ''2999-01-15'' = iso_date 2999 1 15"
  "ascii ''2999-01'' = iso_month 2999 1"
  "ascii ''2020-01'' = iso_month 2020 1"
  "ascii ''not-a-date'' = [110, 111, 116, 45, 97, 45, 100, 97, 116, 101]"
  by code_simp+

lemma not_a_date:
  "strptime_ymd decimal (ascii ''not-a-date'') = None"
  "strptime_ym decimal (ascii ''not-a-date'') = None"
  by (simp_all add: ascii_examples strptime_ymd_def strptime_ym_def)

lemma extends_ascii_ascii_decimal: "extends_ascii ascii_decimal"
  by (simp add: extends_ascii_def list_all_iff)


lemma is_future_date_cases:
  "strptime_ymd decimal s = Some d \<Longrightarrow> is_future_date decimal now s = later d now"
  "strptime_ymd decimal s = None \<Longrightarrow> strptime_ym decimal s = Some d \<Longrightarrow>
     is_future_date decimal now s = later d now"
  "strptime_ymd decimal s = None \<Longrightarrow> strptime_ym decimal s = None \<Longrightarrow>
     \<not> is_future_date decimal now s"
  by (simp_all add: is_future_date_def)

lemma later_midnight:
  "later (midnight y m d) now =
     (dt_year now < y \<or> (dt_year now = y \<and> (dt_month now < m
        \<or> (dt_month now = m \<and> dt_day now < d))))"
  by (simp add: later_eq midnight_def)

lemma is_future_iso:
  assumes e: "extends_ascii decimal" and v: "1 \<le> y" "y \<le> 9999" "1 \<le> m" "m \<le> 12"
  shows "1 \<le> d \<Longrightarrow> d \<le> days_in_month y m \<Longrightarrow>
      is_future_date decimal now (iso_date y m d) = later (midnight y m d) now"
    and "is_future_date decimal now (iso_month y m) = later (midnight y m 1) now"
  using strptime_ymd_iso_date [OF e v] strptime_ym_iso_month [OF e v]
  by (simp_all add: is_future_date_def)

lemma examples_future:
  assumes e: "extends_ascii decimal"
  shows "is_future_date decimal now (ascii ''2999-01'') = later (midnight 2999 1 1) now"
    and "is_future_date decimal now (ascii ''2999-01-15'') = later (midnight 2999 1 15) now"
    and "is_future_date decimal now (ascii ''2020-01'') = later (midnight 2020 1 1) now"
proof -
  have d: "15 \<le> days_in_month 2999 1" by (simp add: days_in_month_def)
  show "is_future_date decimal now (ascii ''2999-01'') = later (midnight 2999 1 1) now"
    using is_future_iso(2) [OF e, of 2999 1 now] by (simp add: ascii_examples)
  show "is_future_date decimal now (ascii ''2999-01-15'') = later (midnight 2999 1 15) now"
    using is_future_iso(1) [OF e, of 2999 1 15 now] d by (simp add: ascii_examples)
  show "is_future_date decimal now (ascii ''2020-01'') = later (midnight 2020 1 1) now"
    using is_future_iso(2) [OF e, of 2020 1 now] by (simp add: ascii_examples)
qed

lemma arabic_indic_year:
  assumes e: "extends_ascii decimal" and a: "decimal 1634 = Some 2"
  shows "strptime_ymd decimal (1634 # ascii ''999-01-15'') = Some (midnight 2999 1 15)"
proof -
  have t: "ascii ''999-01-15'' = [57, 57, 57, 45, 48, 49, 45, 49, 53]" by code_simp
  have n: "decimal 57 = Some 9" "decimal 53 = Some 5"
    using extends_asciiD [OF e, of 57] extends_asciiD [OF e, of 53]
    by (simp_all add: ascii_decimal_def)
  show ?thesis
    by (simp add: t strptime_ymd_def parse_year_def a n split_month_day_def parse_month_def
        parse_day_def make_date_def days_in_month_def)
qed

lemma parse_month_forms:
  assumes m: "1 \<le> m" "m \<le> 12" and t: "tok \<in> set (month_forms m)"
  shows "parse_month tok = Some m"
proof (cases "tok = digits2 m")
  case True
  then show ?thesis using parse_month_digits2 [OF m] by simp
next
  case False
  then have "m \<le> 9 \<and> tok = [48 + m]"
    using t by (simp add: month_forms_def split: if_splits)
  then show ?thesis using m by (simp add: parse_month_def)
qed

lemma parse_day_forms:
  assumes e: "extends_ascii decimal" and d: "1 \<le> d" "d \<le> 31"
    and t: "tok \<in> set (day_forms d)"
  shows "parse_day decimal tok = Some d"
proof (cases "tok = digits2 d")
  case True
  then show ?thesis using parse_day_digits2 [OF e d] by simp
next
  case False
  then have "d \<le> 9 \<and> (tok = [48 + d] \<or> tok = [32, 48 + d])"
    using t by (simp add: day_forms_def split: if_splits)
  then show ?thesis using d by (auto simp add: parse_day_def)
qed

lemma month_forms_shape:
  "tok \<in> set (month_forms m) \<Longrightarrow>
   (length tok = 1 \<or> length tok = 2) \<and> 45 \<notin> set tok"
  by (auto simp add: month_forms_def digits2_def split: if_splits)

lemma split_month_day_tokens:
  assumes "length mtok = 1 \<or> length mtok = 2" "45 \<notin> set mtok"
  shows "split_month_day (mtok @ 45 # dtok) = Some (mtok, dtok)"
proof -
  from assms consider a where "mtok = [a]" "a \<noteq> 45" | a b where "mtok = [a, b]" "a \<noteq> 45" "b \<noteq> 45"
    by (cases mtok; cases "tl mtok"; auto)
  then show ?thesis
    by cases (simp_all add: split_month_day_def)
qed

lemma split_month_day_no_hyphen:
  assumes "45 \<notin> set tok"
  shows "split_month_day tok = None"
proof -
  have "i < length tok \<Longrightarrow> tok ! i \<noteq> 45" for i
    using assms by (metis nth_mem)
  from this [of 1] this [of 2] show ?thesis
    by (simp add: split_month_day_def)
qed

lemma strptime_ymd_forms:
  assumes e: "extends_ascii decimal"
    and v: "1 \<le> y" "y \<le> 9999" "1 \<le> m" "m \<le> 12" "1 \<le> d" "d \<le> days_in_month y m"
    and mt: "mtok \<in> set (month_forms m)" and dt: "dtok \<in> set (day_forms d)"
  shows "strptime_ymd decimal (digits4 y @ [45] @ mtok @ [45] @ dtok) = Some (midnight y m d)"
proof -
  let ?s = "digits4 y @ [45] @ mtok @ [45] @ dtok"
  have d31: "d \<le> 31" using v(6) days_in_month_le [of y m] by linarith
  have l4: "length (digits4 y) = 4" by (simp add: digits4_def digits2_def)
  have a: "\<not> length ?s < 5" "?s ! 4 = 45" "take 4 ?s = digits4 y" "drop 5 ?s = mtok @ 45 # dtok"
    by (simp_all add: l4 nth_append)
  have sp: "split_month_day (mtok @ 45 # dtok) = Some (mtok, dtok)"
    using month_forms_shape [OF mt] by (intro split_month_day_tokens) auto
  show ?thesis
    unfolding strptime_ymd_def
    using parse_year_digits4 [OF e v(2)] parse_month_forms [OF v(3,4) mt]
      parse_day_forms [OF e v(5) d31 dt] v a sp
    by (simp add: make_date_def)
qed

lemma strptime_ym_forms:
  assumes e: "extends_ascii decimal"
    and v: "1 \<le> y" "y \<le> 9999" "1 \<le> m" "m \<le> 12"
    and mt: "mtok \<in> set (month_forms m)"
  shows "strptime_ym decimal (digits4 y @ [45] @ mtok) = Some (midnight y m 1)"
    and "strptime_ymd decimal (digits4 y @ [45] @ mtok) = None"
proof -
  let ?s = "digits4 y @ [45] @ mtok"
  have l4: "length (digits4 y) = 4" by (simp add: digits4_def digits2_def)
  have a: "\<not> length ?s < 5" "?s ! 4 = 45" "take 4 ?s = digits4 y" "drop 5 ?s = mtok"
    by (simp_all add: l4 nth_append)
  have dm: "1 \<le> days_in_month y m" by (simp add: days_in_month_def)
  show "strptime_ym decimal ?s = Some (midnight y m 1)"
    unfolding strptime_ym_def
    using parse_year_digits4 [OF e v(2)] parse_month_forms [OF v(3,4) mt] v dm a
    by (simp add: make_date_def)
  have "split_month_day mtok = None"
    using month_forms_shape [OF mt] by (intro split_month_day_no_hyphen) simp
  then show "strptime_ymd decimal ?s = None"
    unfolding strptime_ymd_def using a by (simp split: option.splits)
qed

lemma ascii_digit:
  assumes e: "extends_ascii decimal" and c: "c < 128" and d: "decimal c = Some v"
  shows "v \<le> 9 \<and> c = 48 + v"
  using extends_asciiD [OF e c] d by (auto simp add: ascii_decimal_def split: if_splits)

lemma digits4_digits:
  assumes "a \<le> 9" "b \<le> 9" "c \<le> 9" "d \<le> (9::nat)"
  shows "digits4 (1000 * a + 100 * b + 10 * c + d) = [48 + a, 48 + b, 48 + c, 48 + d]"
proof -
  let ?y = "1000 * a + 100 * b + 10 * c + d"
  have y: "?y = (10 * c + d) + 100 * (10 * a + b)" by simp
  have lo: "10 * c + d < 100" using assms by linarith
  have g: "r < 100 \<Longrightarrow> (r + 100 * q) div 100 = q \<and> (r + 100 * q) mod 100 = r" for r q :: nat
    by simp
  have h: "?y div 100 = 10 * a + b" and l: "?y mod 100 = 10 * c + d"
    using g [OF lo, of "10 * a + b"] by (simp_all only: y)
  have "(10 * a + b) div 10 = a" "(10 * a + b) mod 10 = b"
    "(10 * c + d) div 10 = c" "(10 * c + d) mod 10 = d"
    using assms by simp_all
  then show ?thesis
    unfolding digits4_def h l digits2_def by simp
qed

lemma parse_year_ascii:
  assumes e: "extends_ascii decimal" and a: "is_ascii tok"
    and p: "parse_year decimal tok = Some y"
  shows "tok = digits4 y"
proof -
  from p obtain a b c d a' b' c' d' where t: "tok = [a, b, c, d]"
    and v: "decimal a = Some a'" "decimal b = Some b'" "decimal c = Some c'" "decimal d = Some d'"
    and y: "y = 1000 * a' + 100 * b' + 10 * c' + d'"
    by (auto simp add: parse_year_def split: list.splits option.splits)
  have lt: "a < 128" "b < 128" "c < 128" "d < 128"
    using a by (simp_all add: t is_ascii_def)
  note z = ascii_digit [OF e lt(1) v(1)] ascii_digit [OF e lt(2) v(2)]
    ascii_digit [OF e lt(3) v(3)] ascii_digit [OF e lt(4) v(4)]
  have "digits4 y = [48 + a', 48 + b', 48 + c', 48 + d']"
    unfolding y using z by (intro digits4_digits) simp_all
  then show ?thesis using z t by simp
qed

lemma parse_month_complete:
  assumes "parse_month tok = Some m"
  shows "tok \<in> set (month_forms m)"
proof -
  from assms consider a where "tok = [a]" "49 \<le> a" "a \<le> 57" "m = a - 48"
    | b where "tok = [49, b]" "48 \<le> b" "b \<le> 50" "m = 10 + (b - 48)"
    | b where "tok = [48, b]" "49 \<le> b" "b \<le> 57" "m = b - 48"
    by (auto simp add: parse_month_def split: list.splits if_splits)
  then show ?thesis
  proof cases
    case 1
    then have "m \<le> 9" "a = 48 + m" by auto
    then show ?thesis using 1(1) by (simp add: month_forms_def)
  next
    case 2
    then have "b = 48 \<or> b = 49 \<or> b = 50" by linarith
    then show ?thesis using 2 by (auto simp add: month_forms_def digits2_def)
  next
    case 3
    then have "m div 10 = 0" "m mod 10 = b - 48" by simp_all
    then show ?thesis using 3 by (simp add: month_forms_def digits2_def)
  qed
qed

lemma parse_day_complete:
  assumes e: "extends_ascii decimal" and a: "is_ascii tok"
    and p: "parse_day decimal tok = Some d"
  shows "tok \<in> set (day_forms d)"
proof -
  from p consider a where "tok = [a]" "49 \<le> a" "a \<le> 57" "d = a - 48"
    | b where "tok = [51, b]" "48 \<le> b" "b \<le> 49" "d = 30 + (b - 48)"
    | t b v where "tok = [t, b]" "t = 49 \<or> t = 50" "decimal b = Some v" "d = 10 * (t - 48) + v"
    | t b where "tok = [t, b]" "t = 48 \<or> t = 32" "49 \<le> b" "b \<le> 57" "d = b - 48"
    by (auto simp add: parse_day_def split: list.splits if_splits option.splits)
  then show ?thesis
  proof cases
    case 1
    then have "d \<le> 9" "a = 48 + d" by auto
    then show ?thesis using 1(1) by (simp add: day_forms_def)
  next
    case 2
    then have "b = 48 \<or> b = 49" by linarith
    then show ?thesis using 2 by (auto simp add: day_forms_def digits2_def)
  next
    case 3
    have "b < 128" using a 3(1) by (simp add: is_ascii_def)
    from ascii_digit [OF e this 3(3)] have v: "v \<le> 9" "b = 48 + v" by simp_all
    have "d div 10 = t - 48" "d mod 10 = v" using 3(2,4) v(1) by auto
    then show ?thesis using 3 v by (auto simp add: day_forms_def digits2_def)
  next
    case 4
    then have "d div 10 = 0" "d mod 10 = b - 48" "d \<le> 9" by simp_all
    then show ?thesis using 4 by (auto simp add: day_forms_def digits2_def)
  qed
qed

lemma split_month_day_append:
  "split_month_day rest = Some (mtok, dtok) \<Longrightarrow> rest = mtok @ 45 # dtok"
proof -
  assume a: "split_month_day rest = Some (mtok, dtok)"
  have h: "i < length rest \<Longrightarrow> rest ! i = 45 \<Longrightarrow> rest = take i rest @ 45 # drop (Suc i) rest" for i
    using id_take_nth_drop [of i rest] by simp
  from a show ?thesis
    using h [of 1] h [of 2]
    by (auto simp add: split_month_day_def numeral_2_eq_2 numeral_3_eq_3 split: if_splits)
qed

lemma is_ascii_parts:
  "is_ascii (xs @ ys) = (is_ascii xs \<and> is_ascii ys)"
  "is_ascii (x # xs) = (x < 128 \<and> is_ascii xs)"
  "is_ascii xs \<Longrightarrow> is_ascii (take n xs)"
  "is_ascii xs \<Longrightarrow> is_ascii (drop n xs)"
  by (auto simp add: is_ascii_def list_all_iff dest: in_set_takeD in_set_dropD)

lemma strptime_ymd_ascii:
  assumes e: "extends_ascii decimal" and a: "is_ascii s"
    and p: "strptime_ymd decimal s = Some dt"
  shows "\<exists>mtok \<in> set (month_forms (dt_month dt)). \<exists>dtok \<in> set (day_forms (dt_day dt)).
           s = digits4 (dt_year dt) @ [45] @ mtok @ [45] @ dtok"
proof -
  from p obtain y mtok dtok m d where
    s: "5 \<le> length s" "s ! 4 = 45" and py: "parse_year decimal (take 4 s) = Some y"
    and sp: "split_month_day (drop 5 s) = Some (mtok, dtok)"
    and pm: "parse_month mtok = Some m" and pd: "parse_day decimal dtok = Some d"
    and md: "make_date y m d = Some dt"
    by (auto simp add: strptime_ymd_def split: if_splits option.splits)
  have dt: "dt = midnight y m d" using make_date_valid [OF md] by simp
  have r: "drop 5 s = mtok @ 45 # dtok" by (rule split_month_day_append [OF sp])
  have "is_ascii (drop 5 s)" using a by (rule is_ascii_parts(4))
  then have ad: "is_ascii dtok" by (simp add: r is_ascii_parts)
  have y: "take 4 s = digits4 y"
    using e is_ascii_parts(3) [OF a] py by (rule parse_year_ascii)
  have "s = take 4 s @ s ! 4 # drop 5 s"
    using id_take_nth_drop [of 4 s] s(1) by simp
  then have "s = digits4 y @ [45] @ mtok @ [45] @ dtok"
    by (simp add: y s(2) r)
  moreover have "mtok \<in> set (month_forms m)" by (rule parse_month_complete [OF pm])
  moreover have "dtok \<in> set (day_forms d)" by (rule parse_day_complete [OF e ad pd])
  ultimately show ?thesis by (auto simp add: dt midnight_def)
qed

lemma strptime_ym_ascii:
  assumes e: "extends_ascii decimal" and a: "is_ascii s"
    and p: "strptime_ym decimal s = Some dt"
  shows "\<exists>mtok \<in> set (month_forms (dt_month dt)). s = digits4 (dt_year dt) @ [45] @ mtok"
proof -
  from p obtain y m where
    s: "5 \<le> length s" "s ! 4 = 45" and py: "parse_year decimal (take 4 s) = Some y"
    and pm: "parse_month (drop 5 s) = Some m"
    and md: "make_date y m 1 = Some dt"
    by (auto simp add: strptime_ym_def split: if_splits option.splits)
  have dt: "dt = midnight y m 1" using make_date_valid [OF md] by simp
  have y: "take 4 s = digits4 y"
    using e is_ascii_parts(3) [OF a] py by (rule parse_year_ascii)
  have "s = take 4 s @ s ! 4 # drop 5 s"
    using id_take_nth_drop [of 4 s] s(1) by simp
  then have "s = digits4 y @ [45] @ drop 5 s"
    by (simp add: y s(2))
  moreover have "drop 5 s \<in> set (month_forms m)" by (rule parse_month_complete [OF pm])
  ultimately show ?thesis by (auto simp add: dt midnight_def)
qed

lemma valid_date_midnight:
  "valid_date dt \<Longrightarrow> dt = midnight (dt_year dt) (dt_month dt) (dt_day dt)"
  by (simp add: valid_date_def midnight_def)

lemma strptime_ymd_iff:
  assumes e: "extends_ascii decimal" and a: "is_ascii s"
  shows "(strptime_ymd decimal s = Some dt) =
     (valid_date dt \<and> (\<exists>mtok \<in> set (month_forms (dt_month dt)).
        \<exists>dtok \<in> set (day_forms (dt_day dt)).
          s = digits4 (dt_year dt) @ [45] @ mtok @ [45] @ dtok))"
proof
  assume p: "strptime_ymd decimal s = Some dt"
  show "valid_date dt \<and> (\<exists>mtok \<in> set (month_forms (dt_month dt)).
        \<exists>dtok \<in> set (day_forms (dt_day dt)).
          s = digits4 (dt_year dt) @ [45] @ mtok @ [45] @ dtok)"
    using strptime_ymd_Some [OF p] strptime_ymd_ascii [OF e a p] by blast
next
  assume r: "valid_date dt \<and> (\<exists>mtok \<in> set (month_forms (dt_month dt)).
        \<exists>dtok \<in> set (day_forms (dt_day dt)).
          s = digits4 (dt_year dt) @ [45] @ mtok @ [45] @ dtok)"
  then obtain mtok dtok where v: "valid_date dt"
    and mt: "mtok \<in> set (month_forms (dt_month dt))"
    and dk: "dtok \<in> set (day_forms (dt_day dt))"
    and s: "s = digits4 (dt_year dt) @ [45] @ mtok @ [45] @ dtok"
    by blast
  have "strptime_ymd decimal s = Some (midnight (dt_year dt) (dt_month dt) (dt_day dt))"
    unfolding s using v by (intro strptime_ymd_forms [OF e _ _ _ _ _ _ mt dk])
      (simp_all add: valid_date_def)
  then show "strptime_ymd decimal s = Some dt"
    using valid_date_midnight [OF v] by simp
qed

lemma strptime_ym_iff:
  assumes e: "extends_ascii decimal" and a: "is_ascii s"
  shows "(strptime_ym decimal s = Some dt) =
     (valid_date dt \<and> dt_day dt = 1 \<and> (\<exists>mtok \<in> set (month_forms (dt_month dt)).
          s = digits4 (dt_year dt) @ [45] @ mtok))"
proof
  assume p: "strptime_ym decimal s = Some dt"
  show "valid_date dt \<and> dt_day dt = 1 \<and> (\<exists>mtok \<in> set (month_forms (dt_month dt)).
          s = digits4 (dt_year dt) @ [45] @ mtok)"
    using strptime_ym_Some [OF p] strptime_ym_ascii [OF e a p] by blast
next
  assume r: "valid_date dt \<and> dt_day dt = 1 \<and> (\<exists>mtok \<in> set (month_forms (dt_month dt)).
          s = digits4 (dt_year dt) @ [45] @ mtok)"
  then obtain mtok where v: "valid_date dt" and d1: "dt_day dt = 1"
    and mt: "mtok \<in> set (month_forms (dt_month dt))"
    and s: "s = digits4 (dt_year dt) @ [45] @ mtok"
    by blast
  have "strptime_ym decimal s = Some (midnight (dt_year dt) (dt_month dt) 1)"
    unfolding s using v by (intro strptime_ym_forms(1) [OF e _ _ _ _ mt])
      (simp_all add: valid_date_def)
  then show "strptime_ym decimal s = Some dt"
    using valid_date_midnight [OF v] d1 by simp
qed

lemma add_related_identifier_empty:
  "get_str (ri_identifier x) = [] \<Longrightarrow>
   related_identifiers_of (fst (add_related_identifier r x)) = related_identifiers_of r
   \<and> \<not> snd (add_related_identifier r x)"
  by (simp add: add_related_identifier_def related_identifiers_of_def Let_def get_list_def
      split: option.splits)

lemma add_identifier_to_list:
  "has_metadata r \<Longrightarrow>
   related_identifiers_of (fst (add_related_identifier r x)) = add_to_list (related_identifiers_of r) x"
  by (auto simp add: add_related_identifier_def related_identifiers_of_def has_metadata_def
      add_to_list_def Let_def get_list_def split: option.splits)

lemma identifier_loop_list:
  "has_metadata r \<Longrightarrow>
   related_identifiers_of (fst (identifier_loop is r n)) = foldl add_to_list (related_identifiers_of r) is"
proof (induction "is" arbitrary: r n)
  case Nil
  then show ?case by simp
next
  case (Cons i "is")
  have m: "has_metadata (fst (add_related_identifier r i))"
    using Cons.prems by (simp add: add_identifier_frame)
  show ?case
    using Cons.IH [OF m] add_identifier_to_list [OF Cons.prems, of i]
    by (simp add: split_beta)
qed

lemma apply_corrections_identifier_list:
  assumes "has_metadata r"
  shows "related_identifiers_of (fst (apply_corrections lower qa r s)) =
     (case c_related_identifiers (get_corrections qa) of
        None \<Rightarrow> related_identifiers_of r
      | Some v \<Rightarrow> foldl add_to_list (related_identifiers_of r) (identifier_list v))"
proof -
  let ?s5 = "date_step qa (descriptor_step lower qa (affiliation_step qa
      (abstract_step qa (title_step qa (r, 0, s)))))"
  have m: "has_metadata (fst ?s5)"
    using assms
    by (simp add: title_step_views abstract_step_views affiliation_step_views
        descriptor_step_views date_step_views)
  have ids: "related_identifiers_of (fst ?s5) = related_identifiers_of r"
    by (simp add: title_step_views abstract_step_views affiliation_step_views
        descriptor_step_more date_step_views)
  show ?thesis
    using identifier_loop_list [OF m] ids
    by (simp add: apply_corrections_def identifiers_step_eq split: option.splits)
qed

lemma affiliation_creators_depends:
  "creators_of r1 = creators_of r2 \<Longrightarrow>
   creators_of (fst (apply_affiliation_corrections r1 ks)) =
     creators_of (fst (apply_affiliation_corrections r2 ks))"
  by (auto simp add: apply_affiliation_corrections_def affiliation_corrections_applied_def
      creators_of_def split_beta split: option.splits)

lemma affiliation_step_creators:
  "creators_of (fst (affiliation_step qa st)) =
     (if affiliation_correction_recommended qa \<and> get_list (affiliation_corrections qa) \<noteq> []
      then creators_of (fst (apply_affiliation_corrections (fst st)
             (get_list (affiliation_corrections qa))))
      else creators_of (fst st))"
  by (simp add: affiliation_step_def split_beta Let_def)

lemma apply_corrections_creators_eq:
  "creators_of (fst (apply_corrections lower qa r s)) =
     (if affiliation_correction_recommended qa \<and> get_list (affiliation_corrections qa) \<noteq> []
      then creators_of (fst (apply_affiliation_corrections r (get_list (affiliation_corrections qa))))
      else creators_of r)"
proof -
  let ?s2 = "abstract_step qa (title_step qa (r, 0, s))"
  have c: "creators_of (fst ?s2) = creators_of r"
    by (simp add: title_step_views abstract_step_views)
  have "creators_of (fst (apply_corrections lower qa r s)) = creators_of (fst (affiliation_step qa ?s2))"
    by (simp add: apply_corrections_def identifiers_step_views date_step_views
        descriptor_step_more)
  then show ?thesis
    using affiliation_creators_depends [OF c] c
    by (simp add: affiliation_step_creators)
qed

lemma descriptor_custom_depends:
  "custom_fields r1 = custom_fields r2 \<Longrightarrow>
   custom_fields (fst (apply_descriptor_deletions lower r1 ds)) =
     custom_fields (fst (apply_descriptor_deletions lower r2 ds))"
  by (simp add: apply_descriptor_deletions_def Let_def split: option.splits)

lemma descriptor_no_deletions:
  "custom_fields (fst (apply_descriptor_deletions lower r [])) = custom_fields r"
  by (simp add: apply_descriptor_deletions_def Let_def split: option.splits)

lemma descriptor_step_custom:
  "custom_fields (fst (descriptor_step lower qa st)) =
     (if descriptor_corrected qa
      then (case c_delete_descriptor (get_corrections qa) of
              None \<Rightarrow> custom_fields (fst st)
            | Some v \<Rightarrow> custom_fields (fst (apply_descriptor_deletions lower (fst st)
                          (deletion_list v))))
      else custom_fields (fst st))"
  by (simp add: descriptor_step_def split_beta Let_def deletion_list_def descriptor_no_deletions
      split: option.splits sum.splits)

lemma apply_corrections_custom_eq:
  "custom_fields (fst (apply_corrections lower qa r s)) =
     (if descriptor_corrected qa
      then (case c_delete_descriptor (get_corrections qa) of
              None \<Rightarrow> custom_fields r
            | Some v \<Rightarrow> custom_fields (fst (apply_descriptor_deletions lower r (deletion_list v))))
      else custom_fields r)"
proof -
  let ?s3 = "affiliation_step qa (abstract_step qa (title_step qa (r, 0, s)))"
  have c: "custom_fields (fst ?s3) = custom_fields r"
    by (simp add: title_step_views abstract_step_views affiliation_step_views)
  have "custom_fields (fst (apply_corrections lower qa r s)) =
      custom_fields (fst (descriptor_step lower qa ?s3))"
    by (simp add: apply_corrections_def identifiers_step_views date_step_views)
  then show ?thesis
    using descriptor_custom_depends [OF c, of lower] c
    by (simp add: descriptor_step_custom split: option.splits)
qed

lemma correct_draft_document:
  "fst (correct_draft qa d st) =
     mark_qa_checked
       (let d1 = (case c_title (get_corrections qa) of
                    None \<Rightarrow> d
                  | Some t \<Rightarrow> fst (applier_apply_title_correction d t));
            d2 = (if get_list (affiliation_corrections qa) = [] then d1
                  else fst (applier_apply_affiliation_corrections d1
                         (get_list (affiliation_corrections qa))))
        in if get_list (organizational_author_corrections qa) = [] then d2
           else fst (apply_organizational_author_corrections d2
                  (get_list (organizational_author_corrections qa))))"
  by (simp add: correct_draft_def split_beta Let_def split: option.splits)

lemma mark_only_live:
  "\<not> dry_run ap \<Longrightarrow> snd (snd (mark_record_as_qa_checked_only repo rid ap)) = Some d \<Longrightarrow>
   sent (fst (mark_record_as_qa_checked_only repo rid ap)) =
     sent ap @ [POST_draft rid, GET_draft rid, PUT_draft rid d, POST_publish rid]"
  by (auto simp add: mark_only_sent mark_only_draft open_draft_sent split: if_splits)

lemma mark_only_document:
  "snd (snd (mark_record_as_qa_checked_only repo rid ap)) =
     (if draft_reply_has_id repo (sent ap @ [POST_draft rid])
      then map_option mark_qa_checked
             (draft_document repo (sent ap @ [POST_draft rid, GET_draft rid]))
      else None)"
  by (simp add: mark_only_draft open_draft_sent)

lemma update_record_puts:
  "PUT_draft rid' d \<in> set (sent (fst (update_record repo rid qa ap))) \<Longrightarrow>
   PUT_draft rid' d \<in> set (sent ap) \<or> qa_checked_of d = Some True"
  using update_record_checked [of repo rid qa ap]
  by (auto simp add: update_record_sent open_draft_sent split: option.splits if_splits)

lemma mark_only_puts:
  "PUT_draft rid' d \<in> set (sent (fst (mark_record_as_qa_checked_only repo rid ap))) \<Longrightarrow>
   PUT_draft rid' d \<in> set (sent ap) \<or> qa_checked_of d = Some True"
  using mark_only_checked [of repo rid ap]
  by (auto simp add: mark_only_sent open_draft_sent split: option.splits if_splits)

lemma process_report_file_puts:
  "PUT_draft rid' d \<in> set (sent (fst (process_report_file repo loaded ap))) \<Longrightarrow>
   PUT_draft rid' d \<in> set (sent ap) \<or> qa_checked_of d = Some True"
  using update_record_puts [of rid' d repo _ _ ap] mark_only_puts [of rid' d repo _ ap]
  by (auto simp add: process_report_file_def Let_def split_beta count_error_def
      split: option.splits if_splits)

lemma process_files_puts:
  "PUT_draft rid' d \<in> set (sent (process_files repo fs ap)) \<Longrightarrow>
   PUT_draft rid' d \<in> set (sent ap) \<or> qa_checked_of d = Some True"
proof (induction fs arbitrary: ap)
  case Nil
  then show ?case by simp
next
  case (Cons f fs)
  have "PUT_draft rid' d \<in> set (sent (fst (process_report_file repo f ap)))
      \<or> qa_checked_of d = Some True"
    using Cons.IH [of "fst (process_report_file repo f ap)"] Cons.prems by simp
  then show ?case using process_report_file_puts [of rid' d repo f ap] by blast
qed

lemma process_report_file_live:
  "\<not> dry_run ap \<Longrightarrow> snd (process_report_file repo (Some report) ap) = Some d \<Longrightarrow>
   PUT_draft (get_str (record_id report)) d \<in> set (sent (fst (process_report_file repo (Some report) ap)))"
  using update_record_live [of ap repo "get_str (record_id report)" report d]
    mark_only_live [of ap repo "get_str (record_id report)" d]
  by (auto simp add: process_report_file_def Let_def split_beta split: if_splits)

section \<open>Claims\<close>

text \<open>
  C5. Descriptor deletion, for the library's lowercase function \<open>lower\<close> whatever it
  is: it keeps exactly the entries of \<^verbatim>\<open>custom_fields.iaea:descriptors_cai_text\<close>
  whose lowercase form is not among the lowercased deletions, returns true iff the list
  became shorter, and is idempotent: a second application of the same deletions changes
  nothing and returns false. Deleting \<^verbatim>\<open>"Reactor"\<close> from
  \<^verbatim>\<open>["REACTOR", "Fuel"]\<close> leaves \<^verbatim>\<open>["Fuel"]\<close> as soon as \<open>lower\<close> sends
  \<^verbatim>\<open>"REACTOR"\<close> and \<^verbatim>\<open>"Reactor"\<close> to the same string and \<^verbatim>\<open>"Fuel"\<close> to
  another one, as \<^verbatim>\<open>str.lower\<close> does.
\<close>

theorem descriptor_deletion:
  "descriptors_of (fst (apply_descriptor_deletions lower record deletions)) =
     filter (\<lambda>d. lower d \<notin> lower ` set deletions) (descriptors_of record)
   \<and> snd (apply_descriptor_deletions lower record deletions) =
       (length (descriptors_of (fst (apply_descriptor_deletions lower record deletions)))
          < length (descriptors_of record))
   \<and> apply_descriptor_deletions lower (fst (apply_descriptor_deletions lower record deletions)) deletions =
       (fst (apply_descriptor_deletions lower record deletions), False)
   \<and> (lower ''REACTOR'' = lower ''Reactor'' \<and> lower ''Fuel'' \<noteq> lower ''Reactor''
        \<and> descriptors_of record = [''REACTOR'', ''Fuel''] \<longrightarrow>
        descriptors_of (fst (apply_descriptor_deletions lower record [''Reactor''])) = [''Fuel''])"
  using descriptors_after_deletion [of lower "record" deletions]
    descriptors_after_deletion [of lower "record" "[''Reactor'']"]
    deletion_result [of lower "record" deletions] deletion_twice [of lower "record" deletions]
  by simp

theorem descriptor_deletion_witness:
  "descriptors_of (record_of_descriptors [''REACTOR'', ''Fuel'']) = [''REACTOR'', ''Fuel'']
   \<and> descriptors_of (fst (apply_descriptor_deletions ascii_lower
         (record_of_descriptors [''REACTOR'', ''Fuel'']) [''Reactor''])) = [''Fuel'']
   \<and> snd (apply_descriptor_deletions ascii_lower (record_of_descriptors [''REACTOR'', ''Fuel'']) [''Reactor''])"
proof -
  have d: "descriptors_of (record_of_descriptors [''REACTOR'', ''Fuel'']) = [''REACTOR'', ''Fuel'']"
    by (simp add: descriptors_of_def record_of_descriptors_def empty_custom_def get_list_def)
  show ?thesis
    using d descriptor_deletion [of ascii_lower "record_of_descriptors [''REACTOR'', ''Fuel'']" "[''Reactor'']"]
    by (simp add: lower_examples)
qed

text \<open>
  C1. Affiliation corrections, in the processor and in the applier. The claim as stated
  fails: a pair whose old name is recommended by a pair of the same list can leave the old
  name in the record, the processor skips a pair whose old name is empty, and a pair that
  recommends its own old name changes nothing (see the counterexample below). What holds:
  for a pair of the list with a non-empty recommended name whose old name is not the
  recommended name of any pair of the list, no affiliation entry named like the old name
  remains (in the processor when the old name is non-empty too); and when the list is that
  single pair, every entry with the old name is overwritten in place, the counter equals
  the number of entries that had the old name before, and the result is true iff there
  was such an entry.
\<close>

theorem affiliation_corrections_amended:
  assumes "k \<in> set corrs"
    and "get_str (recommended_affiliation k) \<noteq> []"
    and "\<forall>j\<in>set corrs. get_str (recommended_affiliation j) \<noteq> get_str (old_affiliation k)"
  shows "(get_str (old_affiliation k) \<noteq> [] \<longrightarrow>
            get_str (old_affiliation k)
              \<notin> set (affiliation_names (fst (affiliation_corrections_applied record corrs))))
       \<and> get_str (old_affiliation k)
            \<notin> set (affiliation_names (fst (applier_affiliation_corrections_applied record corrs)))
       \<and> (get_str (old_affiliation k) \<noteq> [] \<longrightarrow>
            affiliation_names (fst (affiliation_corrections_applied record [k])) =
              map (\<lambda>x. if x = get_str (old_affiliation k)
                        then get_str (recommended_affiliation k) else x)
                (affiliation_names record)
            \<and> snd (affiliation_corrections_applied record [k]) =
                count_list (affiliation_names record) (get_str (old_affiliation k))
            \<and> snd (apply_affiliation_corrections record [k]) =
                (get_str (old_affiliation k) \<in> set (affiliation_names record)))
       \<and> affiliation_names (fst (applier_affiliation_corrections_applied record [k])) =
            map (\<lambda>x. if x = get_str (old_affiliation k)
                      then get_str (recommended_affiliation k) else x)
              (affiliation_names record)
       \<and> snd (applier_affiliation_corrections_applied record [k]) =
            count_list (affiliation_names record) (get_str (old_affiliation k))
       \<and> snd (applier_apply_affiliation_corrections record [k]) =
            (get_str (old_affiliation k) \<in> set (affiliation_names record))"
proof -
  let ?old = "get_str (old_affiliation k)"
  have p1: "?old \<noteq> [] \<longrightarrow>
      ?old \<notin> set (affiliation_names (fst (affiliation_corrections_applied record corrs)))"
    using processor_removes [OF assms(1) _ assms(2,3)] by blast
  have p2: "?old \<notin> set (affiliation_names (fst (applier_affiliation_corrections_applied record corrs)))"
    using applier_removes [OF assms] .
  have p3: "?old \<noteq> [] \<longrightarrow>
      affiliation_names (fst (affiliation_corrections_applied record [k])) =
        map (\<lambda>x. if x = ?old then get_str (recommended_affiliation k) else x)
          (affiliation_names record)
      \<and> snd (affiliation_corrections_applied record [k]) = count_list (affiliation_names record) ?old"
    using processor_single [OF _ assms(2), of "record"] by (simp add: rename_def [abs_def])
  have p4: "?old \<noteq> [] \<longrightarrow> snd (apply_affiliation_corrections record [k]) =
      (?old \<in> set (affiliation_names record))"
    using p3 by (auto simp add: apply_affiliation_corrections_def split_beta count_list_pos)
  have p5: "affiliation_names (fst (applier_affiliation_corrections_applied record [k])) =
        map (\<lambda>x. if x = ?old then get_str (recommended_affiliation k) else x)
          (affiliation_names record)
      \<and> snd (applier_affiliation_corrections_applied record [k]) = count_list (affiliation_names record) ?old"
    using applier_single [OF assms(2), of "record"] by (simp add: rename_def [abs_def])
  have p6: "snd (applier_apply_affiliation_corrections record [k]) =
      (?old \<in> set (affiliation_names record))"
    using p5 by (auto simp add: applier_apply_affiliation_corrections_def split_beta count_list_pos)
  show ?thesis using p1 p2 p3 p4 p5 p6 by blast
qed

theorem affiliation_corrections_amended_witness:
  "pair ''A'' ''B'' \<in> set [pair ''A'' ''B'', pair ''C'' ''D'']
   \<and> ''A'' \<notin> set (affiliation_names (fst (affiliation_corrections_applied
         (record_of_affiliations [''A'', ''C'', ''A'']) [pair ''A'' ''B'', pair ''C'' ''D''])))
   \<and> snd (affiliation_corrections_applied (record_of_affiliations [''A'', ''C'', ''A''])
         [pair ''A'' ''B'']) = 2
   \<and> snd (applier_affiliation_corrections_applied (record_of_affiliations [''A'', ''C'', ''A''])
         [pair ''A'' ''B'']) = 2"
  using affiliation_corrections_amended [of "pair ''A'' ''B''" "[pair ''A'' ''B'', pair ''C'' ''D'']"
      "record_of_affiliations [''A'', ''C'', ''A'']"]
  by (simp add: pair_def get_str_def ex_names)

theorem affiliation_corrections_counterexample:
  "affiliation_names (fst (affiliation_corrections_applied
       (record_of_affiliations [''A'', ''B'']) [pair ''A'' ''B'', pair ''B'' ''A''])) = [''A'', ''A'']
   \<and> snd (affiliation_corrections_applied
       (record_of_affiliations [''A'', ''B'']) [pair ''A'' ''B'', pair ''B'' ''A'']) = 3
   \<and> affiliation_names (fst (applier_affiliation_corrections_applied
       (record_of_affiliations [''A'', ''B'']) [pair ''A'' ''B'', pair ''B'' ''A''])) = [''B'', ''A'']
   \<and> affiliation_names (fst (affiliation_corrections_applied
       (record_of_affiliations [[]]) [pair [] ''X''])) = [[]]
   \<and> affiliation_names (fst (affiliation_corrections_applied
       (record_of_affiliations [''A'']) [pair ''A'' ''A''])) = [''A'']"
  by code_simp

text \<open>
  C6. Adding a related identifier. The claim as stated fails for an identifier object whose
  \<^verbatim>\<open>identifier\<close> is empty or absent: the code requires the identifier to be
  non-empty and appends nothing. What holds:

  \<^item> on a record that has a metadata section and for an object with a non-empty
    identifier, the object is appended at the end of
    \<^verbatim>\<open>metadata.related_identifiers\<close> unless an entry with the same identifier
    string is already there, the addition returns true iff it appended, adding the
    same object a second time changes nothing and returns false, so a new identifier
    ends up in exactly one entry;
  \<^item> on every record, an object whose identifier is empty or absent leaves the list
    as it is and the addition returns false;
  \<^item> on every record and for every object, the title, the description, the
    publication date, the creators and the custom fields are left as they are;
  \<^item> a single object under \<^verbatim>\<open>corrections.related_identifiers\<close> is treated as the
    list of that one object.
\<close>

theorem related_identifier_amended:
  "(metadata record \<noteq> None \<and> get_str (ri_identifier x) \<noteq> [] \<longrightarrow>
      related_identifiers_of (fst (add_related_identifier record x)) =
         (if get_str (ri_identifier x) \<in> set (existing_identifiers record)
          then related_identifiers_of record else related_identifiers_of record @ [x])
      \<and> snd (add_related_identifier record x) =
         (get_str (ri_identifier x) \<notin> set (existing_identifiers record))
      \<and> add_related_identifier (fst (add_related_identifier record x)) x =
         (fst (add_related_identifier record x), False)
      \<and> (get_str (ri_identifier x) \<notin> set (existing_identifiers record) \<longrightarrow>
           count_list (existing_identifiers
               (fst (add_related_identifier (fst (add_related_identifier record x)) x)))
             (get_str (ri_identifier x)) = 1))
   \<and> (get_str (ri_identifier x) = [] \<longrightarrow>
        related_identifiers_of (fst (add_related_identifier record x)) =
          related_identifiers_of record
        \<and> \<not> snd (add_related_identifier record x))
   \<and> title_of (fst (add_related_identifier record x)) = title_of record
   \<and> description_of (fst (add_related_identifier record x)) = description_of record
   \<and> publication_date_of (fst (add_related_identifier record x)) = publication_date_of record
   \<and> creators_of (fst (add_related_identifier record x)) = creators_of record
   \<and> custom_fields (fst (add_related_identifier record x)) = custom_fields record
   \<and> identifiers_step (qa\<lparr>corrections := Some (c\<lparr>c_related_identifiers := Some (Inl x)\<rparr>)\<rparr>) st =
        identifiers_step (qa\<lparr>corrections := Some (c\<lparr>c_related_identifiers := Some (Inr [x])\<rparr>)\<rparr>) st"
proof -
  have n: "identifiers_step (qa\<lparr>corrections := Some (c\<lparr>c_related_identifiers := Some (Inl x)\<rparr>)\<rparr>) st =
      identifiers_step (qa\<lparr>corrections := Some (c\<lparr>c_related_identifiers := Some (Inr [x])\<rparr>)\<rparr>) st"
    by (rule identifiers_step_single) (simp_all add: get_corrections_def)
  have e: "get_str (ri_identifier x) = [] \<longrightarrow>
      related_identifiers_of (fst (add_related_identifier record x)) = related_identifiers_of record
      \<and> \<not> snd (add_related_identifier record x)"
    by (simp add: add_related_identifier_empty)
  have p: "metadata record \<noteq> None \<and> get_str (ri_identifier x) \<noteq> [] \<longrightarrow>
      related_identifiers_of (fst (add_related_identifier record x)) =
         (if get_str (ri_identifier x) \<in> set (existing_identifiers record)
          then related_identifiers_of record else related_identifiers_of record @ [x])
      \<and> snd (add_related_identifier record x) =
         (get_str (ri_identifier x) \<notin> set (existing_identifiers record))
      \<and> add_related_identifier (fst (add_related_identifier record x)) x =
         (fst (add_related_identifier record x), False)
      \<and> (get_str (ri_identifier x) \<notin> set (existing_identifiers record) \<longrightarrow>
           count_list (existing_identifiers
               (fst (add_related_identifier (fst (add_related_identifier record x)) x)))
             (get_str (ri_identifier x)) = 1)"
    using add_related_identifier_list [of "record" x] add_related_identifier_result [of "record" x]
      add_related_identifier_twice [of "record" x] add_related_identifier_single [of "record" x]
    by simp
  show ?thesis
    by (intro conjI, fact p, fact e) (simp_all add: add_identifier_frame n)
qed

theorem related_identifier_amended_witness:
  "metadata (record_of_identifiers []) \<noteq> None
   \<and> get_str (ri_identifier (doi ''10.1/x'')) \<noteq> []
   \<and> get_str (ri_identifier (doi [])) = []
   \<and> related_identifiers_of (fst (add_related_identifier (record_of_identifiers []) (doi ''10.1/x'')))
       = [doi ''10.1/x'']
   \<and> related_identifiers_of (fst (add_related_identifier
         (fst (add_related_identifier (record_of_identifiers []) (doi ''10.1/x''))) (doi ''10.1/x'')))
       = [doi ''10.1/x'']
   \<and> related_identifiers_of (fst (add_related_identifier (record_of_identifiers [doi ''10.1/x''])
         (doi []))) = [doi ''10.1/x'']"
proof -
  have a: "metadata (record_of_identifiers []) \<noteq> None"
    by (simp add: record_of_identifiers_def)
  have b: "get_str (ri_identifier (doi ''10.1/x'')) \<noteq> []" "get_str (ri_identifier (doi [])) = []"
    by (simp_all add: doi_def get_str_def)
  have e: "existing_identifiers (record_of_identifiers []) = []"
    by (simp add: existing_identifiers_def related_identifiers_of_def record_of_identifiers_def
        empty_meta_def get_list_def)
  have r: "related_identifiers_of (record_of_identifiers ris) = ris" for ris
    by (simp add: related_identifiers_of_def record_of_identifiers_def empty_meta_def get_list_def)
  show ?thesis
    using a b e r
      related_identifier_amended [of "record_of_identifiers []" "doi ''10.1/x''"]
      related_identifier_amended [of "record_of_identifiers [doi ''10.1/x'']" "doi []"]
    by simp
qed

theorem related_identifier_counterexample:
  "get_str (ri_identifier (doi [])) \<notin> set (existing_identifiers (record_of_identifiers []))
   \<and> related_identifiers_of (fst (add_related_identifier (record_of_identifiers []) (doi []))) = []
   \<and> \<not> snd (add_related_identifier (record_of_identifiers []) (doi []))
   \<and> related_identifiers_of (fst (add_related_identifier (record_of_identifiers [])
          \<lparr>ri_identifier = None, ri_scheme = Some ''doi'', ri_relation_type = None\<rparr>)) = []"
  by (simp add: add_related_identifier_def related_identifiers_of_def existing_identifiers_def
      record_of_identifiers_def doi_def empty_meta_def get_str_def get_list_def)

text \<open>
  C4. The counter \<^verbatim>\<open>corrections_applied\<close> of \<^verbatim>\<open>process_qa_report\<close>. The claim
  as stated fails: affiliation corrections add one to the counter however many entries
  matched, and every related identifier that is appended adds one (see the counterexample
  below). What holds, on a record with a metadata section: the counter is the number of
  kinds applied among title, abstract, affiliation, descriptor deletion and publication
  date, each counted once, plus the number of related identifiers appended.
\<close>

theorem corrections_applied_count:
  assumes "metadata r \<noteq> None"
  shows "fst (snd (apply_corrections lower qa r s)) + length (related_identifiers_of r) =
      of_bool (title_corrected qa \<and> c_title (get_corrections qa) \<noteq> None)
    + of_bool (abstract_corrected qa \<and> c_abstract (get_corrections qa) \<noteq> None)
    + of_bool (affiliation_correction_recommended qa
        \<and> snd (apply_affiliation_corrections r (get_list (affiliation_corrections qa))))
    + of_bool (descriptor_corrected qa
        \<and> (case c_delete_descriptor (get_corrections qa) of None \<Rightarrow> False
           | Some v \<Rightarrow> snd (apply_descriptor_deletions lower r (deletion_list v))))
    + of_bool (date_corrected qa \<and> c_publication_date (get_corrections qa) \<noteq> None)
    + length (related_identifiers_of (fst (apply_corrections lower qa r s)))"
proof -
  let ?s1 = "title_step qa (r, 0, s)"
  let ?s2 = "abstract_step qa ?s1"
  let ?s3 = "affiliation_step qa ?s2"
  let ?s4 = "descriptor_step lower qa ?s3"
  let ?s5 = "date_step qa ?s4"
  have m: "has_metadata (fst ?s5)"
    using assms
    by (simp add: has_metadata_def [of r] title_step_views abstract_step_views affiliation_step_views
        descriptor_step_views date_step_views)
  have ids: "related_identifiers_of (fst ?s5) = related_identifiers_of r"
    by (simp add: title_step_views abstract_step_views affiliation_step_views
        descriptor_step_more date_step_views)
  have aff: "snd (apply_affiliation_corrections (fst ?s2) ks) =
      snd (apply_affiliation_corrections r ks)" for ks
    by (rule affiliation_result_depends) (simp add: title_step_views abstract_step_views)
  have des: "snd (apply_descriptor_deletions lower (fst ?s3) ds) =
      snd (apply_descriptor_deletions lower r ds)" for ds
    by (rule descriptor_result_depends)
      (simp add: title_step_views abstract_step_views affiliation_step_views)
  have c5: "fst (snd ?s5) =
      of_bool (title_corrected qa \<and> c_title (get_corrections qa) \<noteq> None)
    + of_bool (abstract_corrected qa \<and> c_abstract (get_corrections qa) \<noteq> None)
    + of_bool (affiliation_correction_recommended qa
        \<and> snd (apply_affiliation_corrections r (get_list (affiliation_corrections qa))))
    + of_bool (descriptor_corrected qa
        \<and> (case c_delete_descriptor (get_corrections qa) of None \<Rightarrow> False
           | Some v \<Rightarrow> snd (apply_descriptor_deletions lower r (deletion_list v))))
    + of_bool (date_corrected qa \<and> c_publication_date (get_corrections qa) \<noteq> None)"
    by (simp add: title_step_views abstract_step_views affiliation_step_count
        descriptor_step_views date_step_views aff des split: option.splits)
  show ?thesis
    using identifiers_step_count [OF m, of qa] c5 ids
    by (simp add: apply_corrections_def)
qed

theorem corrections_applied_count_witness:
  "metadata (record_of_affiliations [''A'', ''A'']) \<noteq> None
   \<and> fst (snd (apply_corrections ascii_lower example_report (record_of_affiliations [''A'', ''A'']) zero_stats)) = 4"
proof -
  let ?r = "record_of_affiliations [''A'', ''A'']"
  have h1: "metadata ?r \<noteq> None"
    by (simp add: record_of_affiliations_def)
  have h2: "related_identifiers_of ?r = []"
    by code_simp
  have h3: "length (related_identifiers_of (fst (apply_corrections ascii_lower example_report ?r zero_stats))) = 2"
    by code_simp
  have h4: "snd (apply_affiliation_corrections ?r [pair ''A'' ''B''])"
    by code_simp
  have h5: "title_corrected example_report" "c_title (get_corrections example_report) \<noteq> None"
    "\<not> abstract_corrected example_report" "affiliation_correction_recommended example_report"
    "get_list (affiliation_corrections example_report) = [pair ''A'' ''B'']"
    "\<not> descriptor_corrected example_report" "\<not> date_corrected example_report"
    by (simp_all add: example_report_def empty_report_def get_corrections_def
        empty_corrections_def get_list_def)
  show ?thesis
    using h1 corrections_applied_count [OF h1, of ascii_lower example_report zero_stats] h2 h3 h4 h5
    by simp
qed

theorem corrections_applied_count_counterexample:
  "snd (affiliation_corrections_applied (record_of_affiliations [''A'', ''A'']) [pair ''A'' ''B'']) = 2
   \<and> fst (snd (apply_corrections ascii_lower
        (empty_report\<lparr>affiliation_correction_recommended := True,
           affiliation_corrections := Some [pair ''A'' ''B'']\<rparr>)
        (record_of_affiliations [''A'', ''A'']) zero_stats)) = 1
   \<and> fst (snd (apply_corrections ascii_lower
        (empty_report\<lparr>corrections := Some (empty_corrections\<lparr>c_related_identifiers :=
           Some (Inr [doi ''10.1/x'', doi ''10.1/y''])\<rparr>)\<rparr>)
        (record_of_affiliations [''A'', ''A'']) zero_stats)) = 2"
  by code_simp

text \<open>
  C2. Which corrections need a flag. The claim as stated fails in three places (see the
  counterexample below): the processor adds related identifiers whenever the key is
  present, there being no flag for them; the processor applies affiliation corrections
  only under the flag \<^verbatim>\<open>affiliation_correction_recommended\<close> and never applies
  organizational-author corrections; the applier writes the title whenever the key is
  present, whatever \<^verbatim>\<open>title_corrected\<close> says. What holds:

  \<^item> in the processor the title, the abstract and the publication date are
    overwritten with the correction exactly when their flag is true and their key is
    present, and are otherwise left as fetched;
  \<^item> the custom fields are those left by the descriptor deletion when
    \<^verbatim>\<open>descriptor_corrected\<close> is true and \<^verbatim>\<open>delete_descriptor\<close> is present, and
    otherwise those fetched;
  \<^item> the creators are those left by the affiliation matcher when
    \<^verbatim>\<open>affiliation_correction_recommended\<close> is true and the affiliation list is
    non-empty, and otherwise those fetched;
  \<^item> the organizational-author list of the report has no effect on the processor;
  \<^item> the related identifiers are left as fetched when their key is absent and, on a
    record with a metadata section, are those left by adding each listed object in
    turn when the key is present, whatever the flags; with every flag false that loop
    gives the whole corrected record;
  \<^item> in the applier the corrected draft is the draft with the title overwritten when
    its key is present, then the affiliation matcher run when its list is non-empty,
    then the organizational-author matcher run when its list is non-empty, then the
    marker set; so the title is the correction exactly when its key is present, the
    creators are unchanged when both lists are empty, and no flag of the report
    matters.
\<close>

theorem corrections_gating:
  "title_of (fst (apply_corrections lower qa r s)) =
     (if title_corrected qa \<and> c_title (get_corrections qa) \<noteq> None
      then c_title (get_corrections qa) else title_of r)
   \<and> description_of (fst (apply_corrections lower qa r s)) =
     (if abstract_corrected qa \<and> c_abstract (get_corrections qa) \<noteq> None
      then c_abstract (get_corrections qa) else description_of r)
   \<and> publication_date_of (fst (apply_corrections lower qa r s)) =
     (if date_corrected qa \<and> c_publication_date (get_corrections qa) \<noteq> None
      then c_publication_date (get_corrections qa) else publication_date_of r)
   \<and> custom_fields (fst (apply_corrections lower qa r s)) =
     (if descriptor_corrected qa
      then (case c_delete_descriptor (get_corrections qa) of
              None \<Rightarrow> custom_fields r
            | Some v \<Rightarrow> custom_fields (fst (apply_descriptor_deletions lower r (deletion_list v))))
      else custom_fields r)
   \<and> (\<not> (descriptor_corrected qa \<and> c_delete_descriptor (get_corrections qa) \<noteq> None) \<longrightarrow>
        custom_fields (fst (apply_corrections lower qa r s)) = custom_fields r)
   \<and> creators_of (fst (apply_corrections lower qa r s)) =
     (if affiliation_correction_recommended qa \<and> get_list (affiliation_corrections qa) \<noteq> []
      then creators_of (fst (apply_affiliation_corrections r (get_list (affiliation_corrections qa))))
      else creators_of r)
   \<and> (\<not> (affiliation_correction_recommended qa \<and> get_list (affiliation_corrections qa) \<noteq> []) \<longrightarrow>
        creators_of (fst (apply_corrections lower qa r s)) = creators_of r)
   \<and> apply_corrections lower (qa\<lparr>organizational_author_corrections := x\<rparr>) r s =
        apply_corrections lower qa r s
   \<and> (c_related_identifiers (get_corrections qa) = None \<longrightarrow>
        related_identifiers_of (fst (apply_corrections lower qa r s)) = related_identifiers_of r)
   \<and> (metadata r \<noteq> None \<longrightarrow>
        (\<forall>v. c_related_identifiers (get_corrections qa) = Some v \<longrightarrow>
           related_identifiers_of (fst (apply_corrections lower qa r s)) =
             related_identifiers_of (fst (identifier_loop (identifier_list v) r 0))))
   \<and> (\<not> title_corrected qa \<and> \<not> abstract_corrected qa \<and> \<not> affiliation_correction_recommended qa
        \<and> \<not> descriptor_corrected qa \<and> \<not> date_corrected qa \<longrightarrow>
        (\<forall>v. c_related_identifiers (get_corrections qa) = Some v \<longrightarrow>
           fst (apply_corrections lower qa r s) = fst (identifier_loop (identifier_list v) r 0)))
   \<and> fst (correct_draft qa d st) =
       mark_qa_checked
         (let d1 = (case c_title (get_corrections qa) of
                      None \<Rightarrow> d
                    | Some t \<Rightarrow> fst (applier_apply_title_correction d t));
              d2 = (if get_list (affiliation_corrections qa) = [] then d1
                    else fst (applier_apply_affiliation_corrections d1
                           (get_list (affiliation_corrections qa))))
          in if get_list (organizational_author_corrections qa) = [] then d2
             else fst (apply_organizational_author_corrections d2
                    (get_list (organizational_author_corrections qa))))
   \<and> title_of (fst (correct_draft qa d st)) =
        (case c_title (get_corrections qa) of None \<Rightarrow> title_of d | Some t \<Rightarrow> Some t)
   \<and> (get_list (affiliation_corrections qa) = []
        \<and> get_list (organizational_author_corrections qa) = [] \<longrightarrow>
        creators_of (fst (correct_draft qa d st)) = creators_of d)
   \<and> correct_draft (qa\<lparr>title_corrected := b1, abstract_corrected := b2,
        descriptor_corrected := b3, date_corrected := b4,
        affiliation_correction_recommended := b5\<rparr>) d st = correct_draft qa d st"
proof -
  have ids: "metadata r \<noteq> None \<longrightarrow>
        (\<forall>v. c_related_identifiers (get_corrections qa) = Some v \<longrightarrow>
           related_identifiers_of (fst (apply_corrections lower qa r s)) =
             related_identifiers_of (fst (identifier_loop (identifier_list v) r 0)))"
    using apply_corrections_identifier_list [of r lower qa s] identifier_loop_list [of r _ 0]
    by (simp add: has_metadata_def)
  have unf: "\<not> title_corrected qa \<and> \<not> abstract_corrected qa \<and> \<not> affiliation_correction_recommended qa
        \<and> \<not> descriptor_corrected qa \<and> \<not> date_corrected qa \<longrightarrow>
        (\<forall>v. c_related_identifiers (get_corrections qa) = Some v \<longrightarrow>
           fst (apply_corrections lower qa r s) = fst (identifier_loop (identifier_list v) r 0))"
    using unflagged_corrections [where qa = qa and r = r and s = s and lower = lower] by simp
  show ?thesis
    by (intro conjI, (rule apply_corrections_views)+, rule apply_corrections_custom_eq,
        simp add: apply_corrections_custom, rule apply_corrections_creators_eq,
        simp add: apply_corrections_creators, rule processor_ignores_organizational,
        simp add: apply_corrections_identifiers, fact ids, fact unf,
        rule correct_draft_document, rule correct_draft_title,
        simp add: correct_draft_creators, rule correct_draft_flags)
qed

theorem corrections_gating_witness:
  "\<not> title_corrected unflagged_report
   \<and> \<not> (affiliation_correction_recommended unflagged_report
        \<and> get_list (affiliation_corrections unflagged_report) \<noteq> [])
   \<and> title_of (fst (apply_corrections ascii_lower unflagged_report (record_of_affiliations [''A'', ''A''])
        zero_stats)) = title_of (record_of_affiliations [''A'', ''A''])
   \<and> creators_of (fst (apply_corrections ascii_lower unflagged_report (record_of_affiliations [''A'', ''A''])
        zero_stats)) = creators_of (record_of_affiliations [''A'', ''A''])
   \<and> fst (apply_corrections ascii_lower unflagged_report (record_of_affiliations [''A'', ''A'']) zero_stats) =
       fst (identifier_loop [doi ''10.1/x'', doi ''10.1/y''] (record_of_affiliations [''A'', ''A'']) 0)
   \<and> title_of (fst (correct_draft unflagged_report (record_of_affiliations [''A'', ''A''])
        zero_applier_stats)) = Some ''New Title''"
  using corrections_gating [where lower = ascii_lower and qa = unflagged_report
      and r = "record_of_affiliations [''A'', ''A'']" and s = zero_stats
      and d = "record_of_affiliations [''A'', ''A'']" and st = zero_applier_stats]
  by (simp add: unflagged_report_fields identifier_list_def identifier_loop_frame
      mark_qa_checked_views applier_title_frame applier_affiliation_frame organizational_frame
      Let_def del: identifier_loop.simps)

theorem corrections_gating_counterexample:
  "[title_corrected unflagged_report, abstract_corrected unflagged_report,
    descriptor_corrected unflagged_report, date_corrected unflagged_report,
    affiliation_correction_recommended unflagged_report] = [False, False, False, False, False]
   \<and> related_identifiers_of (record_of_affiliations [''A'', ''A'']) = []
   \<and> related_identifiers_of (fst (apply_corrections ascii_lower unflagged_report
        (record_of_affiliations [''A'', ''A'']) zero_stats)) = [doi ''10.1/x'', doi ''10.1/y'']
   \<and> get_list (affiliation_corrections unflagged_report) = [pair ''A'' ''B'']
   \<and> affiliation_names (fst (apply_corrections ascii_lower unflagged_report
        (record_of_affiliations [''A'', ''A'']) zero_stats)) = [''A'', ''A'']
   \<and> title_of (fst (correct_draft unflagged_report (record_of_affiliations [''A'', ''A''])
        zero_applier_stats)) = Some ''New Title''"
  by code_simp

text \<open>
  C3. The QA-checked marker. The claim as stated fails for the file-writing processor,
  which never sets \<^verbatim>\<open>custom_fields.iaea:qa_checked\<close>: the corrected record of its
  snapshot carries the value that was fetched, and a report without a recognized key
  gives no snapshot (see the counterexample below). What holds, in the applier:

  \<^item> whenever the draft of a record was created and read, the draft document carries
    \<^verbatim>\<open>iaea:qa_checked = true\<close> when processing ends, in \<^verbatim>\<open>update_record\<close>, in
    \<^verbatim>\<open>mark_record_as_qa_checked_only\<close> and so for every report file, whether
    corrections fired or not;
  \<^item> the draft is obtained iff the reply to the draft creation carries an id and the
    read returns a document, and for a report without applicable corrections the
    resulting document is the draft that was read with the marker set;
  \<^item> outside dry-run mode that document is the body of the update request that is
    sent: for a report without applicable corrections the requests are the creation
    of the draft, its read, the update with the marked document and the publication;
  \<^item> every update request sent while a list of report files is processed carries a
    document with the marker set.

  The processor leaves the marker as it was fetched.
\<close>

theorem qa_checked_marker:
  "(\<forall>d. snd (snd (update_record repo rid qa ap)) = Some d \<longrightarrow> qa_checked_of d = Some True)
   \<and> (\<forall>d. snd (snd (mark_record_as_qa_checked_only repo rid ap)) = Some d \<longrightarrow>
         qa_checked_of d = Some True)
   \<and> (\<forall>d. snd (process_report_file repo loaded ap) = Some d \<longrightarrow> qa_checked_of d = Some True)
   \<and> (snd (snd (update_record repo rid qa ap)) \<noteq> None) =
       (draft_reply_has_id repo (sent ap @ [POST_draft rid])
        \<and> draft_document repo (sent ap @ [POST_draft rid, GET_draft rid]) \<noteq> None)
   \<and> snd (snd (mark_record_as_qa_checked_only repo rid ap)) =
       (if draft_reply_has_id repo (sent ap @ [POST_draft rid])
        then map_option mark_qa_checked
               (draft_document repo (sent ap @ [POST_draft rid, GET_draft rid]))
        else None)
   \<and> (\<not> dry_run ap \<longrightarrow>
        (\<forall>d. snd (snd (update_record repo rid qa ap)) = Some d \<longrightarrow>
           PUT_draft rid d \<in> set (sent (fst (update_record repo rid qa ap)))))
   \<and> (\<not> dry_run ap \<longrightarrow>
        (\<forall>d. snd (snd (mark_record_as_qa_checked_only repo rid ap)) = Some d \<longrightarrow>
           sent (fst (mark_record_as_qa_checked_only repo rid ap)) =
             sent ap @ [POST_draft rid, GET_draft rid, PUT_draft rid d, POST_publish rid]))
   \<and> (\<not> dry_run ap \<longrightarrow>
        (\<forall>report d. snd (process_report_file repo (Some report) ap) = Some d \<longrightarrow>
           PUT_draft (get_str (record_id report)) d
             \<in> set (sent (fst (process_report_file repo (Some report) ap)))))
   \<and> (\<forall>rid' d. PUT_draft rid' d \<in> set (sent (process_files repo files ap)) \<longrightarrow>
         PUT_draft rid' d \<in> set (sent ap) \<or> qa_checked_of d = Some True)
   \<and> qa_checked_of (fst (apply_corrections lower qa r s)) = qa_checked_of r"
  using update_record_checked [where repo = repo and rid = rid and qa = qa and ap = ap]
    mark_only_checked [where repo = repo and rid = rid and ap = ap]
    process_report_file_checked [where repo = repo and loaded = loaded and ap = ap]
    update_record_obtained [where repo = repo and rid = rid and qa = qa and ap = ap]
    mark_only_document [where repo = repo and rid = rid and ap = ap]
    update_record_live [where repo = repo and rid = rid and qa = qa and ap = ap]
    mark_only_live [where repo = repo and rid = rid and ap = ap]
    process_report_file_live [where repo = repo and ap = ap]
    process_files_puts [where repo = repo and fs = files and ap = ap]
    apply_corrections_checked [where qa = qa and r = r and s = s and lower = lower]
  by (intro conjI) (simp, simp, simp, simp, simp, simp, simp, simp, blast, simp)

theorem qa_checked_marker_witness:
  "snd (process_report_file (repository_ok unchecked_record) (Some empty_report) (new_applier False))
     = Some (mark_qa_checked unchecked_record)
   \<and> qa_checked_of unchecked_record = Some False
   \<and> qa_checked_of (mark_qa_checked unchecked_record) = Some True"
proof -
  have e: "snd (process_report_file (repository_ok unchecked_record) (Some empty_report)
      (new_applier False)) = Some (mark_qa_checked unchecked_record)"
    by (simp add: process_report_file_def has_applicable_corrections_def empty_report_def
        get_corrections_def empty_corrections_def get_list_def get_str_def Let_def
        split_beta mark_only_draft open_draft_sent repository_ok_def new_applier_def)
  have u: "qa_checked_of unchecked_record = Some False"
    by (simp add: qa_checked_of_def unchecked_record_def empty_custom_def)
  show ?thesis
    using e u qa_checked_marker [where repo = "repository_ok unchecked_record"
        and loaded = "Some empty_report" and ap = "new_applier False"]
    by simp
qed

theorem qa_checked_marker_counterexample:
  "map_option (\<lambda>c. (title_of (corrected_record c), qa_checked_of (corrected_record c)))
     (snd (process_qa_report ascii_lower (\<lambda>rid. Some unchecked_record) [] zero_stats ''abcde-12345-report.json''
        (Some title_report)))
     = Some (Some ''New Title'', Some False)
   \<and> snd (process_qa_report ascii_lower (\<lambda>rid. Some unchecked_record) [] zero_stats
        ''abcde-12345-report.json'' (Some empty_report)) = None"
  by code_simp

text \<open>
  C8. Dry-run mode of the applier. The claim as stated fails: the request that creates
  the draft is sent in dry-run mode too, before the dry-run flag is looked at (see the
  counterexample below). What holds: in dry-run mode the requests sent for one report
  are the draft creation and, when its reply carries an id, the read of the draft;
  no draft update and no publish action is sent, for one report, for a list of report
  files and for a folder. Outside dry-run mode an obtained draft is written back and
  published.
\<close>

theorem dry_run_requests:
  "(dry_run ap \<longrightarrow>
     sent (fst (update_record repo rid qa ap)) =
       sent ap @ (if draft_reply_has_id repo (sent ap @ [POST_draft rid])
                  then [POST_draft rid, GET_draft rid] else [POST_draft rid])
     \<and> sent (fst (mark_record_as_qa_checked_only repo rid ap)) =
       sent ap @ (if draft_reply_has_id repo (sent ap @ [POST_draft rid])
                  then [POST_draft rid, GET_draft rid] else [POST_draft rid])
     \<and> filter writes_back (sent (fst (process_report_file repo loaded ap))) =
         filter writes_back (sent ap)
     \<and> filter writes_back (sent (process_files repo files ap)) = filter writes_back (sent ap)
     \<and> filter writes_back (sent (fst (process_qa_folder repo folder ap))) =
         filter writes_back (sent ap))
   \<and> (\<not> dry_run ap \<longrightarrow>
        (\<forall>d. snd (snd (update_record repo rid qa ap)) = Some d \<longrightarrow>
           sent (fst (update_record repo rid qa ap)) =
             sent ap @ [POST_draft rid, GET_draft rid, PUT_draft rid d, POST_publish rid]))"
  using update_record_live [where repo = repo and rid = rid and qa = qa and ap = ap]
    update_record_dry [where repo = repo and rid = rid and qa = qa and ap = ap]
    mark_only_dry [where repo = repo and rid = rid and ap = ap]
    process_report_file_dry(1) [where repo = repo and loaded = loaded and ap = ap]
    process_files_dry [where repo = repo and fs = files and ap = ap]
    process_qa_folder_dry [where repo = repo and folder = folder and ap = ap]
  by simp

theorem dry_run_requests_witness:
  "dry_run (new_applier True)
   \<and> filter writes_back (sent (process_files (repository_ok unchecked_record)
        [Some title_report, Some empty_report] (new_applier True))) = []"
proof -
  have d: "dry_run (new_applier True)" "sent (new_applier True) = []"
    by (simp_all add: new_applier_def)
  show ?thesis
    using d dry_run_requests [where ap = "new_applier True"
        and repo = "repository_ok unchecked_record"
        and files = "[Some title_report, Some empty_report]"]
    by (simp del: process_files.simps)
qed

theorem dry_run_requests_counterexample:
  "dry_run (new_applier True)
   \<and> sent (fst (update_record (repository_ok unchecked_record) ''abcde-12345'' title_report
        (new_applier True))) = [POST_draft ''abcde-12345'', GET_draft ''abcde-12345'']
   \<and> sent (fst (mark_record_as_qa_checked_only (repository_ok unchecked_record) ''abcde-12345''
        (new_applier True))) = [POST_draft ''abcde-12345'', GET_draft ''abcde-12345'']"
  by (simp add: update_record_dry mark_only_dry new_applier_def repository_ok_def)

text \<open>
  C7. The future-date check parses the string as \<^verbatim>\<open>YYYY-MM-DD\<close> and, when that
  fails, as \<^verbatim>\<open>YYYY-MM\<close>; it returns true iff the parsed date (at midnight) is
  strictly later than the current moment, and false for a string that neither format
  parses.

  \<^item> The result is the comparison of the first successful parse with the current
    moment, and false when both parses fail.
  \<^item> A successful parse is a valid calendar date at midnight (on the first of the
    month for \<^verbatim>\<open>YYYY-MM\<close>), of a string with a hyphen after the year and of 8 to
    10 (respectively 6 to 7) characters.
  \<^item> On an ASCII string, whatever the digit table does outside ASCII, the first
    format yields a date exactly when the date is valid, at midnight, and the string
    is its four-digit year, a hyphen, one of the written forms of its month, a
    hyphen and one of the written forms of its day; the second format yields a date
    exactly when it is the first of a valid month at midnight and the string is its
    four-digit year, a hyphen and one of the written forms of its month.
  \<^item> In particular every valid date written \<^verbatim>\<open>YYYY-MM-DD\<close> parses to that date,
    and every valid month written \<^verbatim>\<open>YYYY-MM\<close> is refused by the first format and
    parsed to the first of that month by the second.
  \<^item> Strictly later is the lexicographic order on year, month, day, hour, minute,
    second and microsecond: irreflexive, transitive and total.
  \<^item> \<^verbatim>\<open>"2999-01"\<close> and \<^verbatim>\<open>"2999-01-15"\<close> are future exactly when midnight of
    1 and 15 January 2999 is later than now, so whenever the current year is before
    2999; \<^verbatim>\<open>"2020-01"\<close> is not future once the current year is after 2020;
    \<^verbatim>\<open>"not-a-date"\<close> never is.
  \<^item> A year written with the Arabic-Indic digit two (code point 1634) parses as
    2999 when the digit table gives that character the value 2.
  \<^item> The checker adds its recommendation exactly for a present, non-empty
    publication date that is future.
\<close>

theorem future_date_check:
  "(\<forall>d. strptime_ymd decimal s = Some d \<longrightarrow> is_future_date decimal now s = later d now)
   \<and> (strptime_ymd decimal s = None \<longrightarrow>
        (\<forall>d. strptime_ym decimal s = Some d \<longrightarrow> is_future_date decimal now s = later d now))
   \<and> (strptime_ymd decimal s = None \<and> strptime_ym decimal s = None \<longrightarrow>
        \<not> is_future_date decimal now s)
   \<and> (\<forall>d. strptime_ymd decimal s = Some d \<longrightarrow>
         valid_date d \<and> s ! 4 = 45 \<and> 8 \<le> length s \<and> length s \<le> 10)
   \<and> (\<forall>d. strptime_ym decimal s = Some d \<longrightarrow>
         valid_date d \<and> dt_day d = 1 \<and> s ! 4 = 45 \<and> 6 \<le> length s \<and> length s \<le> 7)
   \<and> (extends_ascii decimal \<and> is_ascii s \<longrightarrow>
        (strptime_ymd decimal s = Some dt) =
          (valid_date dt \<and> (\<exists>mtok \<in> set (month_forms (dt_month dt)).
             \<exists>dtok \<in> set (day_forms (dt_day dt)).
               s = digits4 (dt_year dt) @ [45] @ mtok @ [45] @ dtok)))
   \<and> (extends_ascii decimal \<and> is_ascii s \<longrightarrow>
        (strptime_ym decimal s = Some dt) =
          (valid_date dt \<and> dt_day dt = 1 \<and> (\<exists>mtok \<in> set (month_forms (dt_month dt)).
             s = digits4 (dt_year dt) @ [45] @ mtok)))
   \<and> (extends_ascii decimal \<and> 1 \<le> y \<and> y \<le> 9999 \<and> 1 \<le> m \<and> m \<le> 12
        \<and> 1 \<le> dd \<and> dd \<le> days_in_month y m \<longrightarrow>
        strptime_ymd decimal (iso_date y m dd) = Some (midnight y m dd)
        \<and> is_future_date decimal now (iso_date y m dd) = later (midnight y m dd) now)
   \<and> (extends_ascii decimal \<and> 1 \<le> y \<and> y \<le> 9999 \<and> 1 \<le> m \<and> m \<le> 12 \<longrightarrow>
        strptime_ymd decimal (iso_month y m) = None
        \<and> strptime_ym decimal (iso_month y m) = Some (midnight y m 1)
        \<and> is_future_date decimal now (iso_month y m) = later (midnight y m 1) now)
   \<and> later a b =
       (dt_year b < dt_year a \<or> (dt_year b = dt_year a \<and>
       (dt_month b < dt_month a \<or> (dt_month b = dt_month a \<and>
       (dt_day b < dt_day a \<or> (dt_day b = dt_day a \<and>
       (dt_hour b < dt_hour a \<or> (dt_hour b = dt_hour a \<and>
       (dt_minute b < dt_minute a \<or> (dt_minute b = dt_minute a \<and>
       (dt_second b < dt_second a \<or> (dt_second b = dt_second a \<and>
        dt_microsecond b < dt_microsecond a))))))))))))
   \<and> \<not> later now now
   \<and> (later a b \<and> later b c \<longrightarrow> later a c)
   \<and> (a \<noteq> b \<longrightarrow> later a b \<or> later b a)
   \<and> (extends_ascii decimal \<longrightarrow>
        is_future_date decimal now (ascii ''2999-01'') = later (midnight 2999 1 1) now
        \<and> is_future_date decimal now (ascii ''2999-01-15'') = later (midnight 2999 1 15) now
        \<and> is_future_date decimal now (ascii ''2020-01'') = later (midnight 2020 1 1) now
        \<and> (dt_year now < 2999 \<longrightarrow>
             is_future_date decimal now (ascii ''2999-01'')
             \<and> is_future_date decimal now (ascii ''2999-01-15''))
        \<and> (2020 < dt_year now \<longrightarrow> \<not> is_future_date decimal now (ascii ''2020-01'')))
   \<and> (extends_ascii decimal \<and> decimal 1634 = Some 2 \<longrightarrow>
        strptime_ymd decimal (1634 # ascii ''999-01-15'') = Some (midnight 2999 1 15))
   \<and> \<not> is_future_date decimal now (ascii ''not-a-date'')
   \<and> future_date_recommendations decimal now pub_date =
        (case pub_date of
           None \<Rightarrow> []
         | Some p \<Rightarrow> if p \<noteq> [] \<and> is_future_date decimal now p
                     then [ascii ''Publication date is in the future: '' @ p] else [])"
proof -
  have c1: "\<forall>d. strptime_ymd decimal s = Some d \<longrightarrow> is_future_date decimal now s = later d now"
    by (simp add: is_future_date_def)
  have c2: "strptime_ymd decimal s = None \<longrightarrow>
        (\<forall>d. strptime_ym decimal s = Some d \<longrightarrow> is_future_date decimal now s = later d now)"
    by (simp add: is_future_date_def)
  have c3: "strptime_ymd decimal s = None \<and> strptime_ym decimal s = None \<longrightarrow>
        \<not> is_future_date decimal now s"
    by (simp add: is_future_date_def)
  have c4: "\<forall>d. strptime_ymd decimal s = Some d \<longrightarrow>
         valid_date d \<and> s ! 4 = 45 \<and> 8 \<le> length s \<and> length s \<le> 10"
    using strptime_ymd_Some [of decimal s] by blast
  have c5: "\<forall>d. strptime_ym decimal s = Some d \<longrightarrow>
         valid_date d \<and> dt_day d = 1 \<and> s ! 4 = 45 \<and> 6 \<le> length s \<and> length s \<le> 7"
    using strptime_ym_Some [of decimal s] by blast
  have f1: "extends_ascii decimal \<and> is_ascii s \<longrightarrow>
        (strptime_ymd decimal s = Some dt) =
          (valid_date dt \<and> (\<exists>mtok \<in> set (month_forms (dt_month dt)).
             \<exists>dtok \<in> set (day_forms (dt_day dt)).
               s = digits4 (dt_year dt) @ [45] @ mtok @ [45] @ dtok))"
    using strptime_ymd_iff [of decimal s dt] by blast
  have f2: "extends_ascii decimal \<and> is_ascii s \<longrightarrow>
        (strptime_ym decimal s = Some dt) =
          (valid_date dt \<and> dt_day dt = 1 \<and> (\<exists>mtok \<in> set (month_forms (dt_month dt)).
             s = digits4 (dt_year dt) @ [45] @ mtok))"
    using strptime_ym_iff [of decimal s dt] by blast
  have iso1: "extends_ascii decimal \<and> 1 \<le> y \<and> y \<le> 9999 \<and> 1 \<le> m \<and> m \<le> 12
        \<and> 1 \<le> dd \<and> dd \<le> days_in_month y m \<longrightarrow>
        strptime_ymd decimal (iso_date y m dd) = Some (midnight y m dd)
        \<and> is_future_date decimal now (iso_date y m dd) = later (midnight y m dd) now"
    using strptime_ymd_iso_date [of decimal y m dd] is_future_iso(1) [of decimal y m dd now]
    by blast
  have iso2: "extends_ascii decimal \<and> 1 \<le> y \<and> y \<le> 9999 \<and> 1 \<le> m \<and> m \<le> 12 \<longrightarrow>
        strptime_ymd decimal (iso_month y m) = None
        \<and> strptime_ym decimal (iso_month y m) = Some (midnight y m 1)
        \<and> is_future_date decimal now (iso_month y m) = later (midnight y m 1) now"
    using strptime_ym_iso_month [of decimal y m] is_future_iso(2) [of decimal y m now]
    by blast
  have l1: "later a b =
       (dt_year b < dt_year a \<or> (dt_year b = dt_year a \<and>
       (dt_month b < dt_month a \<or> (dt_month b = dt_month a \<and>
       (dt_day b < dt_day a \<or> (dt_day b = dt_day a \<and>
       (dt_hour b < dt_hour a \<or> (dt_hour b = dt_hour a \<and>
       (dt_minute b < dt_minute a \<or> (dt_minute b = dt_minute a \<and>
       (dt_second b < dt_second a \<or> (dt_second b = dt_second a \<and>
        dt_microsecond b < dt_microsecond a))))))))))))"
    by (rule later_eq)
  have l2: "\<not> later now now" by (rule later_irrefl)
  have l3: "later a b \<and> later b c \<longrightarrow> later a c" using later_trans [of a b c] by blast
  have l4: "a \<noteq> b \<longrightarrow> later a b \<or> later b a" using later_total [of a b] by blast
  have ex: "extends_ascii decimal \<longrightarrow>
        is_future_date decimal now (ascii ''2999-01'') = later (midnight 2999 1 1) now
        \<and> is_future_date decimal now (ascii ''2999-01-15'') = later (midnight 2999 1 15) now
        \<and> is_future_date decimal now (ascii ''2020-01'') = later (midnight 2020 1 1) now
        \<and> (dt_year now < 2999 \<longrightarrow>
             is_future_date decimal now (ascii ''2999-01'')
             \<and> is_future_date decimal now (ascii ''2999-01-15''))
        \<and> (2020 < dt_year now \<longrightarrow> \<not> is_future_date decimal now (ascii ''2020-01''))"
    using examples_future [of decimal now] by (simp add: later_midnight)
  have ar: "extends_ascii decimal \<and> decimal 1634 = Some 2 \<longrightarrow>
        strptime_ymd decimal (1634 # ascii ''999-01-15'') = Some (midnight 2999 1 15)"
    using arabic_indic_year [of decimal] by blast
  have nd: "\<not> is_future_date decimal now (ascii ''not-a-date'')"
    by (simp add: is_future_date_def not_a_date)
  have rc: "future_date_recommendations decimal now pub_date =
        (case pub_date of
           None \<Rightarrow> []
         | Some p \<Rightarrow> if p \<noteq> [] \<and> is_future_date decimal now p
                     then [ascii ''Publication date is in the future: '' @ p] else [])"
    by (simp add: future_date_recommendations_def)
  show ?thesis
    by (intro conjI) (fact c1, fact c2, fact c3, fact c4, fact c5, fact f1, fact f2,
        fact iso1, fact iso2, fact l1, fact l2, fact l3, fact l4, fact ex, fact ar, fact nd,
        fact rc)
qed

theorem future_date_check_witness:
  "extends_ascii ascii_decimal
   \<and> is_ascii (iso_date 2999 1 15)
   \<and> dt_year (midnight 2026 11 4) < 2999 \<and> 2020 < dt_year (midnight 2026 11 4)
   \<and> 15 \<le> days_in_month 2999 1
   \<and> strptime_ymd ascii_decimal (iso_date 2999 1 15) = Some (midnight 2999 1 15)
   \<and> strptime_ymd ascii_decimal (iso_month 2999 1) = None
   \<and> strptime_ym ascii_decimal (iso_month 2999 1) = Some (midnight 2999 1 1)
   \<and> is_future_date ascii_decimal (midnight 2026 11 4) (ascii ''2999-01-15'')
   \<and> is_future_date ascii_decimal (midnight 2026 11 4) (ascii ''2999-01'')
   \<and> \<not> is_future_date ascii_decimal (midnight 2026 11 4) (ascii ''2020-01'')
   \<and> \<not> is_future_date ascii_decimal (midnight 2026 11 4) (ascii ''not-a-date'')
   \<and> future_date_recommendations ascii_decimal (midnight 2026 11 4) (Some (ascii ''2999-01-15''))
       = [ascii ''Publication date is in the future: '' @ ascii ''2999-01-15'']"
proof -
  have e: "extends_ascii ascii_decimal" by (rule extends_ascii_ascii_decimal)
  have i: "is_ascii (iso_date 2999 1 15)" by code_simp
  have d: "15 \<le> days_in_month 2999 1" by (simp add: days_in_month_def)
  have y: "dt_year (midnight 2026 11 4) < 2999" "2020 < dt_year (midnight 2026 11 4)"
    by (simp_all add: midnight_def)
  have n: "ascii ''2999-01-15'' \<noteq> []" by (simp add: ascii_def)
  show ?thesis
    using future_date_check [where decimal = ascii_decimal and s = "iso_date 2999 1 15"
        and now = "midnight 2026 11 4" and dt = "midnight 2999 1 15"
        and y = 2999 and m = 1 and dd = 15 and a = "midnight 2999 1 15"
        and b = "midnight 2026 11 4" and c = "midnight 2999 1 15"
        and pub_date = "Some (ascii ''2999-01-15'')"] e i d y n
    by (simp add: midnight_def later_eq)
qed

end
